(* ===== verification/Prelude.thy ===== *)
theory Prelude
  imports Complex_Main "HOL-Library.List_Lexorder" "HOL-Library.Char_ord"
    "HOL-Library.Product_Lexorder"
begin

text \<open>
  Shared ground of the development: the exception classes of the program as one datatype,
  computations that may raise (\<open>exn + 'a\<close>) and computations over a state that may raise
  (\<open>'s \<Rightarrow> (exn + 'a) \<times> 's\<close>, the state surviving the exception as in Python), relations
  that a computation follows on every outcome, and the string functions of the Python
  standard library the program uses.

  A Python \<open>str\<close> is the list of its code points, limited to \<open>U+0000\<close> .. \<open>U+00FF\<close>.
  A \<open>datetime\<close> is an instant, counted in microseconds; a \<open>timedelta\<close> a difference of two.
\<close>

section \<open>Exceptions\<close>

text \<open>One constructor per exception class; the message texts are not modelled.\<close>

datatype exn =
    ValueError
  | IntegrityError
  | SyntaxError
  | OSError
  | InvalidTransitionError
  | LoopInvariantError
  | StepNotFoundError
  | ProjectNotFoundError
  | ContextInvariantError
  | RealizationControlError
  | TaskDispatchError
  | ReportNotAvailableError
  | ReportParseError
  | ReportMismatchError
  | ApprovalError
  | ApprovalActorRequiredError
  | ApprovalReasonRequiredError
  | ApprovalStepNotFoundError
  | ApprovalTransitionError
  | OverrideActorRequiredError
  | OverrideReasonRequiredError
  | OverrideProjectNotFoundError
  | OverrideStepNotFoundError
  | OverrideInvariantError
  | OverrideNoChangeError
  | OverrideTransitionError
  | AdrManagerError
  | AdrNotFoundError
  | InvalidAdrStatusTransitionError
  | InvalidSupersessionError
  | RiskManagerError
  | RiskNotFoundError
  | InvalidRiskStatusTransitionError
  | BootstrapConflictError
  | ArchitectureVersioningConflictError
  | ArchitectureEvolutionNotFoundError
  | ArchitectureEvolutionError
  | ArchitectureEvolutionConflictError
  | ArchitectureEvolutionNotApprovedError
  | EvidenceMergerError
  | EvidenceIdentityCollisionError
  | DecisionEngineError
  | JudgeError
  | PluginError
  | PluginNotFoundError
  | PluginAlreadyRegisteredError
  | PluginDefaultNotSetError
  | CostIdentityConflictError
  | CostIdentityUnavailableError
  | OverflowError

type_synonym datetime = int

section \<open>Computations that may raise\<close>

fun bindE :: "exn + 'a \<Rightarrow> ('a \<Rightarrow> exn + 'b) \<Rightarrow> exn + 'b" where
  "bindE (Inl e) f = Inl e"
| "bindE (Inr a) f = f a"

definition requireE :: "bool \<Rightarrow> exn \<Rightarrow> exn + unit" where
  "requireE b e = (if b then Inr () else Inl e)"

fun mapE :: "('a \<Rightarrow> exn + 'b) \<Rightarrow> 'a list \<Rightarrow> exn + 'b list" where
  "mapE f [] = Inr []"
| "mapE f (x # xs) = bindE (f x) (\<lambda>y. bindE (mapE f xs) (\<lambda>ys. Inr (y # ys)))"

lemma bindE_Inr_iff [simp]: "bindE m f = Inr b \<longleftrightarrow> (\<exists>a. m = Inr a \<and> f a = Inr b)"
  by (cases m) auto

lemma bindE_Inl_iff: "bindE m f = Inl e \<longleftrightarrow> m = Inl e \<or> (\<exists>a. m = Inr a \<and> f a = Inl e)"
  by (cases m) auto

lemma requireE_Inr_iff [simp]: "requireE b e = Inr u \<longleftrightarrow> b"
  by (simp add: requireE_def)

lemma requireE_Inl_iff [simp]: "requireE b e = Inl e' \<longleftrightarrow> \<not> b \<and> e' = e"
  by (auto simp: requireE_def)

lemma requireE_True [simp]: "requireE True e = Inr ()"
  by (simp add: requireE_def)

lemma requireE_False [simp]: "requireE False e = Inl e"
  by (simp add: requireE_def)

lemma mapE_total: "(\<And>x. x \<in> set xs \<Longrightarrow> f x = Inr (g x)) \<Longrightarrow> mapE f xs = Inr (map g xs)"
  by (induction xs) auto

lemma mapE_Inr_length: "mapE f xs = Inr ys \<Longrightarrow> length ys = length xs"
  by (induction xs arbitrary: ys) auto

section \<open>Stateful computations that may raise\<close>

type_synonym ('s, 'a) pm = "'s \<Rightarrow> (exn + 'a) \<times> 's"

named_theorems exec "equations that run a computation on a state"

definition returnM :: "'a \<Rightarrow> ('s, 'a) pm" where
  "returnM a = (\<lambda>s. (Inr a, s))"

definition raiseM :: "exn \<Rightarrow> ('s, 'a) pm" where
  "raiseM e = (\<lambda>s. (Inl e, s))"

definition bindM :: "('s, 'a) pm \<Rightarrow> ('a \<Rightarrow> ('s, 'b) pm) \<Rightarrow> ('s, 'b) pm" where
  "bindM m f = (\<lambda>s. case m s of (r, s') \<Rightarrow> (case r of Inl e \<Rightarrow> (Inl e, s') | Inr a \<Rightarrow> f a s'))"

definition thenM :: "('s, 'a) pm \<Rightarrow> ('s, 'b) pm \<Rightarrow> ('s, 'b) pm" where
  "thenM m n = bindM m (\<lambda>_. n)"

definition getsM :: "('s \<Rightarrow> 'a) \<Rightarrow> ('s, 'a) pm" where
  "getsM f = (\<lambda>s. (Inr (f s), s))"

definition modifyM :: "('s \<Rightarrow> 's) \<Rightarrow> ('s, unit) pm" where
  "modifyM f = (\<lambda>s. (Inr (), f s))"

definition liftE :: "exn + 'a \<Rightarrow> ('s, 'a) pm" where
  "liftE r = (\<lambda>s. (r, s))"

definition catchM :: "('s, 'a) pm \<Rightarrow> (exn \<Rightarrow> ('s, 'a) pm) \<Rightarrow> ('s, 'a) pm" where
  "catchM m h = (\<lambda>s. case m s of (r, s') \<Rightarrow> (case r of Inl e \<Rightarrow> h e s' | Inr a \<Rightarrow> (Inr a, s')))"

primrec forM :: "'x list \<Rightarrow> ('x \<Rightarrow> ('s, unit) pm) \<Rightarrow> ('s, unit) pm" where
  "forM [] f = returnM ()"
| "forM (x # xs) f = thenM (f x) (forM xs f)"

lemma returnM_run [exec]: "returnM a s = (Inr a, s)"
  by (simp add: returnM_def)

lemma raiseM_run [exec]: "raiseM e s = (Inl e, s)"
  by (simp add: raiseM_def)

lemma getsM_run [exec]: "getsM f s = (Inr (f s), s)"
  by (simp add: getsM_def)

lemma modifyM_run [exec]: "modifyM f s = (Inr (), f s)"
  by (simp add: modifyM_def)

lemma liftE_run [exec]: "liftE r s = (r, s)"
  by (simp add: liftE_def)

lemma bindM_run [exec]:
  "bindM m f s = (case m s of (r, s') \<Rightarrow> (case r of Inl e \<Rightarrow> (Inl e, s') | Inr a \<Rightarrow> f a s'))"
  by (simp add: bindM_def)

lemma thenM_run [exec]:
  "thenM m n s = (case m s of (r, s') \<Rightarrow> (case r of Inl e \<Rightarrow> (Inl e, s') | Inr a \<Rightarrow> n s'))"
  by (simp add: thenM_def bindM_def)

lemma catchM_run [exec]:
  "catchM m h s = (case m s of (r, s') \<Rightarrow> (case r of Inl e \<Rightarrow> h e s' | Inr a \<Rightarrow> (Inr a, s')))"
  by (simp add: catchM_def)

lemma if_run [exec]: "(if b then m else n) s = (if b then m s else n s)"
  by simp

lemma option_run [exec]:
  "(case v of None \<Rightarrow> m | Some x \<Rightarrow> f x) s = (case v of None \<Rightarrow> m s | Some x \<Rightarrow> f x s)"
  by (simp split: option.split)

lemma bindM_ok: "m s = (Inr a, s') \<Longrightarrow> bindM m f s = f a s'"
  by (simp add: bindM_def)

lemma bindM_err: "m s = (Inl e, s') \<Longrightarrow> bindM m f s = (Inl e, s')"
  by (simp add: bindM_def)

lemma thenM_ok: "m s = (Inr a, s') \<Longrightarrow> thenM m n s = n s'"
  by (simp add: thenM_def bindM_def)

lemma bindM_Inr_iff:
  "bindM m f s = (Inr b, t) \<longleftrightarrow> (\<exists>a u. m s = (Inr a, u) \<and> f a u = (Inr b, t))"
  by (auto simp: bindM_def split: prod.splits sum.splits)

lemma bindM_Inl_iff:
  "bindM m f s = (Inl e, t) \<longleftrightarrow>
     m s = (Inl e, t) \<or> (\<exists>a u. m s = (Inr a, u) \<and> f a u = (Inl e, t))"
  by (auto simp: bindM_def split: prod.splits sum.splits)

lemma thenM_Inr_iff:
  "thenM m n s = (Inr b, t) \<longleftrightarrow> (\<exists>a u. m s = (Inr a, u) \<and> n u = (Inr b, t))"
  by (simp add: thenM_def bindM_Inr_iff)

lemma returns_obtain: "isl (fst x) = False \<Longrightarrow> \<exists>a s. x = (Inr a, s)"
  by (cases x; cases "fst x") auto

section \<open>Relations a computation follows on every outcome\<close>

definition follows :: "('s \<Rightarrow> 's \<Rightarrow> bool) \<Rightarrow> ('s, 'a) pm \<Rightarrow> bool" where
  "follows R m \<longleftrightarrow> (\<forall>s. R s (snd (m s)))"

lemma followsD: "follows R m \<Longrightarrow> m s = (r, s') \<Longrightarrow> R s s'"
  by (metis follows_def snd_conv)

lemma followsI: "(\<And>s. R s (snd (m s))) \<Longrightarrow> follows R m"
  by (simp add: follows_def)

text \<open>
  Every reflexive and transitive relation is kept by the sequencing operators, whatever
  raises on the way: the contract all frame properties of the components share.
\<close>

locale progress_relation =
  fixes R :: "'s \<Rightarrow> 's \<Rightarrow> bool"
  assumes R_refl: "R s s"
    and R_trans: "R s t \<Longrightarrow> R t u \<Longrightarrow> R s u"
begin

lemma return_follows: "follows R (returnM a)"
  by (simp add: follows_def returnM_def R_refl)

lemma raise_follows: "follows R (raiseM e)"
  by (simp add: follows_def raiseM_def R_refl)

lemma gets_follows: "follows R (getsM f)"
  by (simp add: follows_def getsM_def R_refl)

lemma lift_follows: "follows R (liftE r)"
  by (simp add: follows_def liftE_def R_refl)

lemma bind_follows:
  assumes "follows R m" and "\<And>a. follows R (f a)"
  shows "follows R (bindM m f)"
proof (rule followsI)
  fix s
  obtain r s' where ms: "m s = (r, s')" by fastforce
  with assms(1) have "R s s'" by (metis followsD)
  then show "R s (snd (bindM m f s))"
    using assms(2) ms by (cases r) (auto simp: bindM_def follows_def intro: R_trans)
qed

lemma then_follows: "follows R m \<Longrightarrow> follows R n \<Longrightarrow> follows R (thenM m n)"
  by (simp add: thenM_def bind_follows)

lemma catch_follows:
  assumes "follows R m" and "\<And>e. follows R (h e)"
  shows "follows R (catchM m h)"
proof (rule followsI)
  fix s
  obtain r s' where ms: "m s = (r, s')" by fastforce
  with assms(1) have "R s s'" by (metis followsD)
  then show "R s (snd (catchM m h s))"
    using assms(2) ms by (cases r) (auto simp: catchM_def follows_def intro: R_trans)
qed

lemma for_follows: "(\<And>x. follows R (f x)) \<Longrightarrow> follows R (forM xs f)"
  by (induction xs) (auto intro: return_follows then_follows)

lemma if_follows: "(b \<Longrightarrow> follows R m) \<Longrightarrow> (\<not> b \<Longrightarrow> follows R n) \<Longrightarrow> follows R (if b then m else n)"
  by simp

lemma option_follows:
  "follows R n \<Longrightarrow> (\<And>x. follows R (f x)) \<Longrightarrow> follows R (case ov of None \<Rightarrow> n | Some x \<Rightarrow> f x)"
  by (cases ov) auto

lemmas follows_rules = return_follows raise_follows gets_follows lift_follows bind_follows
  then_follows catch_follows for_follows if_follows option_follows

end

section \<open>Python strings\<close>

text \<open>\<open>str.isspace\<close> on one code point below 256, and \<open>str.strip\<close>.\<close>

definition is_space :: "char \<Rightarrow> bool" where
  "is_space c = (let n = of_char c :: nat in
     (9 \<le> n \<and> n \<le> 13) \<or> (28 \<le> n \<and> n \<le> 32) \<or> n = 133 \<or> n = 160)"

definition strip :: "string \<Rightarrow> string" where
  "strip s = rev (dropWhile is_space (rev (dropWhile is_space s)))"

definition is_blank :: "string \<Rightarrow> bool" where
  "is_blank s = (strip s = [])"

lemma is_blank_iff: "is_blank s \<longleftrightarrow> (\<forall>c\<in>set s. is_space c)"
proof -
  have "is_blank s \<longleftrightarrow> (\<forall>c\<in>set (dropWhile is_space s). is_space c)"
    by (simp add: is_blank_def strip_def dropWhile_eq_Nil_conv)
  also have "\<dots> \<longleftrightarrow> (\<forall>c\<in>set s. is_space c)"
    by (induction s) auto
  finally show ?thesis .
qed

lemma is_blank_Nil [simp]: "is_blank []"
  by (simp add: is_blank_iff)

lemma is_blank_append [simp]: "is_blank (s @ t) \<longleftrightarrow> is_blank s \<and> is_blank t"
  by (auto simp: is_blank_iff)

lemma is_blank_Cons [simp]: "is_blank (c # s) \<longleftrightarrow> is_space c \<and> is_blank s"
  by (auto simp: is_blank_iff)

text \<open>\<open>str(n)\<close> for an \<open>int\<close>, and the \<open>:03d\<close> format.\<close>

definition digit_char :: "nat \<Rightarrow> char" where
  "digit_char d = char_of (48 + d)"

fun show_nat :: "nat \<Rightarrow> string" where
  "show_nat n = (if n < 10 then [digit_char n] else show_nat (n div 10) @ [digit_char (n mod 10)])"

declare show_nat.simps [simp del]

definition show_int :: "int \<Rightarrow> string" where
  "show_int i = (if i < 0 then CHR ''-'' # show_nat (nat (- i)) else show_nat (nat i))"

definition pad0 :: "nat \<Rightarrow> string \<Rightarrow> string" where
  "pad0 w s = replicate (w - length s) (CHR ''0'') @ s"

definition show_03d :: "int \<Rightarrow> string" where
  "show_03d i = (if i < 0 then CHR ''-'' # pad0 2 (show_nat (nat (- i))) else pad0 3 (show_nat (nat i)))"

definition is_digit :: "char \<Rightarrow> bool" where
  "is_digit c = (let n = of_char c :: nat in 48 \<le> n \<and> n \<le> 57)"

definition digit_val :: "char \<Rightarrow> nat" where
  "digit_val c = of_char c - 48"

definition read_nat :: "string \<Rightarrow> nat" where
  "read_nat s = foldl (\<lambda>a c. a * 10 + digit_val c) 0 s"

lemma digit_char_is_digit: "d < 10 \<Longrightarrow> is_digit (digit_char d)"
  by (simp add: is_digit_def digit_char_def Let_def of_char_of take_bit_nat_eq_self)

lemma digit_val_char [simp]: "d < 10 \<Longrightarrow> digit_val (digit_char d) = d"
  by (simp add: digit_val_def digit_char_def of_char_of take_bit_nat_eq_self)

lemma is_digit_not_space: "is_digit c \<Longrightarrow> \<not> is_space c"
  by (auto simp: is_digit_def is_space_def Let_def)

lemma show_nat_digits: "\<forall>c\<in>set (show_nat n). is_digit c"
proof (induction n rule: show_nat.induct)
  case (1 n)
  then show ?case
    by (subst show_nat.simps) (auto simp: digit_char_is_digit)
qed

lemma show_nat_nonempty [simp]: "show_nat n \<noteq> []"
  by (subst show_nat.simps) simp

lemma read_show_nat [simp]: "read_nat (show_nat n) = n"
proof (induction n rule: show_nat.induct)
  case (1 n)
  then show ?case
    by (subst show_nat.simps) (auto simp: read_nat_def)
qed

lemma read_nat_zeros: "read_nat (replicate k (CHR ''0'') @ s) = read_nat s"
proof -
  have "foldl (\<lambda>a c. a * 10 + digit_val c) 0 (replicate k (CHR ''0'')) = 0"
    by (induction k) (auto simp: digit_val_def)
  then show ?thesis by (simp add: read_nat_def)
qed

lemma read_pad0 [simp]: "read_nat (pad0 w (show_nat n)) = n"
  by (simp add: pad0_def read_nat_zeros)

lemma pad0_digits: "\<forall>c\<in>set (pad0 w (show_nat n)). is_digit c"
  using show_nat_digits by (auto simp: pad0_def is_digit_def)

lemma show_int_not_blank [simp]: "\<not> is_blank (show_int i)"
proof -
  obtain d ds where "show_nat (nat \<bar>i\<bar>) = d # ds" by (meson neq_Nil_conv show_nat_nonempty)
  then have "\<not> is_blank (show_nat (nat \<bar>i\<bar>))"
    using show_nat_digits[of "nat \<bar>i\<bar>"] is_digit_not_space by (auto simp: is_blank_iff)
  then show ?thesis
    by (cases "i < 0") (auto simp: show_int_def)
qed

lemma digit_not_minus: "is_digit c \<Longrightarrow> c \<noteq> CHR ''-''"
  by (auto simp: is_digit_def)

lemma show_nat_hd_not_minus: "show_nat n \<noteq> CHR ''-'' # s"
  using show_nat_digits[of n] digit_not_minus by (metis list.set_intros(1))

lemma show_nat_inject [simp]: "show_nat m = show_nat n \<longleftrightarrow> m = n"
  by (metis read_show_nat)

lemma show_int_inject [simp]: "show_int i = show_int j \<longleftrightarrow> i = j"
proof (cases "i < 0"; cases "j < 0")
  assume "\<not> i < 0" "j < 0"
  then show ?thesis using show_nat_hd_not_minus by (auto simp: show_int_def)
next
  assume "i < 0" "\<not> j < 0"
  then show ?thesis using show_nat_hd_not_minus by (auto simp: show_int_def dest: sym)
qed (auto simp: show_int_def)

lemma pad0_inject: "pad0 w (show_nat m) = pad0 w (show_nat n) \<longleftrightarrow> m = n"
  by (metis read_pad0)

lemma pad0_not_minus: "pad0 w (show_nat m) \<noteq> CHR ''-'' # s"
  using pad0_digits[of w m] digit_not_minus by (metis list.set_intros(1))

lemma show_03d_inject [simp]: "show_03d i = show_03d j \<longleftrightarrow> i = j"
proof (cases "i < 0"; cases "j < 0")
  assume "\<not> i < 0" "j < 0"
  then show ?thesis using pad0_not_minus by (auto simp: show_03d_def)
next
  assume "i < 0" "\<not> j < 0"
  then show ?thesis using pad0_not_minus by (auto simp: show_03d_def dest: sym)
qed (auto simp: show_03d_def pad0_inject)

text \<open>\<open>strftime("%Y%m%d_%H%M%S")\<close> of an instant in UTC, microseconds after 1970-01-01 (civil calendar).\<close>

definition civil_date :: "int \<Rightarrow> int \<times> int \<times> int" where
  "civil_date days =
     (let z = days + 719468; era = z div 146097; doe = z mod 146097;
          yoe = (doe - doe div 1460 + doe div 36524 - doe div 146096) div 365;
          doy = doe - (365 * yoe + yoe div 4 - yoe div 100);
          mp = (5 * doy + 2) div 153;
          month = (if mp < 10 then mp + 3 else mp - 9)
      in (yoe + era * 400 + (if month \<le> 2 then 1 else 0), month, doy - (153 * mp + 2) div 5 + 1))"

definition two_digits :: "int \<Rightarrow> string" where
  "two_digits i = pad0 2 (show_nat (nat i))"

definition time_stamp :: "datetime \<Rightarrow> string" where
  "time_stamp t =
     (let secs = t div 1000000; s = secs mod 86400 in
      case civil_date (secs div 86400) of (y, m, d) \<Rightarrow>
        pad0 4 (show_nat (nat y)) @ two_digits m @ two_digits d @ ''_''
        @ two_digits (s div 3600) @ two_digits (s div 60 mod 60) @ two_digits (s mod 60))"

text \<open>\<open>sep.join(parts)\<close> and \<open>s.split(sep)\<close> for a one-character separator.\<close>

fun join :: "string \<Rightarrow> string list \<Rightarrow> string" where
  "join sep [] = []"
| "join sep [x] = x"
| "join sep (x # y # xs) = x @ sep @ join sep (y # xs)"

fun split_on :: "char \<Rightarrow> string \<Rightarrow> string list" where
  "split_on d [] = [[]]"
| "split_on d (c # cs) =
     (if c = d then [] # split_on d cs
      else (case split_on d cs of [] \<Rightarrow> [[c]] | w # ws \<Rightarrow> (c # w) # ws))"

lemma split_on_nonempty [simp]: "split_on d s \<noteq> []"
  by (induction s) (auto split: list.splits)

lemma split_on_no_sep: "d \<notin> set s \<Longrightarrow> split_on d s = [s]"
  by (induction s) auto

lemma split_on_append:
  "d \<notin> set w \<Longrightarrow> split_on d (w @ d # s) = w # split_on d s"
  by (induction w) auto

lemma split_join:
  "xs \<noteq> [] \<Longrightarrow> \<forall>x\<in>set xs. d \<notin> set x \<Longrightarrow> split_on d (join [d] xs) = xs"
  by (induction "[d]" xs rule: join.induct) (auto simp: split_on_no_sep split_on_append)

lemma join_Cons_head: "join sep ((c # w) # ws) = c # join sep (w # ws)"
  by (cases ws) auto

lemma join_split: "join [d] (split_on d s) = s"
proof (induction s)
  case (Cons c s)
  obtain w ws where "split_on d s = w # ws" by (meson neq_Nil_conv split_on_nonempty)
  with Cons show ?case by (auto simp: join_Cons_head)
qed simp

definition starts_with :: "string \<Rightarrow> string \<Rightarrow> bool" where
  "starts_with p s = (take (length p) s = p)"

section \<open>Searching and sorting lists of keyed entries\<close>

lemma find_unique:
  "m \<in> set xs \<Longrightarrow> P m \<Longrightarrow> (\<And>n. n \<in> set xs \<Longrightarrow> P n \<Longrightarrow> n = m) \<Longrightarrow> find P xs = Some m"
proof (induction xs)
  case (Cons x xs)
  show ?case
  proof (cases "P x")
    case True
    then have "x = m" using Cons.prems(3) by (metis list.set_intros(1))
    with True show ?thesis by simp
  next
    case False
    then have "m \<in> set xs" using Cons.prems(1,2) by auto
    then have "find P xs = Some m"
      using Cons.prems(2,3) by (rule Cons.IH) (metis list.set_intros(2))
    with False show ?thesis by simp
  qed
qed simp

lemma find_NoneI: "(\<And>x. x \<in> set xs \<Longrightarrow> \<not> P x) \<Longrightarrow> find P xs = None"
  by (simp add: find_None_iff)

lemma sorted_key_unique:
  assumes "sorted (map f xs)" "sorted (map f ys)" "distinct (map f xs)" "distinct (map f ys)"
    and "set xs = set ys"
  shows "xs = ys"
proof -
  have "map f xs = map f ys"
    using assms by (metis set_map sorted_distinct_set_unique)
  moreover have "inj_on f (set xs \<union> set ys)"
    using assms(3,5) by (simp add: distinct_map)
  ultimately show ?thesis by (simp add: inj_on_map_eq_map)
qed

end
