(* ===== verification/Tables.thy ===== *)
theory Tables
  imports Prelude
begin

text \<open>
  Keyed lists: a Python \<open>dict\<close> in insertion order and a table of models are both a list in which a
  key function finds at most one element. \<open>put\<close> replaces in place or appends, as assignment to a
  \<open>dict\<close> key and SQLite's \<open>ON CONFLICT DO UPDATE\<close> do. The locale \<open>repository\<close> is the contract of
  \<open>ports/repositories.py\<close> over such a list; the table of models implements it at once.
\<close>

section \<open>Tables of models\<close>

definition lookup :: "('m \<Rightarrow> 'k) \<Rightarrow> 'k \<Rightarrow> 'm list \<Rightarrow> 'm option" where
  "lookup key k ms = find (\<lambda>m. key m = k) ms"

definition put :: "('m \<Rightarrow> 'k) \<Rightarrow> 'm \<Rightarrow> 'm list \<Rightarrow> 'm list" where
  "put key m ms =
     (if key m \<in> key ` set ms then map (\<lambda>x. if key x = key m then m else x) ms else ms @ [m])"

definition remove :: "('m \<Rightarrow> 'k) \<Rightarrow> 'k \<Rightarrow> 'm list \<Rightarrow> 'm list" where
  "remove key k ms = filter (\<lambda>m. key m \<noteq> k) ms"

lemma put_keys: "set (map key (put key m ms)) = insert (key m) (set (map key ms))"
  by (auto simp: put_def image_iff)

lemma put_distinct: "distinct (map key ms) \<Longrightarrow> distinct (map key (put key m ms))"
proof -
  assume d: "distinct (map key ms)"
  have "map key (map (\<lambda>x. if key x = key m then m else x) ms) = map key ms" by simp
  with d show ?thesis by (auto simp: put_def simp del: map_map)
qed

lemma set_put: "set (put key m ms) = insert m {x \<in> set ms. key x \<noteq> key m}"
  by (auto simp: put_def) (metis imageI)

lemma lookup_map_other:
  "k \<noteq> key m \<Longrightarrow> lookup key k (map (\<lambda>x. if key x = key m then m else x) ms) = lookup key k ms"
  by (induction ms) (auto simp: lookup_def)

lemma lookup_map_same:
  "key m \<in> key ` set ms \<Longrightarrow> lookup key (key m) (map (\<lambda>x. if key x = key m then m else x) ms) = Some m"
  by (induction ms) (auto simp: lookup_def)

lemma lookup_snoc:
  "lookup key k (ms @ [m]) = (case lookup key k ms of Some x \<Rightarrow> Some x | None \<Rightarrow> if key m = k then Some m else None)"
  by (induction ms) (auto simp: lookup_def)

lemma lookup_None: "lookup key k ms = None \<longleftrightarrow> k \<notin> key ` set ms"
  by (auto simp: lookup_def find_None_iff)

lemma lookup_put: "lookup key k (put key m ms) = (if k = key m then Some m else lookup key k ms)"
proof (cases "key m \<in> key ` set ms")
  case True
  then show ?thesis
    by (cases "k = key m") (simp_all add: put_def lookup_map_same lookup_map_other)
next
  case False
  then have "lookup key (key m) ms = None" by (simp add: lookup_None)
  with False show ?thesis by (auto simp: put_def lookup_snoc split: option.splits)
qed

lemma lookup_put_same [simp]: "lookup key (key m) (put key m ms) = Some m"
  by (simp add: lookup_put)

lemma lookup_fold_put_out:
  "\<not> (\<exists>m\<in>set xs. key m = k) \<Longrightarrow> lookup key k (fold (put key) xs ms) = lookup key k ms"
  by (induction xs arbitrary: ms) (auto simp: lookup_put)

lemma lookup_fold_put_in:
  "distinct (map key xs) \<Longrightarrow> m \<in> set xs \<Longrightarrow> lookup key (key m) (fold (put key) xs ms) = Some m"
proof (induction xs arbitrary: ms)
  case (Cons x xs)
  show ?case
  proof (cases "m = x")
    case True
    then have "\<not> (\<exists>n\<in>set xs. key n = key m)" using Cons.prems(1) by (metis distinct.simps(2) imageI list.simps(9) set_map)
    then show ?thesis by (simp add: True lookup_fold_put_out)
  qed (use Cons in auto)
qed simp

lemma lookup_Some: "lookup key k ms = Some m \<Longrightarrow> m \<in> set ms \<and> key m = k"
  by (auto simp: lookup_def find_Some_iff)

lemma lookup_iff: "distinct (map key ms) \<Longrightarrow> lookup key k ms = Some m \<longleftrightarrow> m \<in> set ms \<and> key m = k"
proof
  assume d: "distinct (map key ms)" and m: "m \<in> set ms \<and> key m = k"
  show "lookup key k ms = Some m"
  proof (cases "lookup key k ms")
    case None
    with m show ?thesis by (auto simp: lookup_None)
  next
    case (Some n)
    then have "n \<in> set ms" "key n = k" by (auto dest: lookup_Some)
    with d m Some show ?thesis by (auto simp: distinct_map inj_on_def)
  qed
qed (auto dest: lookup_Some)

lemma lookup_remove: "lookup key k (remove key j ms) = (if k = j then None else lookup key k ms)"
  by (induction ms) (auto simp: lookup_def remove_def)

lemma remove_distinct: "distinct (map key ms) \<Longrightarrow> distinct (map key (remove key k ms))"
  by (simp add: remove_def distinct_map_filter)

section \<open>The repository contract\<close>

locale repository =
  fixes key :: "'m \<Rightarrow> 'k"
    and valid :: "'m \<Rightarrow> bool"
    and represents :: "'t \<Rightarrow> 'm list \<Rightarrow> bool"
    and get :: "'k \<Rightarrow> 't \<Rightarrow> exn + 'm option"
    and upsert :: "'m \<Rightarrow> 't \<Rightarrow> 't"
    and listing :: "'t \<Rightarrow> exn + 'm list"
    and delete :: "'k \<Rightarrow> 't \<Rightarrow> bool \<times> 't"
    and order :: "'m \<Rightarrow> 'o :: linorder"
  assumes keys_distinct: "represents t ms \<Longrightarrow> distinct (map key ms)"
    and get_refines: "represents t ms \<Longrightarrow> get k t = Inr (lookup key k ms)"
    and upsert_refines: "represents t ms \<Longrightarrow> valid m \<Longrightarrow> represents (upsert m t) (put key m ms)"
    and listing_refines: "represents t ms \<Longrightarrow> listing t = Inr (sort_key order ms)"
    and delete_refines: "represents t ms \<Longrightarrow> represents (snd (delete k t)) (remove key k ms)"
    and delete_result: "represents t ms \<Longrightarrow> fst (delete k t) \<longleftrightarrow> lookup key k ms \<noteq> None"
begin

lemma get_upsert:
  "represents t ms \<Longrightarrow> valid m \<Longrightarrow>
     get k (upsert m t) = (if k = key m then Inr (Some m) else get k t)"
  by (simp add: get_refines upsert_refines[THEN get_refines] lookup_put)

lemma get_delete:
  "represents t ms \<Longrightarrow> get k (snd (delete j t)) = (if k = j then Inr None else get k t)"
  by (simp add: get_refines delete_refines[THEN get_refines] lookup_remove)

lemma upserts_refine:
  "represents t ms \<Longrightarrow> \<forall>m\<in>set ws. valid m \<Longrightarrow> represents (fold upsert ws t) (fold (put key) ws ms)"
  by (induction ws arbitrary: t ms) (auto simp: upsert_refines)

text \<open>After any sequence of writes the last one on a key is what is read.\<close>

lemma get_upserts:
  assumes "represents t ms" and "\<forall>m\<in>set ws. valid m"
  shows "get k (fold upsert ws t) =
    (case lookup key k (rev ws) of Some m \<Rightarrow> Inr (Some m) | None \<Rightarrow> get k t)"
  using assms
proof (induction ws rule: rev_induct)
  case Nil
  then show ?case by (simp add: lookup_def)
next
  case (snoc w ws)
  then have "represents (fold upsert ws t) (fold (put key) ws ms)" by (simp add: upserts_refine)
  with snoc show ?case by (auto simp: get_upsert lookup_def)
qed

lemma listing_complete:
  assumes "represents t ms"
  obtains xs where "listing t = Inr xs" "sorted (map order xs)" "distinct (map key xs)"
    "\<And>m. m \<in> set xs \<longleftrightarrow> get (key m) t = Inr (Some m)"
proof
  show "listing t = Inr (sort_key order ms)" using assms by (rule listing_refines)
  show "sorted (map order (sort_key order ms))" by simp
  show "distinct (map key (sort_key order ms))"
    using keys_distinct[OF assms] by (simp add: distinct_map)
  show "m \<in> set (sort_key order ms) \<longleftrightarrow> get (key m) t = Inr (Some m)" for m
    using keys_distinct[OF assms] by (simp add: get_refines[OF assms] lookup_iff)
qed

end

text \<open>A table of models is itself an implementation of the contract: the storage model uses it.\<close>

interpretation model_table: repository key "\<lambda>_. True" "\<lambda>t ms. t = ms \<and> distinct (map key ms)"
  "\<lambda>k t. Inr (lookup key k t)" "put key" "\<lambda>t. Inr (sort_key order t)"
  "\<lambda>k t. (lookup key k t \<noteq> None, remove key k t)" order
  for key :: "'m \<Rightarrow> 'k" and order :: "'m \<Rightarrow> 'o :: linorder"
  by unfold_locales (auto simp: put_distinct remove_distinct)

end
