(* ===== verification/Json.thy ===== *)
theory Json
  imports Prelude
begin

text \<open>
  The JSON values the program exchanges: task and context files, worker reports, audit details.
  An object is the list of its members in order (a \<open>dict\<close> with text keys). \<open>JTime t\<close> is the text
  \<open>t.isoformat()\<close> of an instant, of which the program uses only that it determines the instant;
  a float is its exact rational value.
\<close>

datatype json =
    JNull
  | JBool bool
  | JInt int
  | JReal rat
  | JTime datetime
  | JStr string
  | JList "json list"
  | JObj "(string \<times> json) list"

type_synonym mapping = "(string \<times> json) list"

text \<open>The JSON forms \<open>to_dict\<close> builds from optional values and tuples of texts.\<close>

definition json_opt :: "('a \<Rightarrow> json) \<Rightarrow> 'a option \<Rightarrow> json" where
  "json_opt f v = (case v of None \<Rightarrow> JNull | Some a \<Rightarrow> f a)"

definition json_texts :: "string list \<Rightarrow> json" where
  "json_texts xs = JList (map JStr xs)"

text \<open>\<open>json.loads(json.dumps(value, sort_keys=True))\<close>: every object with its members by key.\<close>

primrec json_sorted :: "json \<Rightarrow> json" where
  "json_sorted JNull = JNull"
| "json_sorted (JBool b) = JBool b"
| "json_sorted (JInt i) = JInt i"
| "json_sorted (JReal r) = JReal r"
| "json_sorted (JTime t) = JTime t"
| "json_sorted (JStr s) = JStr s"
| "json_sorted (JList xs) = JList (map json_sorted xs)"
| "json_sorted (JObj m) = JObj (sort_key fst (map (map_prod id json_sorted) m))"

definition sort_keys :: "mapping \<Rightarrow> mapping" where
  "sort_keys m = sort_key fst (map (map_prod id json_sorted) m)"

lemma insort_key_map_prod:
  "insort_key fst (k, f v) (map (map_prod (\<lambda>k. k) f) xs)
     = map (map_prod (\<lambda>k. k) f) (insort_key fst (k, v) xs)"
  by (induction xs) auto

lemma sort_key_map_prod:
  "sort_key fst (map (map_prod (\<lambda>k. k) f) m) = map (map_prod (\<lambda>k. k) f) (sort_key fst m)"
  by (induction m) (auto simp: insort_key_map_prod)

lemma sort_key_fst_idem: "sort_key fst (sort_key fst m) = sort_key fst m"
  by (simp add: sort_key_id_if_sorted)

lemma json_sorted_idem [simp]: "json_sorted (json_sorted j) = json_sorted j"
proof (induction j)
  case (JObj m)
  have "json_sorted (json_sorted v) = json_sorted v" if "(k, v) \<in> set m" for k v
    using JObj that by (auto simp: snds.simps)
  then have "map (map_prod (\<lambda>k. k) json_sorted) (map (map_prod (\<lambda>k. k) json_sorted) m)
      = map (map_prod (\<lambda>k. k) json_sorted) m"
    by auto
  then show ?case
    by (simp add: id_def sort_key_map_prod [symmetric] sort_key_fst_idem del: map_map)
qed (auto simp: comp_def)

lemma sort_keys_idem [simp]: "sort_keys (sort_keys m) = sort_keys m"
  using json_sorted_idem[of "JObj m"] by (simp add: sort_keys_def)

lemma sort_keys_keys: "set (map fst (sort_keys m)) = set (map fst m)"
  by (auto simp: sort_keys_def image_image)

end
