(* ===== verification/Sql.thy ===== *)
theory Sql
  imports Tables Json
begin

text \<open>
  The part of SQLite the adapters of \<open>infrastructure/repositories.py\<close> use, and their shared base
  class \<open>_SqliteRepository\<close>: a table is the list of its rows in insertion order, a row maps column
  names to cells, and a statement is given by the columns its text names. A cell holds what the
  adapter binds; the ISO text of an instant and the JSON text of a sequence or mapping are cells of
  their own, determined by the value they encode.

  The locale \<open>row_codec\<close> is what one adapter's statements and converters must satisfy; it gives the
  repository contract by \<open>sublocale\<close>.
\<close>

section \<open>Rows and statements\<close>

datatype cell =
    CNull
  | CInt int
  | CReal rat
  | CText string
  | CIso datetime
  | CSeq "string list"
  | CMap mapping

type_synonym row = "string \<Rightarrow> cell"

text \<open>SQLite's comparison of two cells of one column: \<open>NULL\<close> first, then numbers, then text.\<close>

fun cell_rank :: "cell \<Rightarrow> nat \<times> rat \<times> string" where
  "cell_rank (CInt i) = (1, of_int i, [])"
| "cell_rank (CReal r) = (1, r, [])"
| "cell_rank (CIso t) = (2, of_int t, [])"
| "cell_rank (CText s) = (3, 0, s)"
| "cell_rank _ = (0, 0, [])"

text \<open>\<open>INSERT INTO t (insert_columns) VALUES (?, ...) ON CONFLICT(conflict_columns) DO UPDATE SET\<close>
  each of \<open>update_columns\<close> to \<open>excluded\<close>.\<close>

record upsert_sql =
  insert_columns :: "string list"
  conflict_columns :: "string list"
  update_columns :: "string list"

definition bind_row :: "string list \<Rightarrow> cell list \<Rightarrow> row" where
  "bind_row cols params = (\<lambda>c. case map_of (zip cols params) c of None \<Rightarrow> CNull | Some v \<Rightarrow> v)"

definition same_on :: "string list \<Rightarrow> row \<Rightarrow> row \<Rightarrow> bool" where
  "same_on cols r r' = (\<forall>c\<in>set cols. r c = r' c)"

definition sql_upsert :: "upsert_sql \<Rightarrow> cell list \<Rightarrow> row list \<Rightarrow> row list" where
  "sql_upsert q params t =
     (let new = bind_row (insert_columns q) params in
      if \<exists>r\<in>set t. same_on (conflict_columns q) r new
      then map (\<lambda>r. if same_on (conflict_columns q) r new
                    then (\<lambda>c. if c \<in> set (update_columns q) then new c else r c) else r) t
      else t @ [new])"

definition matches :: "(string \<times> cell) list \<Rightarrow> row \<Rightarrow> bool" where
  "matches conds r = (\<forall>(c, v)\<in>set conds. r c = v)"

definition sql_delete :: "(string \<times> cell) list \<Rightarrow> row list \<Rightarrow> bool \<times> row list" where
  "sql_delete conds t = (\<exists>r\<in>set t. matches conds r, filter (\<lambda>r. \<not> matches conds r) t)"

definition fetch_one :: "(row \<Rightarrow> exn + 'm) \<Rightarrow> (string \<times> cell) list \<Rightarrow> row list \<Rightarrow> exn + 'm option" where
  "fetch_one build conds t =
     (case find (matches conds) t of
        None \<Rightarrow> Inr None
      | Some r \<Rightarrow> bindE (build r) (\<lambda>m. Inr (Some m)))"

definition order_key :: "string list \<Rightarrow> row \<Rightarrow> (nat \<times> rat \<times> string) list" where
  "order_key cols r = map (\<lambda>c. cell_rank (r c)) cols"

definition fetch_all ::
  "(row \<Rightarrow> exn + 'm) \<Rightarrow> (string \<times> cell) list \<Rightarrow> string list \<Rightarrow> row list \<Rightarrow> exn + 'm list" where
  "fetch_all build conds order_by t =
     mapE build (sort_key (order_key order_by) (filter (matches conds) t))"

section \<open>One adapter\<close>

record 'm adapter =
  UPSERT :: upsert_sql
  PARAMS :: "'m \<Rightarrow> cell list"
  FROM_ROW :: "row \<Rightarrow> exn + 'm"
  KEY_COLUMNS :: "string list"
  ORDER_BY :: "string list"

definition repo_upsert :: "'m adapter \<Rightarrow> 'm \<Rightarrow> row list \<Rightarrow> row list" where
  "repo_upsert A m t = sql_upsert (UPSERT A) (PARAMS A m) t"

definition repo_get :: "'m adapter \<Rightarrow> cell list \<Rightarrow> row list \<Rightarrow> exn + 'm option" where
  "repo_get A k t = fetch_one (FROM_ROW A) (zip (KEY_COLUMNS A) k) t"

definition repo_list :: "'m adapter \<Rightarrow> row list \<Rightarrow> exn + 'm list" where
  "repo_list A t = fetch_all (FROM_ROW A) [] (ORDER_BY A) t"

definition repo_list_where :: "'m adapter \<Rightarrow> (string \<times> cell) list \<Rightarrow> row list \<Rightarrow> exn + 'm list" where
  "repo_list_where A conds t = fetch_all (FROM_ROW A) conds (ORDER_BY A) t"

definition repo_delete :: "'m adapter \<Rightarrow> cell list \<Rightarrow> row list \<Rightarrow> bool \<times> row list" where
  "repo_delete A k t = sql_delete (zip (KEY_COLUMNS A) k) t"

text \<open>The row a model is inserted as.\<close>

definition row_of :: "'m adapter \<Rightarrow> 'm \<Rightarrow> row" where
  "row_of A m = bind_row (insert_columns (UPSERT A)) (PARAMS A m)"

definition codec_represents ::
  "'m adapter \<Rightarrow> ('m \<Rightarrow> 'k) \<Rightarrow> ('m \<Rightarrow> bool) \<Rightarrow> row list \<Rightarrow> 'm list \<Rightarrow> bool" where
  "codec_represents A key valid t ms \<longleftrightarrow>
     list_all2 (\<lambda>r m. same_on (insert_columns (UPSERT A)) r (row_of A m) \<and> valid m) t ms
     \<and> distinct (map key ms)"

lemma same_on_refl [simp]: "same_on cols r r"
  by (simp add: same_on_def)

lemma matches_zip:
  "length k = length cols \<Longrightarrow> matches (zip cols k) r \<longleftrightarrow> map r cols = k"
proof (induction cols arbitrary: k)
  case (Cons c cols)
  then obtain v k' where "k = v # k'" by (cases k) auto
  with Cons show ?case by (auto simp: matches_def)
qed (auto simp: matches_def)

lemma same_on_iff_map: "same_on cols r r' \<longleftrightarrow> map r cols = map r' cols"
  by (simp add: same_on_def)

lemma find_list_all2:
  assumes "list_all2 R t ms" and "\<And>r m. R r m \<Longrightarrow> P r \<longleftrightarrow> Q m"
  shows "rel_option R (find P t) (find Q ms)"
  using assms(1) by (induction rule: list_all2_induct) (auto simp: assms(2))

lemma filter_list_all2:
  assumes "list_all2 R t ms" and "\<And>r m. R r m \<Longrightarrow> P r \<longleftrightarrow> Q m"
  shows "list_all2 R (filter P t) (filter Q ms)"
  using assms(1) by (induction rule: list_all2_induct) (auto simp: assms(2))

lemma insort_list_all2:
  assumes "list_all2 R t ms" and "R r m" and "\<And>r m. R r m \<Longrightarrow> f r = g m"
  shows "list_all2 R (insort_key f r t) (insort_key g m ms)"
  using assms(1,2) by (induction rule: list_all2_induct) (auto simp: assms(3))

lemma sort_list_all2:
  assumes "list_all2 R t ms" and "\<And>r m. R r m \<Longrightarrow> f r = g m"
  shows "list_all2 R (sort_key f t) (sort_key g ms)"
  using assms(1) by (induction rule: list_all2_induct) (auto simp: insort_list_all2 assms(2))

lemma mapE_list_all2: "list_all2 (\<lambda>r m. f r = Inr m) t ms \<Longrightarrow> mapE f t = Inr ms"
  by (induction rule: list_all2_induct) auto

locale row_codec =
  fixes A :: "'m adapter" and key :: "'m \<Rightarrow> 'k" and key_cells :: "'k \<Rightarrow> cell list"
    and valid :: "'m \<Rightarrow> bool"
  assumes round_trip: "valid m \<Longrightarrow> FROM_ROW A (row_of A m) = Inr m"
    and reads_inserted: "same_on (insert_columns (UPSERT A)) r r' \<Longrightarrow> FROM_ROW A r = FROM_ROW A r'"
    and no_column_forgotten:
      "set (insert_columns (UPSERT A)) = set (conflict_columns (UPSERT A)) \<union> set (update_columns (UPSERT A))"
    and key_columns: "KEY_COLUMNS A = conflict_columns (UPSERT A)"
    and order_columns: "set (ORDER_BY A) \<subseteq> set (insert_columns (UPSERT A))"
    and key_bound: "map (row_of A m) (KEY_COLUMNS A) = key_cells (key m)"
    and key_inject: "key_cells k = key_cells k' \<longleftrightarrow> k = k'"
    and key_length: "length (key_cells k) = length (KEY_COLUMNS A)"
begin

abbreviation row_rel :: "row \<Rightarrow> 'm \<Rightarrow> bool" where
  "row_rel r m \<equiv> same_on (insert_columns (UPSERT A)) r (row_of A m) \<and> valid m"

lemma rel_key: "row_rel r m \<Longrightarrow> map r (KEY_COLUMNS A) = key_cells (key m)"
  using no_column_forgotten unfolding key_bound[symmetric] key_columns by (auto simp: same_on_def)

lemma rel_matches: "row_rel r m \<Longrightarrow> matches (zip (KEY_COLUMNS A) (key_cells k)) r \<longleftrightarrow> key m = k"
  using rel_key[of r m] key_inject by (auto simp: matches_zip key_length)

lemma rel_conflict:
  "row_rel r m \<Longrightarrow> same_on (conflict_columns (UPSERT A)) r (row_of A m') \<longleftrightarrow> key m = key m'"
  using rel_key[of r m] key_bound[of m'] key_inject by (simp add: same_on_iff_map key_columns)

lemma rel_build: "row_rel r m \<Longrightarrow> FROM_ROW A r = Inr m"
  using reads_inserted round_trip by metis

lemma rel_order: "row_rel r m \<Longrightarrow> order_key (ORDER_BY A) r = order_key (ORDER_BY A) (row_of A m)"
  using order_columns by (auto simp: order_key_def same_on_def)

lemma rel_update:
  assumes "row_rel r m" "key m = key m'" "valid m'"
  shows "row_rel (\<lambda>c. if c \<in> set (update_columns (UPSERT A)) then row_of A m' c else r c) m'"
proof -
  have "r c = row_of A m' c" if "c \<in> set (conflict_columns (UPSERT A))" for c
    using rel_conflict[OF assms(1), of m'] assms(2) that by (simp add: same_on_def)
  then show ?thesis
    using assms(3) no_column_forgotten by (auto simp: same_on_def)
qed

lemma upsert_ok:
  assumes rep: "codec_represents A key valid t ms" and m: "valid m"
  shows "codec_represents A key valid (repo_upsert A m t) (put key m ms)"
proof -
  from rep have all: "list_all2 row_rel t ms" by (simp add: codec_represents_def)
  have hit: "(\<exists>r\<in>set t. same_on (conflict_columns (UPSERT A)) r (row_of A m)) \<longleftrightarrow> key m \<in> key ` set ms"
    using all by (induction rule: list_all2_induct) (auto simp: rel_conflict)
  have "list_all2 row_rel
      (map (\<lambda>r. if same_on (conflict_columns (UPSERT A)) r (row_of A m)
        then (\<lambda>c. if c \<in> set (update_columns (UPSERT A)) then row_of A m c else r c) else r) t)
      (map (\<lambda>x. if key x = key m then m else x) ms)"
    using all
  proof (induction rule: list_all2_induct)
    case (Cons r t x ms)
    then show ?case using rel_conflict[of r x m] rel_update[of r x m] m by auto
  qed simp
  moreover have "list_all2 row_rel (t @ [row_of A m]) (ms @ [m])"
    using all m by (auto intro: list_all2_appendI)
  ultimately have "list_all2 row_rel (repo_upsert A m t) (put key m ms)"
    using hit by (simp add: repo_upsert_def sql_upsert_def put_def row_of_def[symmetric] Let_def)
  with rep show ?thesis by (simp add: codec_represents_def put_distinct)
qed

lemma get_ok:
  assumes "codec_represents A key valid t ms"
  shows "repo_get A (key_cells k) t = Inr (lookup key k ms)"
proof -
  have "list_all2 row_rel t ms" using assms by (simp add: codec_represents_def)
  then have "rel_option row_rel (find (matches (zip (KEY_COLUMNS A) (key_cells k))) t)
      (find (\<lambda>m. key m = k) ms)"
    by (rule find_list_all2) (simp add: rel_matches)
  then show ?thesis
    by (cases "find (matches (zip (KEY_COLUMNS A) (key_cells k))) t"; cases "find (\<lambda>m. key m = k) ms")
      (auto simp: repo_get_def fetch_one_def lookup_def rel_build)
qed

lemma fetch_ok:
  assumes "codec_represents A key valid t ms" and "\<And>r m. row_rel r m \<Longrightarrow> matches conds r \<longleftrightarrow> P m"
  shows "fetch_all (FROM_ROW A) conds (ORDER_BY A) t
    = Inr (sort_key (\<lambda>m. order_key (ORDER_BY A) (row_of A m)) (filter P ms))"
proof -
  have "list_all2 row_rel t ms" using assms(1) by (simp add: codec_represents_def)
  then have "list_all2 row_rel (filter (matches conds) t) (filter P ms)"
    by (rule filter_list_all2) (simp add: assms(2))
  then have "list_all2 row_rel (sort_key (order_key (ORDER_BY A)) (filter (matches conds) t))
      (sort_key (\<lambda>m. order_key (ORDER_BY A) (row_of A m)) (filter P ms))"
    by (rule sort_list_all2) (rule rel_order)
  then show ?thesis
    unfolding fetch_all_def by (intro mapE_list_all2) (auto elim!: list_all2_mono intro: rel_build)
qed

lemma list_ok:
  "codec_represents A key valid t ms \<Longrightarrow>
     repo_list A t = Inr (sort_key (\<lambda>m. order_key (ORDER_BY A) (row_of A m)) ms)"
  using fetch_ok[of t ms "[]" "\<lambda>_. True"] by (simp add: repo_list_def matches_def)

lemma delete_ok:
  assumes "codec_represents A key valid t ms"
  shows "codec_represents A key valid (snd (repo_delete A (key_cells k) t)) (remove key k ms)"
    and "fst (repo_delete A (key_cells k) t) \<longleftrightarrow> lookup key k ms \<noteq> None"
proof -
  have all: "list_all2 row_rel t ms" using assms by (simp add: codec_represents_def)
  then have "list_all2 row_rel (filter (\<lambda>r. \<not> matches (zip (KEY_COLUMNS A) (key_cells k)) r) t)
      (filter (\<lambda>m. key m \<noteq> k) ms)"
    by (rule filter_list_all2) (simp add: rel_matches)
  then show "codec_represents A key valid (snd (repo_delete A (key_cells k) t)) (remove key k ms)"
    using assms remove_distinct[of key ms k]
    by (simp add: codec_represents_def repo_delete_def sql_delete_def remove_def)
  have "(\<exists>r\<in>set t. matches (zip (KEY_COLUMNS A) (key_cells k)) r) \<longleftrightarrow> (\<exists>m\<in>set ms. key m = k)"
    using all by (induction rule: list_all2_induct) (auto simp: rel_matches)
  then show "fst (repo_delete A (key_cells k) t) \<longleftrightarrow> lookup key k ms \<noteq> None"
    by (auto simp: repo_delete_def sql_delete_def lookup_None)
qed

end

sublocale row_codec \<subseteq> repository key valid "codec_represents A key valid"
  "\<lambda>k. repo_get A (key_cells k)" "repo_upsert A" "repo_list A" "\<lambda>k. repo_delete A (key_cells k)"
  "\<lambda>m. order_key (ORDER_BY A) (row_of A m)"
  by unfold_locales (auto simp: upsert_ok get_ok list_ok delete_ok, simp add: codec_represents_def)

end
