(* ===== verification/Enums.thy ===== *)
theory Enums
  imports Prelude
begin

text \<open>
  The domain enumerations (\<open>domain/enums.py\<close>). A \<open>StrEnum\<close> is a datatype with its members in
  declaration order, the text value of a member and the look-up \<open>Enum(text)\<close>, which raises
  \<open>ValueError\<close> on a text no member has. The locale \<open>str_enum\<close> states what the program relies on
  when it stores a member as its text and reads it back; every enumeration interprets it.
\<close>

text \<open>\<open>_coerce_enum(text, Enum, field)\<close>: the member whose value is the text.\<close>

definition coerce_enum :: "'a list \<Rightarrow> ('a \<Rightarrow> string) \<Rightarrow> string \<Rightarrow> exn + 'a" where
  "coerce_enum ms value s =
     (case find (\<lambda>m. value m = s) ms of None \<Rightarrow> Inl ValueError | Some m \<Rightarrow> Inr m)"

locale str_enum =
  fixes members :: "'a list" and enum_value :: "'a \<Rightarrow> string"
  assumes complete: "m \<in> set members"
    and distinct_values: "distinct (map enum_value members)"
begin

lemma value_inject: "enum_value m = enum_value n \<longleftrightarrow> m = n"
  using complete distinct_values by (metis distinct_map inj_on_eq_iff)

lemma coerce_value: "coerce_enum members enum_value (enum_value m) = Inr m"
proof -
  have "find (\<lambda>n. enum_value n = enum_value m) members = Some m"
    by (rule find_unique) (simp_all add: complete value_inject)
  then show ?thesis by (simp add: coerce_enum_def)
qed

lemma coerce_sound: "coerce_enum members enum_value s = Inr m \<Longrightarrow> enum_value m = s"
  by (auto simp: coerce_enum_def find_Some_iff split: option.splits)

lemma coerce_rejects: "s \<notin> range enum_value \<Longrightarrow> coerce_enum members enum_value s = Inl ValueError"
  by (auto simp: coerce_enum_def find_Some_iff split: option.splits)

end

datatype phase =
    Phase_FOUNDATION
  | Phase_CONTEXT
  | Phase_ARCHITECTURE
  | Phase_PLUGINS
  | Phase_CLINE
  | Phase_LOOP
  | Phase_CONTROL
  | Phase_EVOLUTION
  | Phase_AI
  | Phase_MONITOR
  | Phase_EXPORT
  | Phase_TEST
  | Phase_FINAL

primrec phase_value :: "phase \<Rightarrow> string" where
  "phase_value Phase_FOUNDATION = ''FOUNDATION''"
| "phase_value Phase_CONTEXT = ''CONTEXT''"
| "phase_value Phase_ARCHITECTURE = ''ARCHITECTURE''"
| "phase_value Phase_PLUGINS = ''PLUGINS''"
| "phase_value Phase_CLINE = ''CLINE''"
| "phase_value Phase_LOOP = ''LOOP''"
| "phase_value Phase_CONTROL = ''CONTROL''"
| "phase_value Phase_EVOLUTION = ''EVOLUTION''"
| "phase_value Phase_AI = ''AI''"
| "phase_value Phase_MONITOR = ''MONITOR''"
| "phase_value Phase_EXPORT = ''EXPORT''"
| "phase_value Phase_TEST = ''TEST''"
| "phase_value Phase_FINAL = ''FINAL''"

definition phase_members :: "phase list" where
  "phase_members =
     [Phase_FOUNDATION, Phase_CONTEXT, Phase_ARCHITECTURE,
      Phase_PLUGINS, Phase_CLINE, Phase_LOOP,
      Phase_CONTROL, Phase_EVOLUTION, Phase_AI,
      Phase_MONITOR, Phase_EXPORT, Phase_TEST,
      Phase_FINAL]"

interpretation phase_enum: str_enum phase_members phase_value
proof unfold_locales
  show "m \<in> set phase_members" for m by (cases m) (simp_all add: phase_members_def)
  show "distinct (map phase_value phase_members)" by (simp add: phase_members_def)
qed

declare phase_enum.coerce_value [simp]

datatype mode =
    Mode_MANUAL
  | Mode_SUPERVISED
  | Mode_AUTO

primrec mode_value :: "mode \<Rightarrow> string" where
  "mode_value Mode_MANUAL = ''MANUAL''"
| "mode_value Mode_SUPERVISED = ''SUPERVISED''"
| "mode_value Mode_AUTO = ''AUTO''"

definition mode_members :: "mode list" where
  "mode_members =
     [Mode_MANUAL, Mode_SUPERVISED, Mode_AUTO]"

interpretation mode_enum: str_enum mode_members mode_value
proof unfold_locales
  show "m \<in> set mode_members" for m by (cases m) (simp_all add: mode_members_def)
  show "distinct (map mode_value mode_members)" by (simp add: mode_members_def)
qed

declare mode_enum.coerce_value [simp]

datatype risk_level =
    Level_LOW
  | Level_MEDIUM
  | Level_HIGH

primrec risk_level_value :: "risk_level \<Rightarrow> string" where
  "risk_level_value Level_LOW = ''LOW''"
| "risk_level_value Level_MEDIUM = ''MEDIUM''"
| "risk_level_value Level_HIGH = ''HIGH''"

definition risk_level_members :: "risk_level list" where
  "risk_level_members =
     [Level_LOW, Level_MEDIUM, Level_HIGH]"

interpretation risk_level_enum: str_enum risk_level_members risk_level_value
proof unfold_locales
  show "m \<in> set risk_level_members" for m by (cases m) (simp_all add: risk_level_members_def)
  show "distinct (map risk_level_value risk_level_members)" by (simp add: risk_level_members_def)
qed

declare risk_level_enum.coerce_value [simp]

datatype severity =
    Sev_LOW
  | Sev_MEDIUM
  | Sev_HIGH
  | Sev_CRITICAL

primrec severity_value :: "severity \<Rightarrow> string" where
  "severity_value Sev_LOW = ''LOW''"
| "severity_value Sev_MEDIUM = ''MEDIUM''"
| "severity_value Sev_HIGH = ''HIGH''"
| "severity_value Sev_CRITICAL = ''CRITICAL''"

definition severity_members :: "severity list" where
  "severity_members =
     [Sev_LOW, Sev_MEDIUM, Sev_HIGH,
      Sev_CRITICAL]"

interpretation severity_enum: str_enum severity_members severity_value
proof unfold_locales
  show "m \<in> set severity_members" for m by (cases m) (simp_all add: severity_members_def)
  show "distinct (map severity_value severity_members)" by (simp add: severity_members_def)
qed

declare severity_enum.coerce_value [simp]

datatype step_state =
    Step_PENDING
  | Step_READY
  | Step_WAITING_APPROVAL
  | Step_DISPATCHED
  | Step_CLINE_WORKING
  | Step_REPORT_RECEIVED
  | Step_REVIEWING
  | Step_REVISE
  | Step_BLOCKED
  | Step_CONFLICT
  | Step_FAILED
  | Step_VERIFIED
  | Step_ABORTED

primrec step_state_value :: "step_state \<Rightarrow> string" where
  "step_state_value Step_PENDING = ''PENDING''"
| "step_state_value Step_READY = ''READY''"
| "step_state_value Step_WAITING_APPROVAL = ''WAITING_APPROVAL''"
| "step_state_value Step_DISPATCHED = ''DISPATCHED''"
| "step_state_value Step_CLINE_WORKING = ''CLINE_WORKING''"
| "step_state_value Step_REPORT_RECEIVED = ''REPORT_RECEIVED''"
| "step_state_value Step_REVIEWING = ''REVIEWING''"
| "step_state_value Step_REVISE = ''REVISE''"
| "step_state_value Step_BLOCKED = ''BLOCKED''"
| "step_state_value Step_CONFLICT = ''CONFLICT''"
| "step_state_value Step_FAILED = ''FAILED''"
| "step_state_value Step_VERIFIED = ''VERIFIED''"
| "step_state_value Step_ABORTED = ''ABORTED''"

definition step_state_members :: "step_state list" where
  "step_state_members =
     [Step_PENDING, Step_READY, Step_WAITING_APPROVAL,
      Step_DISPATCHED, Step_CLINE_WORKING, Step_REPORT_RECEIVED,
      Step_REVIEWING, Step_REVISE, Step_BLOCKED,
      Step_CONFLICT, Step_FAILED, Step_VERIFIED,
      Step_ABORTED]"

interpretation step_state_enum: str_enum step_state_members step_state_value
proof unfold_locales
  show "m \<in> set step_state_members" for m by (cases m) (simp_all add: step_state_members_def)
  show "distinct (map step_state_value step_state_members)" by (simp add: step_state_members_def)
qed

declare step_state_enum.coerce_value [simp]

datatype step_event =
    Ev_PREPARE
  | Ev_REQUEST_APPROVAL
  | Ev_APPROVE
  | Ev_REJECT
  | Ev_DISPATCH
  | Ev_CLINE_START
  | Ev_RECEIVE_REPORT
  | Ev_FAIL
  | Ev_BLOCK
  | Ev_ABORT
  | Ev_START_REVIEW
  | Ev_VERIFY
  | Ev_REQUEST_REVISE
  | Ev_RAISE_CONFLICT
  | Ev_RETRY
  | Ev_UNBLOCK
  | Ev_RESOLVE

primrec step_event_value :: "step_event \<Rightarrow> string" where
  "step_event_value Ev_PREPARE = ''PREPARE''"
| "step_event_value Ev_REQUEST_APPROVAL = ''REQUEST_APPROVAL''"
| "step_event_value Ev_APPROVE = ''APPROVE''"
| "step_event_value Ev_REJECT = ''REJECT''"
| "step_event_value Ev_DISPATCH = ''DISPATCH''"
| "step_event_value Ev_CLINE_START = ''CLINE_START''"
| "step_event_value Ev_RECEIVE_REPORT = ''RECEIVE_REPORT''"
| "step_event_value Ev_FAIL = ''FAIL''"
| "step_event_value Ev_BLOCK = ''BLOCK''"
| "step_event_value Ev_ABORT = ''ABORT''"
| "step_event_value Ev_START_REVIEW = ''START_REVIEW''"
| "step_event_value Ev_VERIFY = ''VERIFY''"
| "step_event_value Ev_REQUEST_REVISE = ''REQUEST_REVISE''"
| "step_event_value Ev_RAISE_CONFLICT = ''RAISE_CONFLICT''"
| "step_event_value Ev_RETRY = ''RETRY''"
| "step_event_value Ev_UNBLOCK = ''UNBLOCK''"
| "step_event_value Ev_RESOLVE = ''RESOLVE''"

definition step_event_members :: "step_event list" where
  "step_event_members =
     [Ev_PREPARE, Ev_REQUEST_APPROVAL, Ev_APPROVE,
      Ev_REJECT, Ev_DISPATCH, Ev_CLINE_START,
      Ev_RECEIVE_REPORT, Ev_FAIL, Ev_BLOCK,
      Ev_ABORT, Ev_START_REVIEW, Ev_VERIFY,
      Ev_REQUEST_REVISE, Ev_RAISE_CONFLICT, Ev_RETRY,
      Ev_UNBLOCK, Ev_RESOLVE]"

interpretation step_event_enum: str_enum step_event_members step_event_value
proof unfold_locales
  show "m \<in> set step_event_members" for m by (cases m) (simp_all add: step_event_members_def)
  show "distinct (map step_event_value step_event_members)" by (simp add: step_event_members_def)
qed

declare step_event_enum.coerce_value [simp]

datatype task_state =
    Task_CREATED
  | Task_DISPATCHED
  | Task_REPORTED
  | Task_FAILED

primrec task_state_value :: "task_state \<Rightarrow> string" where
  "task_state_value Task_CREATED = ''CREATED''"
| "task_state_value Task_DISPATCHED = ''DISPATCHED''"
| "task_state_value Task_REPORTED = ''REPORTED''"
| "task_state_value Task_FAILED = ''FAILED''"

definition task_state_members :: "task_state list" where
  "task_state_members =
     [Task_CREATED, Task_DISPATCHED, Task_REPORTED,
      Task_FAILED]"

interpretation task_state_enum: str_enum task_state_members task_state_value
proof unfold_locales
  show "m \<in> set task_state_members" for m by (cases m) (simp_all add: task_state_members_def)
  show "distinct (map task_state_value task_state_members)" by (simp add: task_state_members_def)
qed

declare task_state_enum.coerce_value [simp]

datatype task_event =
    TaskEv_DISPATCH
  | TaskEv_RECEIVE_REPORT
  | TaskEv_FAIL

primrec task_event_value :: "task_event \<Rightarrow> string" where
  "task_event_value TaskEv_DISPATCH = ''DISPATCH''"
| "task_event_value TaskEv_RECEIVE_REPORT = ''RECEIVE_REPORT''"
| "task_event_value TaskEv_FAIL = ''FAIL''"

definition task_event_members :: "task_event list" where
  "task_event_members =
     [TaskEv_DISPATCH, TaskEv_RECEIVE_REPORT, TaskEv_FAIL]"

interpretation task_event_enum: str_enum task_event_members task_event_value
proof unfold_locales
  show "m \<in> set task_event_members" for m by (cases m) (simp_all add: task_event_members_def)
  show "distinct (map task_event_value task_event_members)" by (simp add: task_event_members_def)
qed

declare task_event_enum.coerce_value [simp]

datatype report_status =
    Report_DONE
  | Report_REVISE
  | Report_BLOCKED
  | Report_FAILED

primrec report_status_value :: "report_status \<Rightarrow> string" where
  "report_status_value Report_DONE = ''DONE''"
| "report_status_value Report_REVISE = ''REVISE''"
| "report_status_value Report_BLOCKED = ''BLOCKED''"
| "report_status_value Report_FAILED = ''FAILED''"

definition report_status_members :: "report_status list" where
  "report_status_members =
     [Report_DONE, Report_REVISE, Report_BLOCKED,
      Report_FAILED]"

interpretation report_status_enum: str_enum report_status_members report_status_value
proof unfold_locales
  show "m \<in> set report_status_members" for m by (cases m) (simp_all add: report_status_members_def)
  show "distinct (map report_status_value report_status_members)" by (simp add: report_status_members_def)
qed

declare report_status_enum.coerce_value [simp]

datatype acr_status =
    Acr_PROPOSED
  | Acr_APPROVED
  | Acr_REJECTED
  | Acr_APPLIED

primrec acr_status_value :: "acr_status \<Rightarrow> string" where
  "acr_status_value Acr_PROPOSED = ''PROPOSED''"
| "acr_status_value Acr_APPROVED = ''APPROVED''"
| "acr_status_value Acr_REJECTED = ''REJECTED''"
| "acr_status_value Acr_APPLIED = ''APPLIED''"

definition acr_status_members :: "acr_status list" where
  "acr_status_members =
     [Acr_PROPOSED, Acr_APPROVED, Acr_REJECTED,
      Acr_APPLIED]"

interpretation acr_status_enum: str_enum acr_status_members acr_status_value
proof unfold_locales
  show "m \<in> set acr_status_members" for m by (cases m) (simp_all add: acr_status_members_def)
  show "distinct (map acr_status_value acr_status_members)" by (simp add: acr_status_members_def)
qed

declare acr_status_enum.coerce_value [simp]

datatype adr_status =
    Adr_PROPOSED
  | Adr_ACCEPTED
  | Adr_REJECTED
  | Adr_DEPRECATED
  | Adr_SUPERSEDED

primrec adr_status_value :: "adr_status \<Rightarrow> string" where
  "adr_status_value Adr_PROPOSED = ''PROPOSED''"
| "adr_status_value Adr_ACCEPTED = ''ACCEPTED''"
| "adr_status_value Adr_REJECTED = ''REJECTED''"
| "adr_status_value Adr_DEPRECATED = ''DEPRECATED''"
| "adr_status_value Adr_SUPERSEDED = ''SUPERSEDED''"

definition adr_status_members :: "adr_status list" where
  "adr_status_members =
     [Adr_PROPOSED, Adr_ACCEPTED, Adr_REJECTED,
      Adr_DEPRECATED, Adr_SUPERSEDED]"

interpretation adr_status_enum: str_enum adr_status_members adr_status_value
proof unfold_locales
  show "m \<in> set adr_status_members" for m by (cases m) (simp_all add: adr_status_members_def)
  show "distinct (map adr_status_value adr_status_members)" by (simp add: adr_status_members_def)
qed

declare adr_status_enum.coerce_value [simp]

datatype risk_status =
    Risk_OPEN
  | Risk_MITIGATED
  | Risk_ACCEPTED
  | Risk_CLOSED

primrec risk_status_value :: "risk_status \<Rightarrow> string" where
  "risk_status_value Risk_OPEN = ''OPEN''"
| "risk_status_value Risk_MITIGATED = ''MITIGATED''"
| "risk_status_value Risk_ACCEPTED = ''ACCEPTED''"
| "risk_status_value Risk_CLOSED = ''CLOSED''"

definition risk_status_members :: "risk_status list" where
  "risk_status_members =
     [Risk_OPEN, Risk_MITIGATED, Risk_ACCEPTED,
      Risk_CLOSED]"

interpretation risk_status_enum: str_enum risk_status_members risk_status_value
proof unfold_locales
  show "m \<in> set risk_status_members" for m by (cases m) (simp_all add: risk_status_members_def)
  show "distinct (map risk_status_value risk_status_members)" by (simp add: risk_status_members_def)
qed

declare risk_status_enum.coerce_value [simp]

datatype decision_status =
    Decision_PENDING
  | Decision_ACCEPTED
  | Decision_REJECTED
  | Decision_ABSTAIN
  | Decision_ERROR

primrec decision_status_value :: "decision_status \<Rightarrow> string" where
  "decision_status_value Decision_PENDING = ''PENDING''"
| "decision_status_value Decision_ACCEPTED = ''ACCEPTED''"
| "decision_status_value Decision_REJECTED = ''REJECTED''"
| "decision_status_value Decision_ABSTAIN = ''ABSTAIN''"
| "decision_status_value Decision_ERROR = ''ERROR''"

definition decision_status_members :: "decision_status list" where
  "decision_status_members =
     [Decision_PENDING, Decision_ACCEPTED, Decision_REJECTED,
      Decision_ABSTAIN, Decision_ERROR]"

interpretation decision_status_enum: str_enum decision_status_members decision_status_value
proof unfold_locales
  show "m \<in> set decision_status_members" for m by (cases m) (simp_all add: decision_status_members_def)
  show "distinct (map decision_status_value decision_status_members)" by (simp add: decision_status_members_def)
qed

declare decision_status_enum.coerce_value [simp]

end
