(* ===== verification/Models.thy ===== *)
theory Models
  imports Enums Json
begin

text \<open>
  The domain models of \<open>domain/models.py\<close>. Each frozen dataclass is a record with the fields in
  the source's order; \<open>mk_<model>\<close> is its construction, i.e. the checks of \<open>__post_init__\<close> in
  order, and \<open>replace(obj, f=v)\<close> is the construction of the updated record. Type checks are the
  HOL types of the fields; what remains are the checks on values, each raising \<open>ValueError\<close>.
\<close>

section \<open>Field checks\<close>

definition require_text :: "string \<Rightarrow> exn + unit" where
  "require_text s = requireE (\<not> is_blank s) ValueError"

definition require_int :: "int option \<Rightarrow> int option \<Rightarrow> int \<Rightarrow> exn + unit" where
  "require_int minimum maximum v =
     bindE (case minimum of None \<Rightarrow> Inr () | Some m \<Rightarrow> requireE (m \<le> v) ValueError) (\<lambda>_.
     (case maximum of None \<Rightarrow> Inr () | Some m \<Rightarrow> requireE (v \<le> m) ValueError))"

definition require_score :: "rat \<Rightarrow> exn + unit" where
  "require_score v = requireE (0 \<le> v \<and> v \<le> 1) ValueError"

definition require_optional :: "('a \<Rightarrow> exn + unit) \<Rightarrow> 'a option \<Rightarrow> exn + unit" where
  "require_optional check v = (case v of None \<Rightarrow> Inr () | Some a \<Rightarrow> check a)"

definition require_texts :: "string list \<Rightarrow> exn + unit" where
  "require_texts xs = bindE (mapE require_text xs) (\<lambda>_. Inr ())"

lemma require_text_iff [simp]: "require_text s = Inr u \<longleftrightarrow> \<not> is_blank s"
  by (simp add: require_text_def)

lemma require_int_iff [simp]:
  "require_int minimum maximum v = Inr u \<longleftrightarrow>
     (\<forall>m. minimum = Some m \<longrightarrow> m \<le> v) \<and> (\<forall>m. maximum = Some m \<longrightarrow> v \<le> m)"
  by (cases minimum; cases maximum) (auto simp: require_int_def)

lemma require_score_iff [simp]: "require_score v = Inr u \<longleftrightarrow> 0 \<le> v \<and> v \<le> 1"
  by (simp add: require_score_def)

lemma require_optional_iff [simp]:
  "require_optional check v = Inr u \<longleftrightarrow> (\<forall>a. v = Some a \<longrightarrow> check a = Inr ())"
  by (cases v) (auto simp: require_optional_def)

lemma require_texts_iff [simp]: "require_texts xs = Inr u \<longleftrightarrow> (\<forall>x\<in>set xs. \<not> is_blank x)"
  by (induction xs) (auto simp: require_texts_def)

section \<open>Project\<close>

record project =
  project_name :: string
  project_plan_version :: string
  project_plan_hash :: string
  project_mode :: mode
  project_paused :: bool
  project_current_step_no_snapshot :: "int option"
  project_created_at :: datetime
  project_updated_at :: datetime

definition mk_project :: "project \<Rightarrow> exn + project" where
  "mk_project p =
     bindE (require_text (project_name p)) (\<lambda>_.
     bindE (require_text (project_plan_version p)) (\<lambda>_.
     bindE (require_optional (require_int (Some 1) None) (project_current_step_no_snapshot p)) (\<lambda>_.
     Inr p)))"

definition project_to_dict :: "project \<Rightarrow> json" where
  "project_to_dict p = JObj
     [(''name'', JStr (project_name p)),
      (''plan_version'', JStr (project_plan_version p)),
      (''plan_hash'', JStr (project_plan_hash p)),
      (''mode'', JStr (mode_value (project_mode p))),
      (''paused'', JBool (project_paused p)),
      (''current_step_no_snapshot'', json_opt JInt (project_current_step_no_snapshot p)),
      (''created_at'', JTime (project_created_at p)),
      (''updated_at'', JTime (project_updated_at p))]"

section \<open>Step\<close>

record step =
  step_no :: int
  step_phase :: phase
  step_title :: string
  step_state :: step_state
  step_description :: string
  step_attempt :: int
  step_max_attempts :: int
  step_risk :: risk_level
  step_requires_human :: bool
  step_created_at :: datetime
  step_started_at :: "datetime option"
  step_finished_at :: "datetime option"
  step_verified_at :: "datetime option"
  step_last_update_at :: "datetime option"

definition mk_step :: "step \<Rightarrow> exn + step" where
  "mk_step s =
     bindE (require_int (Some 1) None (step_no s)) (\<lambda>_.
     bindE (require_text (step_title s)) (\<lambda>_.
     bindE (require_int (Some 0) None (step_attempt s)) (\<lambda>_.
     bindE (require_int (Some 1) None (step_max_attempts s)) (\<lambda>_.
     if step_attempt s > step_max_attempts s then Inl ValueError
     else Inr s))))"

definition can_retry :: "step \<Rightarrow> bool" where
  "can_retry s = (step_attempt s < step_max_attempts s)"

definition step_to_dict :: "step \<Rightarrow> json" where
  "step_to_dict s = JObj
     [(''step_no'', JInt (step_no s)),
      (''phase'', JStr (phase_value (step_phase s))),
      (''title'', JStr (step_title s)),
      (''state'', JStr (step_state_value (step_state s))),
      (''description'', JStr (step_description s)),
      (''attempt'', JInt (step_attempt s)),
      (''max_attempts'', JInt (step_max_attempts s)),
      (''risk'', JStr (risk_level_value (step_risk s))),
      (''requires_human'', JBool (step_requires_human s)),
      (''created_at'', JTime (step_created_at s)),
      (''started_at'', json_opt JTime (step_started_at s)),
      (''finished_at'', json_opt JTime (step_finished_at s)),
      (''verified_at'', json_opt JTime (step_verified_at s)),
      (''last_update_at'', json_opt JTime (step_last_update_at s))]"

section \<open>Task\<close>

record task =
  task_step_no :: int
  task_phase :: phase
  task_title :: string
  task_description :: string
  task_risk :: risk_level
  task_attempt :: int
  task_max_attempts :: int
  task_state :: task_state
  task_context_file :: "string option"
  task_instructions :: mapping
  task_report_schema :: mapping
  task_report_status :: "report_status option"
  task_created_at :: datetime

definition mk_task :: "task \<Rightarrow> exn + task" where
  "mk_task t =
     bindE (require_int (Some 1) None (task_step_no t)) (\<lambda>_.
     bindE (require_text (task_title t)) (\<lambda>_.
     bindE (require_int (Some 1) None (task_attempt t)) (\<lambda>_.
     bindE (require_int (Some 1) None (task_max_attempts t)) (\<lambda>_.
     if task_attempt t > task_max_attempts t then Inl ValueError
     else Inr t))))"

section \<open>ArchitectureVersion\<close>

record architecture_version =
  av_version :: string
  av_baseline :: string
  av_rules :: "string list"
  av_superseded_by :: "string option"
  av_is_current :: bool
  av_created_at :: datetime

definition mk_architecture_version :: "architecture_version \<Rightarrow> exn + architecture_version" where
  "mk_architecture_version v =
     bindE (require_text (av_version v)) (\<lambda>_.
     bindE (case av_superseded_by v of
              None \<Rightarrow> Inr ()
            | Some t \<Rightarrow> bindE (require_text t) (\<lambda>_. requireE (\<not> av_is_current v) ValueError)) (\<lambda>_.
     Inr v))"

definition architecture_version_to_dict :: "architecture_version \<Rightarrow> json" where
  "architecture_version_to_dict v = JObj
     [(''version'', JStr (av_version v)),
      (''baseline'', JStr (av_baseline v)),
      (''rules'', json_texts (av_rules v)),
      (''superseded_by'', json_opt JStr (av_superseded_by v)),
      (''is_current'', JBool (av_is_current v)),
      (''created_at'', JTime (av_created_at v))]"

section \<open>ArchitectureChangeRequest\<close>

record change_request =
  acr_request_id :: string
  acr_title :: string
  acr_rationale :: string
  acr_source_version :: string
  acr_target_version :: string
  acr_rule_ids :: "string list"
  acr_adr_id :: string
  acr_roadmap_impact :: "string list"
  acr_status :: acr_status
  acr_created_at :: datetime
  acr_approved_by :: "string option"
  acr_approved_at :: "datetime option"
  acr_applied_at :: "datetime option"

definition mk_change_request :: "change_request \<Rightarrow> exn + change_request" where
  "mk_change_request r =
     bindE (require_texts [acr_request_id r, acr_title r, acr_rationale r, acr_source_version r,
       acr_target_version r, acr_adr_id r]) (\<lambda>_.
     bindE (requireE (acr_rule_ids r \<noteq> []) ValueError) (\<lambda>_.
     bindE (require_texts (acr_rule_ids r)) (\<lambda>_.
     bindE (require_texts (acr_roadmap_impact r)) (\<lambda>_.
     bindE (requireE (acr_source_version r \<noteq> acr_target_version r) ValueError) (\<lambda>_.
     bindE (require_optional require_text (acr_approved_by r)) (\<lambda>_.
     bindE (if acr_status r = Acr_APPROVED \<or> acr_status r = Acr_APPLIED
            then requireE (acr_approved_by r \<noteq> None \<and> acr_approved_at r \<noteq> None) ValueError
            else requireE (acr_approved_by r = None \<and> acr_approved_at r = None) ValueError) (\<lambda>_.
     bindE (if acr_status r = Acr_APPLIED
            then requireE (acr_applied_at r \<noteq> None) ValueError
            else requireE (acr_applied_at r = None) ValueError) (\<lambda>_.
     Inr r))))))))"

definition acr_is_terminal :: "change_request \<Rightarrow> bool" where
  "acr_is_terminal r = (acr_status r \<in> {Acr_REJECTED, Acr_APPLIED})"

section \<open>ADR\<close>

record adr =
  adr_id :: string
  adr_title :: string
  adr_status :: adr_status
  adr_context :: string
  adr_decision :: string
  adr_consequences :: "string list"
  adr_version :: int
  adr_superseded_by :: "string option"
  adr_related :: "string list"
  adr_created_at :: datetime
  adr_updated_at :: "datetime option"

definition mk_adr :: "adr \<Rightarrow> exn + adr" where
  "mk_adr a =
     bindE (require_text (adr_id a)) (\<lambda>_.
     bindE (require_text (adr_title a)) (\<lambda>_.
     bindE (require_int (Some 1) None (adr_version a)) (\<lambda>_.
     bindE (require_optional require_text (adr_superseded_by a)) (\<lambda>_.
     bindE (requireE (\<not> (adr_status a = Adr_SUPERSEDED \<and> adr_superseded_by a = None)) ValueError) (\<lambda>_.
     Inr a)))))"

definition adr_to_dict :: "adr \<Rightarrow> json" where
  "adr_to_dict a = JObj
     [(''id'', JStr (adr_id a)),
      (''title'', JStr (adr_title a)),
      (''status'', JStr (adr_status_value (adr_status a))),
      (''context'', JStr (adr_context a)),
      (''decision'', JStr (adr_decision a)),
      (''consequences'', json_texts (adr_consequences a)),
      (''version'', JInt (adr_version a)),
      (''superseded_by'', json_opt JStr (adr_superseded_by a)),
      (''related'', json_texts (adr_related a)),
      (''created_at'', JTime (adr_created_at a)),
      (''updated_at'', json_opt JTime (adr_updated_at a))]"

section \<open>Risk\<close>

record risk =
  risk_id :: string
  risk_description :: string
  risk_severity :: severity
  risk_probability :: rat
  risk_impact :: severity
  risk_owner :: string
  risk_mitigation :: string
  risk_status :: risk_status
  risk_created_at :: datetime
  risk_updated_at :: "datetime option"

definition mk_risk :: "risk \<Rightarrow> exn + risk" where
  "mk_risk r =
     bindE (require_text (risk_id r)) (\<lambda>_.
     bindE (require_text (risk_description r)) (\<lambda>_.
     bindE (require_score (risk_probability r)) (\<lambda>_.
     Inr r)))"

definition risk_to_dict :: "risk \<Rightarrow> json" where
  "risk_to_dict r = JObj
     [(''id'', JStr (risk_id r)),
      (''description'', JStr (risk_description r)),
      (''severity'', JStr (severity_value (risk_severity r))),
      (''probability'', JReal (risk_probability r)),
      (''impact'', JStr (severity_value (risk_impact r))),
      (''owner'', JStr (risk_owner r)),
      (''mitigation'', JStr (risk_mitigation r)),
      (''status'', JStr (risk_status_value (risk_status r))),
      (''created_at'', JTime (risk_created_at r)),
      (''updated_at'', json_opt JTime (risk_updated_at r))]"

section \<open>Finding and Decision\<close>

record finding =
  finding_id :: string
  finding_source :: string
  finding_claim :: string
  finding_evidence :: "string list"
  finding_confidence :: rat
  finding_severity :: severity
  finding_step_no :: "int option"
  finding_created_at :: datetime

definition mk_finding :: "finding \<Rightarrow> exn + finding" where
  "mk_finding f =
     bindE (require_text (finding_id f)) (\<lambda>_.
     bindE (require_text (finding_source f)) (\<lambda>_.
     bindE (require_text (finding_claim f)) (\<lambda>_.
     bindE (require_score (finding_confidence f)) (\<lambda>_.
     bindE (require_optional (require_int (Some 1) None) (finding_step_no f)) (\<lambda>_.
     Inr f)))))"

record decision =
  decision_id :: string
  decision_status :: decision_status
  decision_decision :: string
  decision_rationale :: string
  decision_rules_applied :: "string list"
  decision_evidence_refs :: "string list"
  decision_perspectives :: "string list"
  decision_step_no :: "int option"
  decision_created_at :: datetime

definition mk_decision :: "decision \<Rightarrow> exn + decision" where
  "mk_decision d =
     bindE (require_text (decision_id d)) (\<lambda>_.
     bindE (requireE (\<not> (decision_status d \<in> {Decision_ACCEPTED, Decision_REJECTED}
                          \<and> is_blank (decision_decision d))) ValueError) (\<lambda>_.
     bindE (require_optional (require_int (Some 1) None) (decision_step_no d)) (\<lambda>_.
     Inr d)))"

section \<open>Valid models\<close>

text \<open>A valid model is one its own construction accepts: what the persisted rows satisfy.\<close>

named_theorems mk_defs "the constructions of the domain models"

declare mk_project_def [mk_defs] mk_step_def [mk_defs] mk_task_def [mk_defs]
  mk_architecture_version_def [mk_defs] mk_change_request_def [mk_defs] mk_adr_def [mk_defs]
  mk_risk_def [mk_defs] mk_finding_def [mk_defs] mk_decision_def [mk_defs]

lemma mk_returns_argument:
  "mk_project p = Inr p' \<Longrightarrow> p' = p" "mk_step s = Inr s' \<Longrightarrow> s' = s" "mk_task t = Inr t' \<Longrightarrow> t' = t"
  "mk_architecture_version v = Inr v' \<Longrightarrow> v' = v" "mk_change_request r = Inr r' \<Longrightarrow> r' = r"
  "mk_adr a = Inr a' \<Longrightarrow> a' = a" "mk_risk k = Inr k' \<Longrightarrow> k' = k"
  "mk_finding f = Inr f' \<Longrightarrow> f' = f" "mk_decision d = Inr d' \<Longrightarrow> d' = d"
  by (auto simp: mk_defs split: if_splits)

definition valid_step :: "step \<Rightarrow> bool" where
  "valid_step s \<longleftrightarrow> 1 \<le> step_no s \<and> \<not> is_blank (step_title s) \<and> 0 \<le> step_attempt s
     \<and> 1 \<le> step_max_attempts s \<and> step_attempt s \<le> step_max_attempts s"

lemma mk_step_iff: "mk_step s = Inr s' \<longleftrightarrow> s' = s \<and> valid_step s"
  by (auto simp: mk_step_def valid_step_def)

lemma mk_step_valid [simp]: "valid_step s \<Longrightarrow> mk_step s = Inr s"
  by (simp add: mk_step_iff)

lemma mk_step_error: "mk_step s = Inl e \<Longrightarrow> e = ValueError"
  by (auto simp: mk_step_def bindE_Inl_iff require_int_def require_text_def requireE_def
      split: if_splits option.splits)

definition valid_task :: "task \<Rightarrow> bool" where
  "valid_task t \<longleftrightarrow> 1 \<le> task_step_no t \<and> \<not> is_blank (task_title t) \<and> 1 \<le> task_attempt t
     \<and> 1 \<le> task_max_attempts t \<and> task_attempt t \<le> task_max_attempts t"

lemma mk_task_iff: "mk_task t = Inr t' \<longleftrightarrow> t' = t \<and> valid_task t"
  by (auto simp: mk_task_def valid_task_def)

lemma mk_task_valid [simp]: "valid_task t \<Longrightarrow> mk_task t = Inr t"
  by (simp add: mk_task_iff)

definition valid_project :: "project \<Rightarrow> bool" where
  "valid_project p \<longleftrightarrow> \<not> is_blank (project_name p) \<and> \<not> is_blank (project_plan_version p)
     \<and> (\<forall>n. project_current_step_no_snapshot p = Some n \<longrightarrow> 1 \<le> n)"

lemma mk_project_iff: "mk_project p = Inr p' \<longleftrightarrow> p' = p \<and> valid_project p"
  by (auto simp: mk_project_def valid_project_def)

lemma mk_project_valid [simp]: "valid_project p \<Longrightarrow> mk_project p = Inr p"
  by (simp add: mk_project_iff)

end
