(* ===== verification/Audit_Trail.thy ===== *)
theory Audit_Trail
  imports Enums Json
begin

text \<open>
  The audit trail's entry (\<open>domain/audit.py\<close>): the kinds of entity, the actions, and the frozen
  record with the checks of its construction.
\<close>

datatype audit_entity_type = Entity_ADR | Entity_RISK | Entity_STEP | Entity_ACR | Entity_PROJECT

primrec audit_entity_type_value :: "audit_entity_type \<Rightarrow> string" where
  "audit_entity_type_value Entity_ADR = ''ADR''"
| "audit_entity_type_value Entity_RISK = ''RISK''"
| "audit_entity_type_value Entity_STEP = ''STEP''"
| "audit_entity_type_value Entity_ACR = ''ACR''"
| "audit_entity_type_value Entity_PROJECT = ''PROJECT''"

definition audit_entity_type_members :: "audit_entity_type list" where
  "audit_entity_type_members = [Entity_ADR, Entity_RISK, Entity_STEP, Entity_ACR, Entity_PROJECT]"

interpretation audit_entity_type_enum: str_enum audit_entity_type_members audit_entity_type_value
proof unfold_locales
  show "m \<in> set audit_entity_type_members" for m
    by (cases m) (simp_all add: audit_entity_type_members_def)
  show "distinct (map audit_entity_type_value audit_entity_type_members)"
    by (simp add: audit_entity_type_members_def)
qed

declare audit_entity_type_enum.coerce_value [simp]

datatype audit_action =
    Act_CREATE
  | Act_ACCEPT
  | Act_REJECT
  | Act_DEPRECATE
  | Act_SUPERSEDE
  | Act_AMEND
  | Act_UPDATE
  | Act_MITIGATE
  | Act_CLOSE
  | Act_REOPEN
  | Act_PAUSE
  | Act_RESUME
  | Act_SET_MODE

primrec audit_action_value :: "audit_action \<Rightarrow> string" where
  "audit_action_value Act_CREATE = ''CREATE''"
| "audit_action_value Act_ACCEPT = ''ACCEPT''"
| "audit_action_value Act_REJECT = ''REJECT''"
| "audit_action_value Act_DEPRECATE = ''DEPRECATE''"
| "audit_action_value Act_SUPERSEDE = ''SUPERSEDE''"
| "audit_action_value Act_AMEND = ''AMEND''"
| "audit_action_value Act_UPDATE = ''UPDATE''"
| "audit_action_value Act_MITIGATE = ''MITIGATE''"
| "audit_action_value Act_CLOSE = ''CLOSE''"
| "audit_action_value Act_REOPEN = ''REOPEN''"
| "audit_action_value Act_PAUSE = ''PAUSE''"
| "audit_action_value Act_RESUME = ''RESUME''"
| "audit_action_value Act_SET_MODE = ''SET_MODE''"

definition audit_action_members :: "audit_action list" where
  "audit_action_members = [Act_CREATE, Act_ACCEPT, Act_REJECT, Act_DEPRECATE, Act_SUPERSEDE,
     Act_AMEND, Act_UPDATE, Act_MITIGATE, Act_CLOSE, Act_REOPEN, Act_PAUSE, Act_RESUME, Act_SET_MODE]"

interpretation audit_action_enum: str_enum audit_action_members audit_action_value
proof unfold_locales
  show "m \<in> set audit_action_members" for m by (cases m) (simp_all add: audit_action_members_def)
  show "distinct (map audit_action_value audit_action_members)" by (simp add: audit_action_members_def)
qed

declare audit_action_enum.coerce_value [simp]

record audit_entry =
  entry_entity_type :: audit_entity_type
  entry_entity_id :: string
  entry_action :: audit_action
  entry_detail :: mapping
  entry_created_at :: datetime

text \<open>
  Every value of type \<^typ>\<open>mapping\<close> is JSON-serializable, so of the checks of the construction only
  that on the entity's name can fail.
\<close>

definition mk_audit_entry :: "audit_entry \<Rightarrow> exn + audit_entry" where
  "mk_audit_entry a = bindE (requireE (\<not> is_blank (entry_entity_id a)) ValueError) (\<lambda>_. Inr a)"

text \<open>\<open>detail_json\<close> read back: the members of the detail by key.\<close>

definition detail_json :: "audit_entry \<Rightarrow> mapping" where
  "detail_json a = sort_keys (entry_detail a)"

definition valid_entry :: "audit_entry \<Rightarrow> bool" where
  "valid_entry a \<longleftrightarrow> \<not> is_blank (entry_entity_id a)"

lemma mk_audit_entry_iff: "mk_audit_entry a = Inr a' \<longleftrightarrow> a' = a \<and> valid_entry a"
  by (auto simp: mk_audit_entry_def valid_entry_def)

lemma mk_audit_entry_valid [simp]: "valid_entry a \<Longrightarrow> mk_audit_entry a = Inr a"
  by (simp add: mk_audit_entry_iff)

end
