(* ===== verification/Adapters.thy ===== *)
theory Adapters
  imports Sql Models Audit_Trail
begin

text \<open>
  The SQLite adapters of \<open>infrastructure/repositories.py\<close>, one group per aggregate: the statement
  text (its column lists in order), the tuple of parameters \<open>upsert\<close> binds, the converter
  \<open>_row_to_...\<close> and the adapter that puts them together. Every adapter interprets \<open>row_codec\<close>,
  hence the repository contract. The audit adapter only appends.
\<close>

section \<open>Cells\<close>

definition bool_int :: "bool \<Rightarrow> cell" where
  "bool_int b = CInt (if b then 1 else 0)"

definition iso_opt :: "datetime option \<Rightarrow> cell" where
  "iso_opt v = (case v of None \<Rightarrow> CNull | Some t \<Rightarrow> CIso t)"

definition text_opt :: "string option \<Rightarrow> cell" where
  "text_opt v = (case v of None \<Rightarrow> CNull | Some s \<Rightarrow> CText s)"

definition int_opt :: "int option \<Rightarrow> cell" where
  "int_opt v = (case v of None \<Rightarrow> CNull | Some i \<Rightarrow> CInt i)"

definition json_dump_seq :: "string list \<Rightarrow> cell" where
  "json_dump_seq xs = CSeq xs"

definition json_dump_map :: "mapping \<Rightarrow> cell" where
  "json_dump_map m = CMap (sort_keys m)"

text \<open>Reading a cell back; a cell of another kind is refused by the model's own checks.\<close>

fun as_text :: "cell \<Rightarrow> exn + string" where
  "as_text (CText s) = Inr s"
| "as_text _ = Inl ValueError"

fun as_opt_text :: "cell \<Rightarrow> exn + string option" where
  "as_opt_text CNull = Inr None"
| "as_opt_text (CText s) = Inr (Some s)"
| "as_opt_text _ = Inl ValueError"

fun as_int :: "cell \<Rightarrow> exn + int" where
  "as_int (CInt i) = Inr i"
| "as_int _ = Inl ValueError"

fun as_opt_int :: "cell \<Rightarrow> exn + int option" where
  "as_opt_int CNull = Inr None"
| "as_opt_int (CInt i) = Inr (Some i)"
| "as_opt_int _ = Inl ValueError"

fun as_real :: "cell \<Rightarrow> exn + rat" where
  "as_real (CReal r) = Inr r"
| "as_real (CInt i) = Inr (of_int i)"
| "as_real _ = Inl ValueError"

fun as_bool :: "cell \<Rightarrow> exn + bool" where
  "as_bool (CInt i) = Inr (i \<noteq> 0)"
| "as_bool CNull = Inr False"
| "as_bool _ = Inr True"

fun parse_dt :: "cell \<Rightarrow> exn + datetime option" where
  "parse_dt CNull = Inr None"
| "parse_dt (CIso t) = Inr (Some t)"
| "parse_dt _ = Inl ValueError"

definition as_instant :: "cell \<Rightarrow> exn + datetime" where
  "as_instant c = bindE (parse_dt c) (\<lambda>v. case v of None \<Rightarrow> Inl ValueError | Some t \<Rightarrow> Inr t)"

fun json_load_seq :: "cell \<Rightarrow> exn + string list" where
  "json_load_seq CNull = Inr []"
| "json_load_seq (CSeq xs) = Inr xs"
| "json_load_seq _ = Inl ValueError"

fun json_load_map :: "cell \<Rightarrow> exn + mapping" where
  "json_load_map CNull = Inr []"
| "json_load_map (CMap m) = Inr m"
| "json_load_map _ = Inl ValueError"

definition as_enum :: "'a list \<Rightarrow> ('a \<Rightarrow> string) \<Rightarrow> cell \<Rightarrow> exn + 'a" where
  "as_enum ms value c = bindE (as_text c) (coerce_enum ms value)"

definition as_opt_enum :: "'a list \<Rightarrow> ('a \<Rightarrow> string) \<Rightarrow> cell \<Rightarrow> exn + 'a option" where
  "as_opt_enum ms value c =
     bindE (as_opt_text c) (\<lambda>v. case v of
       None \<Rightarrow> Inr None
     | Some s \<Rightarrow> bindE (coerce_enum ms value s) (\<lambda>m. Inr (Some m)))"

named_theorems cell_trips "reading back what was bound"

lemma bool_trip [cell_trips]: "as_bool (bool_int b) = Inr b"
  by (simp add: bool_int_def)

lemma iso_trip [cell_trips]: "parse_dt (iso_opt v) = Inr v"
  by (cases v) (simp_all add: iso_opt_def)

lemma instant_trip [cell_trips]: "as_instant (CIso t) = Inr t"
  by (simp add: as_instant_def)

lemma text_opt_trip [cell_trips]: "as_opt_text (text_opt v) = Inr v"
  by (cases v) (simp_all add: text_opt_def)

lemma int_opt_trip [cell_trips]: "as_opt_int (int_opt v) = Inr v"
  by (cases v) (simp_all add: int_opt_def)

lemma seq_trip [cell_trips]: "json_load_seq (json_dump_seq xs) = Inr xs"
  by (simp add: json_dump_seq_def)

lemma map_trip [cell_trips]: "json_load_map (json_dump_map m) = Inr (sort_keys m)"
  by (simp add: json_dump_map_def)

lemma enum_trip [cell_trips]: "as_enum ms value (CText s) = coerce_enum ms value s"
  by (simp add: as_enum_def)

lemma opt_enum_trip:
  "(\<And>a. coerce_enum ms value (value a) = Inr a) \<Longrightarrow>
     as_opt_enum ms value (text_opt (map_option value v)) = Inr v"
  by (cases v) (simp_all add: as_opt_enum_def text_opt_def)

lemma report_status_opt_trip [cell_trips]:
  "as_opt_enum report_status_members report_status_value (text_opt (map_option report_status_value v)) = Inr v"
  by (rule opt_enum_trip) simp


section \<open>Projects\<close>

definition PROJECT_UPSERT :: upsert_sql where
  "PROJECT_UPSERT = \<lparr>
    insert_columns =
     [''name'', ''plan_version'', ''plan_hash'', ''mode'', ''paused'',
      ''current_step_no_snapshot'', ''created_at'', ''updated_at''],
    conflict_columns = [''name''],
    update_columns =
     [''plan_version'', ''plan_hash'', ''mode'', ''paused'', ''current_step_no_snapshot'',
      ''created_at'', ''updated_at'']\<rparr>"

definition project_params :: "project \<Rightarrow> cell list" where
  "project_params x =
     [CText (project_name x), CText (project_plan_version x), CText (project_plan_hash x),
      CText (mode_value (project_mode x)), bool_int (project_paused x),
      int_opt (project_current_step_no_snapshot x), CIso (project_created_at x),
      CIso (project_updated_at x)]"

definition row_to_project :: "row \<Rightarrow> exn + project" where
  "row_to_project r =
     bindE (as_text (r ''name'')) (\<lambda>v_name.
     bindE (as_text (r ''plan_version'')) (\<lambda>v_plan_version.
     bindE (as_text (r ''plan_hash'')) (\<lambda>v_plan_hash.
     bindE (as_enum mode_members mode_value (r ''mode'')) (\<lambda>v_mode.
     bindE (as_bool (r ''paused'')) (\<lambda>v_paused.
     bindE (as_opt_int (r ''current_step_no_snapshot'')) (\<lambda>v_current_step_no_snapshot.
     bindE (as_instant (r ''created_at'')) (\<lambda>v_created_at.
     bindE (as_instant (r ''updated_at'')) (\<lambda>v_updated_at.
     mk_project \<lparr>project_name = v_name, project_plan_version = v_plan_version,
       project_plan_hash = v_plan_hash, project_mode = v_mode, project_paused = v_paused,
       project_current_step_no_snapshot = v_current_step_no_snapshot,
       project_created_at = v_created_at, project_updated_at = v_updated_at\<rparr>))))))))"

definition project_adapter :: "project adapter" where
  "project_adapter = \<lparr>UPSERT = PROJECT_UPSERT, PARAMS = project_params, FROM_ROW = row_to_project,
     KEY_COLUMNS = [''name''],
     ORDER_BY = [''name'']\<rparr>"

interpretation projects_repository: row_codec project_adapter "project_name" "\<lambda>k. [CText k]" valid_project
proof unfold_locales
  show "FROM_ROW project_adapter (row_of project_adapter x) = Inr x" if "valid_project x" for x
    using that by (cases x) (simp add: row_of_def project_adapter_def row_to_project_def bind_row_def PROJECT_UPSERT_def
      project_params_def cell_trips )
  show "FROM_ROW project_adapter r = FROM_ROW project_adapter r'"
    if "same_on (insert_columns (UPSERT project_adapter)) r r'" for r r'
    using that by (simp add: project_adapter_def row_to_project_def same_on_def PROJECT_UPSERT_def)
  show "map (row_of project_adapter x) (KEY_COLUMNS project_adapter) = (\<lambda>k. [CText k]) ((project_name) x)" for x
    by (simp add: row_of_def project_adapter_def bind_row_def PROJECT_UPSERT_def project_params_def)
qed (auto simp: project_adapter_def PROJECT_UPSERT_def)

section \<open>Steps\<close>

definition STEP_UPSERT :: upsert_sql where
  "STEP_UPSERT = \<lparr>
    insert_columns =
     [''step_no'', ''phase'', ''title'', ''state'', ''description'', ''attempt'',
      ''max_attempts'', ''risk'', ''requires_human'', ''created_at'', ''started_at'',
      ''finished_at'', ''verified_at'', ''last_update_at''],
    conflict_columns = [''step_no''],
    update_columns =
     [''phase'', ''title'', ''state'', ''description'', ''attempt'', ''max_attempts'', ''risk'',
      ''requires_human'', ''created_at'', ''started_at'', ''finished_at'', ''verified_at'',
      ''last_update_at'']\<rparr>"

definition step_params :: "step \<Rightarrow> cell list" where
  "step_params x =
     [CInt (step_no x), CText (phase_value (step_phase x)), CText (step_title x),
      CText (step_state_value (step_state x)), CText (step_description x),
      CInt (step_attempt x), CInt (step_max_attempts x), CText (risk_level_value (step_risk x)),
      bool_int (step_requires_human x), CIso (step_created_at x), iso_opt (step_started_at x),
      iso_opt (step_finished_at x), iso_opt (step_verified_at x),
      iso_opt (step_last_update_at x)]"

definition row_to_step :: "row \<Rightarrow> exn + step" where
  "row_to_step r =
     bindE (as_int (r ''step_no'')) (\<lambda>v_step_no.
     bindE (as_enum phase_members phase_value (r ''phase'')) (\<lambda>v_phase.
     bindE (as_text (r ''title'')) (\<lambda>v_title.
     bindE (as_enum step_state_members step_state_value (r ''state'')) (\<lambda>v_state.
     bindE (as_text (r ''description'')) (\<lambda>v_description.
     bindE (as_int (r ''attempt'')) (\<lambda>v_attempt.
     bindE (as_int (r ''max_attempts'')) (\<lambda>v_max_attempts.
     bindE (as_enum risk_level_members risk_level_value (r ''risk'')) (\<lambda>v_risk.
     bindE (as_bool (r ''requires_human'')) (\<lambda>v_requires_human.
     bindE (as_instant (r ''created_at'')) (\<lambda>v_created_at.
     bindE (parse_dt (r ''started_at'')) (\<lambda>v_started_at.
     bindE (parse_dt (r ''finished_at'')) (\<lambda>v_finished_at.
     bindE (parse_dt (r ''verified_at'')) (\<lambda>v_verified_at.
     bindE (parse_dt (r ''last_update_at'')) (\<lambda>v_last_update_at.
     mk_step \<lparr>step_no = v_step_no, step_phase = v_phase, step_title = v_title, step_state = v_state,
       step_description = v_description, step_attempt = v_attempt,
       step_max_attempts = v_max_attempts, step_risk = v_risk,
       step_requires_human = v_requires_human, step_created_at = v_created_at,
       step_started_at = v_started_at, step_finished_at = v_finished_at,
       step_verified_at = v_verified_at, step_last_update_at = v_last_update_at\<rparr>))))))))))))))"

definition step_adapter :: "step adapter" where
  "step_adapter = \<lparr>UPSERT = STEP_UPSERT, PARAMS = step_params, FROM_ROW = row_to_step,
     KEY_COLUMNS = [''step_no''],
     ORDER_BY = [''step_no'']\<rparr>"

interpretation steps_repository: row_codec step_adapter "step_no" "\<lambda>k. [CInt k]" valid_step
proof unfold_locales
  show "FROM_ROW step_adapter (row_of step_adapter x) = Inr x" if "valid_step x" for x
    using that by (cases x) (simp add: row_of_def step_adapter_def row_to_step_def bind_row_def STEP_UPSERT_def
      step_params_def cell_trips )
  show "FROM_ROW step_adapter r = FROM_ROW step_adapter r'"
    if "same_on (insert_columns (UPSERT step_adapter)) r r'" for r r'
    using that by (simp add: step_adapter_def row_to_step_def same_on_def STEP_UPSERT_def)
  show "map (row_of step_adapter x) (KEY_COLUMNS step_adapter) = (\<lambda>k. [CInt k]) ((step_no) x)" for x
    by (simp add: row_of_def step_adapter_def bind_row_def STEP_UPSERT_def step_params_def)
qed (auto simp: step_adapter_def STEP_UPSERT_def)

section \<open>Tasks\<close>

definition TASK_UPSERT :: upsert_sql where
  "TASK_UPSERT = \<lparr>
    insert_columns =
     [''step_no'', ''phase'', ''title'', ''state'', ''description'', ''risk'', ''attempt'',
      ''max_attempts'', ''context_file'', ''instructions'', ''report_schema'',
      ''report_status'', ''created_at''],
    conflict_columns = [''step_no'', ''attempt''],
    update_columns =
     [''phase'', ''title'', ''state'', ''description'', ''risk'', ''max_attempts'',
      ''context_file'', ''instructions'', ''report_schema'', ''report_status'', ''created_at'']\<rparr>"

definition task_params :: "task \<Rightarrow> cell list" where
  "task_params x =
     [CInt (task_step_no x), CText (phase_value (task_phase x)), CText (task_title x),
      CText (task_state_value (task_state x)), CText (task_description x),
      CText (risk_level_value (task_risk x)), CInt (task_attempt x), CInt (task_max_attempts x),
      text_opt (task_context_file x), json_dump_map (task_instructions x),
      json_dump_map (task_report_schema x),
      text_opt (map_option report_status_value (task_report_status x)), CIso (task_created_at x)]"

definition row_to_task :: "row \<Rightarrow> exn + task" where
  "row_to_task r =
     bindE (as_int (r ''step_no'')) (\<lambda>v_step_no.
     bindE (as_enum phase_members phase_value (r ''phase'')) (\<lambda>v_phase.
     bindE (as_text (r ''title'')) (\<lambda>v_title.
     bindE (as_text (r ''description'')) (\<lambda>v_description.
     bindE (as_enum risk_level_members risk_level_value (r ''risk'')) (\<lambda>v_risk.
     bindE (as_int (r ''attempt'')) (\<lambda>v_attempt.
     bindE (as_int (r ''max_attempts'')) (\<lambda>v_max_attempts.
     bindE (as_enum task_state_members task_state_value (r ''state'')) (\<lambda>v_state.
     bindE (as_opt_text (r ''context_file'')) (\<lambda>v_context_file.
     bindE (json_load_map (r ''instructions'')) (\<lambda>v_instructions.
     bindE (json_load_map (r ''report_schema'')) (\<lambda>v_report_schema.
     bindE (as_opt_enum report_status_members report_status_value (r ''report_status'')) (\<lambda>v_report_status.
     bindE (as_instant (r ''created_at'')) (\<lambda>v_created_at.
     mk_task \<lparr>task_step_no = v_step_no, task_phase = v_phase, task_title = v_title,
       task_description = v_description, task_risk = v_risk, task_attempt = v_attempt,
       task_max_attempts = v_max_attempts, task_state = v_state,
       task_context_file = v_context_file, task_instructions = v_instructions,
       task_report_schema = v_report_schema, task_report_status = v_report_status,
       task_created_at = v_created_at\<rparr>)))))))))))))"

definition task_adapter :: "task adapter" where
  "task_adapter = \<lparr>UPSERT = TASK_UPSERT, PARAMS = task_params, FROM_ROW = row_to_task,
     KEY_COLUMNS = [''step_no'', ''attempt''],
     ORDER_BY = [''step_no'', ''attempt'']\<rparr>"

text \<open>A Task whose two mappings are listed by key: the form every mapping read back has.\<close>

definition valid_task_row :: "task \<Rightarrow> bool" where
  "valid_task_row t \<longleftrightarrow> valid_task t \<and> sort_keys (task_instructions t) = task_instructions t
     \<and> sort_keys (task_report_schema t) = task_report_schema t"

interpretation tasks_repository: row_codec task_adapter "\<lambda>t. (task_step_no t, task_attempt t)" "\<lambda>(s, a). [CInt s, CInt a]" valid_task_row
proof unfold_locales
  show "FROM_ROW task_adapter (row_of task_adapter x) = Inr x" if "valid_task_row x" for x
    using that by (cases x) (simp add: row_of_def task_adapter_def row_to_task_def bind_row_def TASK_UPSERT_def
      task_params_def cell_trips valid_task_row_def)
  show "FROM_ROW task_adapter r = FROM_ROW task_adapter r'"
    if "same_on (insert_columns (UPSERT task_adapter)) r r'" for r r'
    using that by (simp add: task_adapter_def row_to_task_def same_on_def TASK_UPSERT_def)
  show "map (row_of task_adapter x) (KEY_COLUMNS task_adapter) = (\<lambda>(s, a). [CInt s, CInt a]) ((\<lambda>t. (task_step_no t, task_attempt t)) x)" for x
    by (simp add: row_of_def task_adapter_def bind_row_def TASK_UPSERT_def task_params_def)
qed (auto simp: task_adapter_def TASK_UPSERT_def)

section \<open>Architecture versions\<close>

definition ARCHITECTURE_VERSION_UPSERT :: upsert_sql where
  "ARCHITECTURE_VERSION_UPSERT = \<lparr>
    insert_columns =
     [''version'', ''baseline'', ''rules'', ''superseded_by'', ''is_current'', ''created_at''],
    conflict_columns = [''version''],
    update_columns =
     [''baseline'', ''rules'', ''superseded_by'', ''is_current'', ''created_at'']\<rparr>"

definition architecture_version_params :: "architecture_version \<Rightarrow> cell list" where
  "architecture_version_params x =
     [CText (av_version x), CText (av_baseline x), json_dump_seq (av_rules x),
      text_opt (av_superseded_by x), bool_int (av_is_current x), CIso (av_created_at x)]"

definition row_to_architecture_version :: "row \<Rightarrow> exn + architecture_version" where
  "row_to_architecture_version r =
     bindE (as_text (r ''version'')) (\<lambda>v_version.
     bindE (as_text (r ''baseline'')) (\<lambda>v_baseline.
     bindE (json_load_seq (r ''rules'')) (\<lambda>v_rules.
     bindE (as_opt_text (r ''superseded_by'')) (\<lambda>v_superseded_by.
     bindE (as_bool (r ''is_current'')) (\<lambda>v_is_current.
     bindE (as_instant (r ''created_at'')) (\<lambda>v_created_at.
     mk_architecture_version \<lparr>av_version = v_version, av_baseline = v_baseline, av_rules = v_rules,
       av_superseded_by = v_superseded_by, av_is_current = v_is_current,
       av_created_at = v_created_at\<rparr>))))))"

definition architecture_version_adapter :: "architecture_version adapter" where
  "architecture_version_adapter = \<lparr>UPSERT = ARCHITECTURE_VERSION_UPSERT, PARAMS = architecture_version_params, FROM_ROW = row_to_architecture_version,
     KEY_COLUMNS = [''version''],
     ORDER_BY = [''version'']\<rparr>"

definition valid_architecture_version_row :: "architecture_version \<Rightarrow> bool" where
  "valid_architecture_version_row x \<longleftrightarrow> mk_architecture_version x = Inr x"

interpretation architecture_versions_repository: row_codec architecture_version_adapter "av_version" "\<lambda>k. [CText k]" valid_architecture_version_row
proof unfold_locales
  show "FROM_ROW architecture_version_adapter (row_of architecture_version_adapter x) = Inr x" if "valid_architecture_version_row x" for x
    using that by (cases x) (simp add: row_of_def architecture_version_adapter_def row_to_architecture_version_def bind_row_def ARCHITECTURE_VERSION_UPSERT_def
      architecture_version_params_def cell_trips valid_architecture_version_row_def)
  show "FROM_ROW architecture_version_adapter r = FROM_ROW architecture_version_adapter r'"
    if "same_on (insert_columns (UPSERT architecture_version_adapter)) r r'" for r r'
    using that by (simp add: architecture_version_adapter_def row_to_architecture_version_def same_on_def ARCHITECTURE_VERSION_UPSERT_def)
  show "map (row_of architecture_version_adapter x) (KEY_COLUMNS architecture_version_adapter) = (\<lambda>k. [CText k]) ((av_version) x)" for x
    by (simp add: row_of_def architecture_version_adapter_def bind_row_def ARCHITECTURE_VERSION_UPSERT_def architecture_version_params_def)
qed (auto simp: architecture_version_adapter_def ARCHITECTURE_VERSION_UPSERT_def)

section \<open>Change requests\<close>

definition CHANGE_REQUEST_UPSERT :: upsert_sql where
  "CHANGE_REQUEST_UPSERT = \<lparr>
    insert_columns =
     [''request_id'', ''title'', ''rationale'', ''source_version'', ''target_version'',
      ''rule_ids'', ''roadmap_impact'', ''status'', ''adr_id'', ''approved_by'',
      ''approved_at'', ''applied_at'', ''created_at''],
    conflict_columns = [''request_id''],
    update_columns =
     [''title'', ''rationale'', ''source_version'', ''target_version'', ''rule_ids'',
      ''roadmap_impact'', ''status'', ''adr_id'', ''approved_by'', ''approved_at'',
      ''applied_at'', ''created_at'']\<rparr>"

definition change_request_params :: "change_request \<Rightarrow> cell list" where
  "change_request_params x =
     [CText (acr_request_id x), CText (acr_title x), CText (acr_rationale x),
      CText (acr_source_version x), CText (acr_target_version x),
      json_dump_seq (acr_rule_ids x), json_dump_seq (acr_roadmap_impact x),
      CText (acr_status_value (acr_status x)), CText (acr_adr_id x),
      text_opt (acr_approved_by x), iso_opt (acr_approved_at x), iso_opt (acr_applied_at x),
      CIso (acr_created_at x)]"

definition row_to_change_request :: "row \<Rightarrow> exn + change_request" where
  "row_to_change_request r =
     bindE (as_text (r ''request_id'')) (\<lambda>v_request_id.
     bindE (as_text (r ''title'')) (\<lambda>v_title.
     bindE (as_text (r ''rationale'')) (\<lambda>v_rationale.
     bindE (as_text (r ''source_version'')) (\<lambda>v_source_version.
     bindE (as_text (r ''target_version'')) (\<lambda>v_target_version.
     bindE (json_load_seq (r ''rule_ids'')) (\<lambda>v_rule_ids.
     bindE (as_text (r ''adr_id'')) (\<lambda>v_adr_id.
     bindE (json_load_seq (r ''roadmap_impact'')) (\<lambda>v_roadmap_impact.
     bindE (as_enum acr_status_members acr_status_value (r ''status'')) (\<lambda>v_status.
     bindE (as_instant (r ''created_at'')) (\<lambda>v_created_at.
     bindE (as_opt_text (r ''approved_by'')) (\<lambda>v_approved_by.
     bindE (parse_dt (r ''approved_at'')) (\<lambda>v_approved_at.
     bindE (parse_dt (r ''applied_at'')) (\<lambda>v_applied_at.
     mk_change_request \<lparr>acr_request_id = v_request_id, acr_title = v_title, acr_rationale = v_rationale,
       acr_source_version = v_source_version, acr_target_version = v_target_version,
       acr_rule_ids = v_rule_ids, acr_adr_id = v_adr_id, acr_roadmap_impact = v_roadmap_impact,
       acr_status = v_status, acr_created_at = v_created_at, acr_approved_by = v_approved_by,
       acr_approved_at = v_approved_at, acr_applied_at = v_applied_at\<rparr>)))))))))))))"

definition change_request_adapter :: "change_request adapter" where
  "change_request_adapter = \<lparr>UPSERT = CHANGE_REQUEST_UPSERT, PARAMS = change_request_params, FROM_ROW = row_to_change_request,
     KEY_COLUMNS = [''request_id''],
     ORDER_BY = [''created_at'', ''request_id'']\<rparr>"

definition valid_change_request_row :: "change_request \<Rightarrow> bool" where
  "valid_change_request_row x \<longleftrightarrow> mk_change_request x = Inr x"

interpretation change_requests_repository: row_codec change_request_adapter "acr_request_id" "\<lambda>k. [CText k]" valid_change_request_row
proof unfold_locales
  show "FROM_ROW change_request_adapter (row_of change_request_adapter x) = Inr x" if "valid_change_request_row x" for x
    using that by (cases x) (simp add: row_of_def change_request_adapter_def row_to_change_request_def bind_row_def CHANGE_REQUEST_UPSERT_def
      change_request_params_def cell_trips valid_change_request_row_def)
  show "FROM_ROW change_request_adapter r = FROM_ROW change_request_adapter r'"
    if "same_on (insert_columns (UPSERT change_request_adapter)) r r'" for r r'
    using that by (simp add: change_request_adapter_def row_to_change_request_def same_on_def CHANGE_REQUEST_UPSERT_def)
  show "map (row_of change_request_adapter x) (KEY_COLUMNS change_request_adapter) = (\<lambda>k. [CText k]) ((acr_request_id) x)" for x
    by (simp add: row_of_def change_request_adapter_def bind_row_def CHANGE_REQUEST_UPSERT_def change_request_params_def)
qed (auto simp: change_request_adapter_def CHANGE_REQUEST_UPSERT_def)

section \<open>ADRs\<close>

definition ADR_UPSERT :: upsert_sql where
  "ADR_UPSERT = \<lparr>
    insert_columns =
     [''id'', ''title'', ''status'', ''context'', ''decision'', ''consequences'', ''version'',
      ''superseded_by'', ''related'', ''created_at'', ''updated_at''],
    conflict_columns = [''id''],
    update_columns =
     [''title'', ''status'', ''context'', ''decision'', ''consequences'', ''version'',
      ''superseded_by'', ''related'', ''created_at'', ''updated_at'']\<rparr>"

definition adr_params :: "adr \<Rightarrow> cell list" where
  "adr_params x =
     [CText (adr_id x), CText (adr_title x), CText (adr_status_value (adr_status x)),
      CText (adr_context x), CText (adr_decision x), json_dump_seq (adr_consequences x),
      CInt (adr_version x), text_opt (adr_superseded_by x), json_dump_seq (adr_related x),
      CIso (adr_created_at x), iso_opt (adr_updated_at x)]"

definition row_to_adr :: "row \<Rightarrow> exn + adr" where
  "row_to_adr r =
     bindE (as_text (r ''id'')) (\<lambda>v_id.
     bindE (as_text (r ''title'')) (\<lambda>v_title.
     bindE (as_enum adr_status_members adr_status_value (r ''status'')) (\<lambda>v_status.
     bindE (as_text (r ''context'')) (\<lambda>v_context.
     bindE (as_text (r ''decision'')) (\<lambda>v_decision.
     bindE (json_load_seq (r ''consequences'')) (\<lambda>v_consequences.
     bindE (as_int (r ''version'')) (\<lambda>v_version.
     bindE (as_opt_text (r ''superseded_by'')) (\<lambda>v_superseded_by.
     bindE (json_load_seq (r ''related'')) (\<lambda>v_related.
     bindE (as_instant (r ''created_at'')) (\<lambda>v_created_at.
     bindE (parse_dt (r ''updated_at'')) (\<lambda>v_updated_at.
     mk_adr \<lparr>adr_id = v_id, adr_title = v_title, adr_status = v_status, adr_context = v_context,
       adr_decision = v_decision, adr_consequences = v_consequences, adr_version = v_version,
       adr_superseded_by = v_superseded_by, adr_related = v_related,
       adr_created_at = v_created_at, adr_updated_at = v_updated_at\<rparr>)))))))))))"

definition adr_adapter :: "adr adapter" where
  "adr_adapter = \<lparr>UPSERT = ADR_UPSERT, PARAMS = adr_params, FROM_ROW = row_to_adr,
     KEY_COLUMNS = [''id''],
     ORDER_BY = [''id'']\<rparr>"

definition valid_adr_row :: "adr \<Rightarrow> bool" where
  "valid_adr_row x \<longleftrightarrow> mk_adr x = Inr x"

interpretation adrs_repository: row_codec adr_adapter "adr_id" "\<lambda>k. [CText k]" valid_adr_row
proof unfold_locales
  show "FROM_ROW adr_adapter (row_of adr_adapter x) = Inr x" if "valid_adr_row x" for x
    using that by (cases x) (simp add: row_of_def adr_adapter_def row_to_adr_def bind_row_def ADR_UPSERT_def
      adr_params_def cell_trips valid_adr_row_def)
  show "FROM_ROW adr_adapter r = FROM_ROW adr_adapter r'"
    if "same_on (insert_columns (UPSERT adr_adapter)) r r'" for r r'
    using that by (simp add: adr_adapter_def row_to_adr_def same_on_def ADR_UPSERT_def)
  show "map (row_of adr_adapter x) (KEY_COLUMNS adr_adapter) = (\<lambda>k. [CText k]) ((adr_id) x)" for x
    by (simp add: row_of_def adr_adapter_def bind_row_def ADR_UPSERT_def adr_params_def)
qed (auto simp: adr_adapter_def ADR_UPSERT_def)

section \<open>Risks\<close>

definition RISK_UPSERT :: upsert_sql where
  "RISK_UPSERT = \<lparr>
    insert_columns =
     [''id'', ''description'', ''severity'', ''probability'', ''impact'', ''owner'',
      ''mitigation'', ''status'', ''created_at'', ''updated_at''],
    conflict_columns = [''id''],
    update_columns =
     [''description'', ''severity'', ''probability'', ''impact'', ''owner'', ''mitigation'',
      ''status'', ''created_at'', ''updated_at'']\<rparr>"

definition risk_params :: "risk \<Rightarrow> cell list" where
  "risk_params x =
     [CText (risk_id x), CText (risk_description x), CText (severity_value (risk_severity x)),
      CReal (risk_probability x), CText (severity_value (risk_impact x)), CText (risk_owner x),
      CText (risk_mitigation x), CText (risk_status_value (risk_status x)),
      CIso (risk_created_at x), iso_opt (risk_updated_at x)]"

definition row_to_risk :: "row \<Rightarrow> exn + risk" where
  "row_to_risk r =
     bindE (as_text (r ''id'')) (\<lambda>v_id.
     bindE (as_text (r ''description'')) (\<lambda>v_description.
     bindE (as_enum severity_members severity_value (r ''severity'')) (\<lambda>v_severity.
     bindE (as_real (r ''probability'')) (\<lambda>v_probability.
     bindE (as_enum severity_members severity_value (r ''impact'')) (\<lambda>v_impact.
     bindE (as_text (r ''owner'')) (\<lambda>v_owner.
     bindE (as_text (r ''mitigation'')) (\<lambda>v_mitigation.
     bindE (as_enum risk_status_members risk_status_value (r ''status'')) (\<lambda>v_status.
     bindE (as_instant (r ''created_at'')) (\<lambda>v_created_at.
     bindE (parse_dt (r ''updated_at'')) (\<lambda>v_updated_at.
     mk_risk \<lparr>risk_id = v_id, risk_description = v_description, risk_severity = v_severity,
       risk_probability = v_probability, risk_impact = v_impact, risk_owner = v_owner,
       risk_mitigation = v_mitigation, risk_status = v_status, risk_created_at = v_created_at,
       risk_updated_at = v_updated_at\<rparr>))))))))))"

definition risk_adapter :: "risk adapter" where
  "risk_adapter = \<lparr>UPSERT = RISK_UPSERT, PARAMS = risk_params, FROM_ROW = row_to_risk,
     KEY_COLUMNS = [''id''],
     ORDER_BY = [''id'']\<rparr>"

definition valid_risk_row :: "risk \<Rightarrow> bool" where
  "valid_risk_row x \<longleftrightarrow> mk_risk x = Inr x"

interpretation risks_repository: row_codec risk_adapter "risk_id" "\<lambda>k. [CText k]" valid_risk_row
proof unfold_locales
  show "FROM_ROW risk_adapter (row_of risk_adapter x) = Inr x" if "valid_risk_row x" for x
    using that by (cases x) (simp add: row_of_def risk_adapter_def row_to_risk_def bind_row_def RISK_UPSERT_def
      risk_params_def cell_trips valid_risk_row_def)
  show "FROM_ROW risk_adapter r = FROM_ROW risk_adapter r'"
    if "same_on (insert_columns (UPSERT risk_adapter)) r r'" for r r'
    using that by (simp add: risk_adapter_def row_to_risk_def same_on_def RISK_UPSERT_def)
  show "map (row_of risk_adapter x) (KEY_COLUMNS risk_adapter) = (\<lambda>k. [CText k]) ((risk_id) x)" for x
    by (simp add: row_of_def risk_adapter_def bind_row_def RISK_UPSERT_def risk_params_def)
qed (auto simp: risk_adapter_def RISK_UPSERT_def)

section \<open>Findings\<close>

definition FINDING_UPSERT :: upsert_sql where
  "FINDING_UPSERT = \<lparr>
    insert_columns =
     [''id'', ''source'', ''claim'', ''evidence'', ''confidence'', ''severity'', ''step_no'',
      ''created_at''],
    conflict_columns = [''id''],
    update_columns =
     [''source'', ''claim'', ''evidence'', ''confidence'', ''severity'', ''step_no'',
      ''created_at'']\<rparr>"

definition finding_params :: "finding \<Rightarrow> cell list" where
  "finding_params x =
     [CText (finding_id x), CText (finding_source x), CText (finding_claim x),
      json_dump_seq (finding_evidence x), CReal (finding_confidence x),
      CText (severity_value (finding_severity x)), int_opt (finding_step_no x),
      CIso (finding_created_at x)]"

definition row_to_finding :: "row \<Rightarrow> exn + finding" where
  "row_to_finding r =
     bindE (as_text (r ''id'')) (\<lambda>v_id.
     bindE (as_text (r ''source'')) (\<lambda>v_source.
     bindE (as_text (r ''claim'')) (\<lambda>v_claim.
     bindE (json_load_seq (r ''evidence'')) (\<lambda>v_evidence.
     bindE (as_real (r ''confidence'')) (\<lambda>v_confidence.
     bindE (as_enum severity_members severity_value (r ''severity'')) (\<lambda>v_severity.
     bindE (as_opt_int (r ''step_no'')) (\<lambda>v_step_no.
     bindE (as_instant (r ''created_at'')) (\<lambda>v_created_at.
     mk_finding \<lparr>finding_id = v_id, finding_source = v_source, finding_claim = v_claim,
       finding_evidence = v_evidence, finding_confidence = v_confidence,
       finding_severity = v_severity, finding_step_no = v_step_no,
       finding_created_at = v_created_at\<rparr>))))))))"

definition finding_adapter :: "finding adapter" where
  "finding_adapter = \<lparr>UPSERT = FINDING_UPSERT, PARAMS = finding_params, FROM_ROW = row_to_finding,
     KEY_COLUMNS = [''id''],
     ORDER_BY = [''id'']\<rparr>"

definition valid_finding_row :: "finding \<Rightarrow> bool" where
  "valid_finding_row x \<longleftrightarrow> mk_finding x = Inr x"

interpretation findings_repository: row_codec finding_adapter "finding_id" "\<lambda>k. [CText k]" valid_finding_row
proof unfold_locales
  show "FROM_ROW finding_adapter (row_of finding_adapter x) = Inr x" if "valid_finding_row x" for x
    using that by (cases x) (simp add: row_of_def finding_adapter_def row_to_finding_def bind_row_def FINDING_UPSERT_def
      finding_params_def cell_trips valid_finding_row_def)
  show "FROM_ROW finding_adapter r = FROM_ROW finding_adapter r'"
    if "same_on (insert_columns (UPSERT finding_adapter)) r r'" for r r'
    using that by (simp add: finding_adapter_def row_to_finding_def same_on_def FINDING_UPSERT_def)
  show "map (row_of finding_adapter x) (KEY_COLUMNS finding_adapter) = (\<lambda>k. [CText k]) ((finding_id) x)" for x
    by (simp add: row_of_def finding_adapter_def bind_row_def FINDING_UPSERT_def finding_params_def)
qed (auto simp: finding_adapter_def FINDING_UPSERT_def)

section \<open>Decisions\<close>

definition DECISION_UPSERT :: upsert_sql where
  "DECISION_UPSERT = \<lparr>
    insert_columns =
     [''id'', ''status'', ''decision'', ''rationale'', ''rules_applied'', ''evidence_refs'',
      ''perspectives'', ''step_no'', ''created_at''],
    conflict_columns = [''id''],
    update_columns =
     [''status'', ''decision'', ''rationale'', ''rules_applied'', ''evidence_refs'',
      ''perspectives'', ''step_no'', ''created_at'']\<rparr>"

definition decision_params :: "decision \<Rightarrow> cell list" where
  "decision_params x =
     [CText (decision_id x), CText (decision_status_value (decision_status x)),
      CText (decision_decision x), CText (decision_rationale x),
      json_dump_seq (decision_rules_applied x), json_dump_seq (decision_evidence_refs x),
      json_dump_seq (decision_perspectives x), int_opt (decision_step_no x),
      CIso (decision_created_at x)]"

definition row_to_decision :: "row \<Rightarrow> exn + decision" where
  "row_to_decision r =
     bindE (as_text (r ''id'')) (\<lambda>v_id.
     bindE (as_enum decision_status_members decision_status_value (r ''status'')) (\<lambda>v_status.
     bindE (as_text (r ''decision'')) (\<lambda>v_decision.
     bindE (as_text (r ''rationale'')) (\<lambda>v_rationale.
     bindE (json_load_seq (r ''rules_applied'')) (\<lambda>v_rules_applied.
     bindE (json_load_seq (r ''evidence_refs'')) (\<lambda>v_evidence_refs.
     bindE (json_load_seq (r ''perspectives'')) (\<lambda>v_perspectives.
     bindE (as_opt_int (r ''step_no'')) (\<lambda>v_step_no.
     bindE (as_instant (r ''created_at'')) (\<lambda>v_created_at.
     mk_decision \<lparr>decision_id = v_id, decision_status = v_status, decision_decision = v_decision,
       decision_rationale = v_rationale, decision_rules_applied = v_rules_applied,
       decision_evidence_refs = v_evidence_refs, decision_perspectives = v_perspectives,
       decision_step_no = v_step_no, decision_created_at = v_created_at\<rparr>)))))))))"

definition decision_adapter :: "decision adapter" where
  "decision_adapter = \<lparr>UPSERT = DECISION_UPSERT, PARAMS = decision_params, FROM_ROW = row_to_decision,
     KEY_COLUMNS = [''id''],
     ORDER_BY = [''id'']\<rparr>"

definition valid_decision_row :: "decision \<Rightarrow> bool" where
  "valid_decision_row x \<longleftrightarrow> mk_decision x = Inr x"

interpretation decisions_repository: row_codec decision_adapter "decision_id" "\<lambda>k. [CText k]" valid_decision_row
proof unfold_locales
  show "FROM_ROW decision_adapter (row_of decision_adapter x) = Inr x" if "valid_decision_row x" for x
    using that by (cases x) (simp add: row_of_def decision_adapter_def row_to_decision_def bind_row_def DECISION_UPSERT_def
      decision_params_def cell_trips valid_decision_row_def)
  show "FROM_ROW decision_adapter r = FROM_ROW decision_adapter r'"
    if "same_on (insert_columns (UPSERT decision_adapter)) r r'" for r r'
    using that by (simp add: decision_adapter_def row_to_decision_def same_on_def DECISION_UPSERT_def)
  show "map (row_of decision_adapter x) (KEY_COLUMNS decision_adapter) = (\<lambda>k. [CText k]) ((decision_id) x)" for x
    by (simp add: row_of_def decision_adapter_def bind_row_def DECISION_UPSERT_def decision_params_def)
qed (auto simp: decision_adapter_def DECISION_UPSERT_def)

section \<open>The audit trail\<close>

text \<open>A table the adapter only appends to, in the order of its hidden autoincrement key.\<close>

definition AUDIT_INSERT :: "string list" where
  "AUDIT_INSERT = [''entity_type'', ''entity_id'', ''action'', ''detail'', ''created_at'']"

definition audit_params :: "audit_entry \<Rightarrow> cell list" where
  "audit_params e =
     [CText (audit_entity_type_value (entry_entity_type e)), CText (entry_entity_id e),
      CText (audit_action_value (entry_action e)), CMap (detail_json e), CIso (entry_created_at e)]"

definition row_to_audit_entry :: "row \<Rightarrow> exn + audit_entry" where
  "row_to_audit_entry r =
     bindE (as_enum audit_entity_type_members audit_entity_type_value (r ''entity_type'')) (\<lambda>ty.
     bindE (as_text (r ''entity_id'')) (\<lambda>i.
     bindE (as_enum audit_action_members audit_action_value (r ''action'')) (\<lambda>a.
     bindE (json_load_map (r ''detail'')) (\<lambda>d.
     bindE (as_instant (r ''created_at'')) (\<lambda>t.
     mk_audit_entry \<lparr>entry_entity_type = ty, entry_entity_id = i, entry_action = a,
       entry_detail = d, entry_created_at = t\<rparr>)))))"

definition audit_append :: "audit_entry \<Rightarrow> row list \<Rightarrow> row list" where
  "audit_append e t = t @ [bind_row AUDIT_INSERT (audit_params e)]"

definition audit_list :: "row list \<Rightarrow> exn + audit_entry list" where
  "audit_list t = mapE row_to_audit_entry t"

definition audit_list_for_entity ::
  "audit_entity_type \<Rightarrow> string \<Rightarrow> row list \<Rightarrow> exn + audit_entry list" where
  "audit_list_for_entity ty i t =
     mapE row_to_audit_entry (filter (matches
       [(''entity_type'', CText (audit_entity_type_value ty)), (''entity_id'', CText i)]) t)"

lemma audit_row_trip:
  "valid_entry e \<Longrightarrow>
     row_to_audit_entry (bind_row AUDIT_INSERT (audit_params e)) = Inr (e\<lparr>entry_detail := detail_json e\<rparr>)"
  by (simp add: row_to_audit_entry_def bind_row_def AUDIT_INSERT_def audit_params_def cell_trips
      mk_audit_entry_iff valid_entry_def)

lemma audit_trip:
  "\<forall>e\<in>set es. valid_entry e \<Longrightarrow>
     audit_list (fold audit_append es []) = Inr (map (\<lambda>e. e\<lparr>entry_detail := detail_json e\<rparr>) es)"
proof -
  assume v: "\<forall>e\<in>set es. valid_entry e"
  have "fold audit_append es t = t @ map (\<lambda>e. bind_row AUDIT_INSERT (audit_params e)) es" for t
    by (induction es arbitrary: t) (auto simp: audit_append_def)
  moreover have "mapE row_to_audit_entry (map (\<lambda>e. bind_row AUDIT_INSERT (audit_params e)) es)
      = Inr (map (\<lambda>e. e\<lparr>entry_detail := detail_json e\<rparr>) es)"
    using v by (induction es) (auto simp: audit_row_trip)
  ultimately show ?thesis by (simp add: audit_list_def)
qed

end
