(* ===== verification/Architecture.thy ===== *)
theory Architecture
  imports Models Tables
begin

text \<open>
  The \<open>architecture\<close> layer: the data types of \<open>architecture/model.py\<close>, the rules and baselines of
  \<open>architecture/rules.py\<close>, the validator, and the scanner that turns a source tree into the model
  the rules read. A \<open>frozenset\<close> of module names is a list whose order does not matter; a source
  file is what \<open>ast\<close> finds in it, its import nodes.
\<close>

section \<open>Model\<close>

record source_model =
  model_imports :: "(string \<times> string list) list"
  model_root :: string

definition modules :: "source_model \<Rightarrow> string list" where
  "modules src = sort (map fst (model_imports src))"

definition imports_of :: "source_model \<Rightarrow> string \<Rightarrow> string list" where
  "imports_of src m = (case map_of (model_imports src) m of None \<Rightarrow> [] | Some ts \<Rightarrow> ts)"

record rule_violation =
  violation_rule_id :: string
  violation_severity :: severity
  violation_module :: string
  violation_target :: string
  violation_message :: string

definition ordering_key :: "rule_violation \<Rightarrow> string \<times> string \<times> string \<times> string" where
  "ordering_key v = (violation_rule_id v, violation_module v, violation_target v, violation_message v)"

record validation_result =
  result_baseline_version :: string
  result_violations :: "rule_violation list"
  result_checked_rules :: "string list"

definition is_compliant :: "validation_result \<Rightarrow> bool" where
  "is_compliant r = (result_violations r = [])"

definition violations_for :: "validation_result \<Rightarrow> string \<Rightarrow> rule_violation list" where
  "violations_for r i = filter (\<lambda>v. violation_rule_id v = i) (result_violations r)"

record architecture_rule =
  rule_id :: string
  rule_description :: string
  rule_severity :: severity
  rule_check :: "source_model \<Rightarrow> rule_violation list"

definition mk_rule :: "architecture_rule \<Rightarrow> exn + architecture_rule" where
  "mk_rule r =
     bindE (requireE (\<not> is_blank (rule_id r)) ValueError) (\<lambda>_.
     bindE (requireE (\<not> is_blank (rule_description r)) ValueError) (\<lambda>_.
     Inr r))"

record architecture_baseline =
  baseline_version :: string
  baseline_name :: string
  baseline_description :: string
  baseline_known_layers :: "string list"
  baseline_allowed_imports :: "(string \<times> string list) list"
  baseline_rules :: "architecture_rule list"

definition baseline_rule_ids :: "architecture_baseline \<Rightarrow> string list" where
  "baseline_rule_ids b = map rule_id (baseline_rules b)"

definition mk_baseline :: "architecture_baseline \<Rightarrow> exn + architecture_baseline" where
  "mk_baseline b =
     bindE (requireE (\<not> is_blank (baseline_version b)) ValueError) (\<lambda>_.
     bindE (requireE (\<not> is_blank (baseline_name b)) ValueError) (\<lambda>_.
     bindE (requireE (baseline_rules b \<noteq> []) ValueError) (\<lambda>_.
     bindE (requireE (distinct (baseline_rule_ids b)) ValueError) (\<lambda>_.
     bindE (requireE (\<forall>l\<in>set (baseline_known_layers b).
       l \<in> set (map fst (baseline_allowed_imports b))) ValueError) (\<lambda>_.
     bindE (requireE (\<forall>(l, ts)\<in>set (baseline_allowed_imports b).
       l \<in> set (baseline_known_layers b) \<and> set ts \<subseteq> set (baseline_known_layers b)) ValueError) (\<lambda>_.
     Inr b))))))"

section \<open>Rules\<close>

definition ROOT_PACKAGE :: string where "ROOT_PACKAGE = ''architecture_assistant''"
definition DOMAIN_LAYER :: string where "DOMAIN_LAYER = ''domain''"
definition PORTS_LAYER :: string where "PORTS_LAYER = ''ports''"
definition APPLICATION_LAYER :: string where "APPLICATION_LAYER = ''application''"
definition ARCHITECTURE_LAYER :: string where "ARCHITECTURE_LAYER = ''architecture''"
definition INFRASTRUCTURE_LAYER :: string where "INFRASTRUCTURE_LAYER = ''infrastructure''"
definition COMPOSITION_LAYER :: string where "COMPOSITION_LAYER = ''composition''"
definition SQLITE_MODULE :: string where "SQLITE_MODULE = ''sqlite3''"
definition UNKNOWN_LAYER :: string where "UNKNOWN_LAYER = ''unknown-layer''"
definition FORBIDDEN_LAYER_IMPORT :: string where "FORBIDDEN_LAYER_IMPORT = ''forbidden-layer-import''"
definition SQLITE_OUTSIDE_INFRASTRUCTURE :: string where
  "SQLITE_OUTSIDE_INFRASTRUCTURE = ''sqlite-outside-infrastructure''"

definition V1_KNOWN_LAYERS :: "string list" where
  "V1_KNOWN_LAYERS = [DOMAIN_LAYER, PORTS_LAYER, APPLICATION_LAYER, ARCHITECTURE_LAYER,
     INFRASTRUCTURE_LAYER]"

definition V1_ALLOWED_IMPORTS :: "(string \<times> string list) list" where
  "V1_ALLOWED_IMPORTS =
     [(DOMAIN_LAYER, []),
      (PORTS_LAYER, [DOMAIN_LAYER]),
      (APPLICATION_LAYER, [DOMAIN_LAYER, PORTS_LAYER]),
      (ARCHITECTURE_LAYER, [DOMAIN_LAYER]),
      (INFRASTRUCTURE_LAYER, [DOMAIN_LAYER, PORTS_LAYER])]"

definition KNOWN_LAYERS :: "string list" where
  "KNOWN_LAYERS = V1_KNOWN_LAYERS @ [COMPOSITION_LAYER]"

definition ALLOWED_IMPORTS :: "(string \<times> string list) list" where
  "ALLOWED_IMPORTS = V1_ALLOWED_IMPORTS @
     [(COMPOSITION_LAYER, [DOMAIN_LAYER, PORTS_LAYER, APPLICATION_LAYER, ARCHITECTURE_LAYER,
        INFRASTRUCTURE_LAYER])]"

definition layer_of :: "string \<Rightarrow> string \<Rightarrow> string option" where
  "layer_of m pkg =
     (if m = pkg then Some ''''
      else let pre = pkg @ ''.'' in
        if starts_with pre m then Some (takeWhile (\<lambda>c. c \<noteq> CHR ''.'') (drop (length pre) m)) else None)"

text \<open>\<open>repr\<close> of a name: the module names the rules quote are identifiers joined by dots.\<close>

definition quoted :: "string \<Rightarrow> string" where
  "quoted s = [CHR 0x27] @ s @ [CHR 0x27]"

definition quoted_opt :: "string option \<Rightarrow> string" where
  "quoted_opt v = (case v of None \<Rightarrow> ''None'' | Some s \<Rightarrow> quoted s)"

definition unknown_layer_check :: "string list \<Rightarrow> source_model \<Rightarrow> rule_violation list" where
  "unknown_layer_check known src =
     concat (map (\<lambda>m.
       case layer_of m (model_root src) of
         None \<Rightarrow> []
       | Some l \<Rightarrow>
           if l = '''' then []
           else if l \<notin> set known then
             [\<lparr>violation_rule_id = UNKNOWN_LAYER, violation_severity = Sev_HIGH,
               violation_module = m, violation_target = l,
               violation_message = ''module '' @ quoted m @ '' lives in unknown layer '' @ quoted l
                 @ ''; expected one of: '' @ join '', '' known\<rparr>]
           else []) (modules src))"

definition forbidden_layer_import_check ::
  "(string \<times> string list) list \<Rightarrow> source_model \<Rightarrow> rule_violation list" where
  "forbidden_layer_import_check matrix src =
     concat (map (\<lambda>m.
       case layer_of m (model_root src) of
         None \<Rightarrow> []
       | Some l \<Rightarrow>
           if l = '''' then []
           else
             let allowed = (case map_of matrix l of None \<Rightarrow> [] | Some ts \<Rightarrow> ts) in
             concat (map (\<lambda>t.
               case layer_of t (model_root src) of
                 None \<Rightarrow> []
               | Some l' \<Rightarrow>
                   if l' = '''' then []
                   else if l' = l \<or> l' \<in> set allowed then []
                   else
                     [\<lparr>violation_rule_id = FORBIDDEN_LAYER_IMPORT, violation_severity = Sev_HIGH,
                       violation_module = m, violation_target = t,
                       violation_message = ''layer '' @ quoted l @ '' must not import layer ''
                         @ quoted l' @ '': '' @ quoted m @ '' imports '' @ quoted t\<rparr>])
               (sort (remdups (imports_of src m)))))
       (modules src))"

definition sqlite_outside_infrastructure_check :: "source_model \<Rightarrow> rule_violation list" where
  "sqlite_outside_infrastructure_check src =
     concat (map (\<lambda>m.
       let l = layer_of m (model_root src) in
       if l = Some INFRASTRUCTURE_LAYER then []
       else if SQLITE_MODULE \<in> set (imports_of src m) then
         [\<lparr>violation_rule_id = SQLITE_OUTSIDE_INFRASTRUCTURE, violation_severity = Sev_CRITICAL,
           violation_module = m, violation_target = SQLITE_MODULE,
           violation_message = quoted m @ '' (layer '' @ quoted_opt l @ '') imports ''
             @ quoted SQLITE_MODULE @ ''; only the '' @ quoted INFRASTRUCTURE_LAYER
             @ '' layer may do that''\<rparr>]
       else []) (modules src))"

definition SQLITE_CONFINEMENT_RULE :: architecture_rule where
  "SQLITE_CONFINEMENT_RULE =
     \<lparr>rule_id = SQLITE_OUTSIDE_INFRASTRUCTURE,
      rule_description = ''Only the '' @ INFRASTRUCTURE_LAYER @ '' layer may import '' @ SQLITE_MODULE @ ''.'',
      rule_severity = Sev_CRITICAL, rule_check = sqlite_outside_infrastructure_check\<rparr>"

definition V1_RULES :: "architecture_rule list" where
  "V1_RULES =
     [\<lparr>rule_id = UNKNOWN_LAYER,
       rule_description = ''Every assistant module must live in a known layer: ''
         @ join '', '' V1_KNOWN_LAYERS @ ''.'',
       rule_severity = Sev_HIGH, rule_check = unknown_layer_check V1_KNOWN_LAYERS\<rparr>,
      \<lparr>rule_id = FORBIDDEN_LAYER_IMPORT,
       rule_description = ''Imports must follow the allowed dependency direction ''
         @ ''(domain <- ports <- application; architecture -> domain; ''
         @ ''infrastructure -> {domain, ports}).'',
       rule_severity = Sev_HIGH, rule_check = forbidden_layer_import_check V1_ALLOWED_IMPORTS\<rparr>,
      SQLITE_CONFINEMENT_RULE]"

definition V1_1_RULES :: "architecture_rule list" where
  "V1_1_RULES =
     [\<lparr>rule_id = UNKNOWN_LAYER,
       rule_description = ''Every assistant module must live in a known layer: ''
         @ join '', '' KNOWN_LAYERS @ ''.'',
       rule_severity = Sev_HIGH, rule_check = unknown_layer_check KNOWN_LAYERS\<rparr>,
      \<lparr>rule_id = FORBIDDEN_LAYER_IMPORT,
       rule_description = ''Imports must follow the allowed dependency direction ''
         @ ''(domain <- ports <- application; architecture -> domain; ''
         @ ''infrastructure -> {domain, ports}; composition -> every layer, ''
         @ ''and nothing may import composition).'',
       rule_severity = Sev_HIGH, rule_check = forbidden_layer_import_check ALLOWED_IMPORTS\<rparr>,
      SQLITE_CONFINEMENT_RULE]"

definition ARCHITECTURE_V1 :: architecture_baseline where
  "ARCHITECTURE_V1 =
     \<lparr>baseline_version = ''1.0'', baseline_name = ''Layered Architecture Baseline'',
      baseline_description =
        ''Architecture v1.0: strict layers (domain, ports, application, ''
        @ ''architecture, infrastructure) with a deterministic allowed-import ''
        @ ''matrix and sqlite3 confined to the infrastructure layer.'',
      baseline_known_layers = V1_KNOWN_LAYERS, baseline_allowed_imports = V1_ALLOWED_IMPORTS,
      baseline_rules = V1_RULES\<rparr>"

definition ARCHITECTURE_V1_1 :: architecture_baseline where
  "ARCHITECTURE_V1_1 =
     \<lparr>baseline_version = ''1.1'',
      baseline_name = ''Layered Architecture Baseline with Composition Root'',
      baseline_description =
        ''Architecture v1.1: the v1.0 strict layers plus one outer composition ''
        @ ''layer (composition), which is the only layer allowed to import ''
        @ ''architecture and infrastructure. Every v1.0 permission is unchanged, ''
        @ ''and no layer may import composition.'',
      baseline_known_layers = KNOWN_LAYERS, baseline_allowed_imports = ALLOWED_IMPORTS,
      baseline_rules = V1_1_RULES\<rparr>"

definition ARCHITECTURE_CURRENT :: architecture_baseline where
  "ARCHITECTURE_CURRENT = ARCHITECTURE_V1_1"

section \<open>Validator\<close>

definition validate_source :: "architecture_baseline \<Rightarrow> source_model \<Rightarrow> validation_result" where
  "validate_source b src =
     \<lparr>result_baseline_version = baseline_version b,
      result_violations =
        sort_key ordering_key (concat (map (\<lambda>r. rule_check r src) (baseline_rules b))),
      result_checked_rules = baseline_rule_ids b\<rparr>"

section \<open>What compliance means\<close>

text \<open>The layer of a project module; neither the package root nor a foreign module has one.\<close>

definition module_layer :: "source_model \<Rightarrow> string \<Rightarrow> string option" where
  "module_layer src m = (case layer_of m (model_root src) of
     None \<Rightarrow> None | Some l \<Rightarrow> if l = '''' then None else Some l)"

definition permits :: "(string \<times> string list) list \<Rightarrow> string \<Rightarrow> string \<Rightarrow> bool" where
  "permits matrix l l' = (l' = l \<or> l' \<in> set (case map_of matrix l of None \<Rightarrow> [] | Some ts \<Rightarrow> ts))"

text \<open>
  The declarative reading of a baseline: every module lives in a known layer, every import between
  layered modules is permitted, and only the infrastructure layer imports \<open>sqlite3\<close>.
\<close>

definition layered :: "string list \<Rightarrow> (string \<times> string list) list \<Rightarrow> source_model \<Rightarrow> bool" where
  "layered known matrix src \<longleftrightarrow>
     (\<forall>m\<in>set (modules src). \<forall>l. module_layer src m = Some l \<longrightarrow> l \<in> set known) \<and>
     (\<forall>m\<in>set (modules src). \<forall>t\<in>set (imports_of src m). \<forall>l l'.
        module_layer src m = Some l \<and> module_layer src t = Some l' \<longrightarrow> permits matrix l l') \<and>
     (\<forall>m\<in>set (modules src). SQLITE_MODULE \<in> set (imports_of src m) \<longrightarrow>
        module_layer src m = Some INFRASTRUCTURE_LAYER)"

lemma infrastructure_layer_iff:
  "module_layer src m = Some INFRASTRUCTURE_LAYER \<longleftrightarrow>
     layer_of m (model_root src) = Some INFRASTRUCTURE_LAYER"
  by (auto simp: module_layer_def INFRASTRUCTURE_LAYER_def split: option.splits)

lemma unknown_layer_check_ok:
  "unknown_layer_check known src = [] \<longleftrightarrow>
     (\<forall>m\<in>set (modules src). \<forall>l. module_layer src m = Some l \<longrightarrow> l \<in> set known)"
  by (auto simp: unknown_layer_check_def module_layer_def split: option.splits if_splits)

lemma layer_case_Nil:
  "(case layer_of m (model_root src) of None \<Rightarrow> [] | Some l \<Rightarrow> if l = '''' then [] else F l) = []
     \<longleftrightarrow> (\<forall>l. module_layer src m = Some l \<longrightarrow> F l = [])"
  by (cases "layer_of m (model_root src)") (simp_all add: module_layer_def)

lemma concat_map_Nil: "concat (map f xs) = [] \<longleftrightarrow> (\<forall>x\<in>set xs. f x = [])"
  by auto

lemma if_Nil: "(if b then [] else [v]) = [] \<longleftrightarrow> b"
  by simp

lemma forbidden_layer_import_check_ok:
  "forbidden_layer_import_check matrix src = [] \<longleftrightarrow>
     (\<forall>m\<in>set (modules src). \<forall>t\<in>set (imports_of src m). \<forall>l l'.
        module_layer src m = Some l \<and> module_layer src t = Some l' \<longrightarrow> permits matrix l l')"
proof -
  have "forbidden_layer_import_check matrix src = [] \<longleftrightarrow>
     (\<forall>m\<in>set (modules src). \<forall>l. module_layer src m = Some l \<longrightarrow>
        (\<forall>t\<in>set (imports_of src m). \<forall>l'. module_layer src t = Some l' \<longrightarrow> permits matrix l l'))"
    unfolding forbidden_layer_import_check_def concat_map_Nil layer_case_Nil Let_def if_Nil
      permits_def set_sort set_remdups ..
  then show ?thesis by blast
qed

lemma sqlite_check_ok:
  "sqlite_outside_infrastructure_check src = [] \<longleftrightarrow>
     (\<forall>m\<in>set (modules src). SQLITE_MODULE \<in> set (imports_of src m) \<longrightarrow>
        module_layer src m = Some INFRASTRUCTURE_LAYER)"
  by (auto simp: sqlite_outside_infrastructure_check_def infrastructure_layer_iff Let_def
      split: if_splits)

lemma compliant_iff_rules:
  "is_compliant (validate_source b src) \<longleftrightarrow> (\<forall>r\<in>set (baseline_rules b). rule_check r src = [])"
proof -
  have "sort_key ordering_key vs = [] \<longleftrightarrow> vs = []" for vs
    by (metis length_0_conv length_sort)
  then show ?thesis by (simp add: is_compliant_def validate_source_def)
qed

lemma v1_layered:
  "is_compliant (validate_source ARCHITECTURE_V1 src) \<longleftrightarrow> layered V1_KNOWN_LAYERS V1_ALLOWED_IMPORTS src"
  by (simp add: compliant_iff_rules ARCHITECTURE_V1_def V1_RULES_def SQLITE_CONFINEMENT_RULE_def
      unknown_layer_check_ok forbidden_layer_import_check_ok sqlite_check_ok layered_def)

lemma v1_1_layered:
  "is_compliant (validate_source ARCHITECTURE_V1_1 src) \<longleftrightarrow> layered KNOWN_LAYERS ALLOWED_IMPORTS src"
  by (simp add: compliant_iff_rules ARCHITECTURE_V1_1_def V1_1_RULES_def SQLITE_CONFINEMENT_RULE_def
      unknown_layer_check_ok forbidden_layer_import_check_ok sqlite_check_ok layered_def)

text \<open>
  C33: The validator of the current baseline reports no violation exactly when the source is layered:
  every module lives in a known layer, every import between layered modules is permitted by the
  matrix, and only the infrastructure layer imports \<open>sqlite3\<close>.
\<close>

theorem validator_decides_layering:
  "is_compliant (validate_source ARCHITECTURE_CURRENT src) \<longleftrightarrow>
     layered KNOWN_LAYERS ALLOWED_IMPORTS src"
  by (simp add: ARCHITECTURE_CURRENT_def v1_1_layered)

section \<open>Import chains\<close>

text \<open>A chain of imports through modules that have a layer.\<close>

inductive import_chain :: "source_model \<Rightarrow> string \<Rightarrow> string \<Rightarrow> bool" for src m where
  chain_refl: "import_chain src m m"
| chain_step: "import_chain src m t \<Longrightarrow> u \<in> set (imports_of src t) \<Longrightarrow> module_layer src t = Some l \<Longrightarrow>
    import_chain src m u"

definition closed_layers :: "(string \<times> string list) list \<Rightarrow> string set \<Rightarrow> bool" where
  "closed_layers matrix S \<longleftrightarrow> (\<forall>l\<in>S. \<forall>l'. permits matrix l l' \<longrightarrow> l' \<in> S)"

lemma imports_of_module: "t \<in> set (imports_of src m) \<Longrightarrow> m \<in> set (modules src)"
  by (cases "map_of (model_imports src) m")
    (auto simp: imports_of_def modules_def dest!: map_of_SomeD intro: rev_image_eqI)

lemma chain_stays:
  assumes lay: "layered known matrix src" and closed: "closed_layers matrix S"
    and chain: "import_chain src m t" and start: "module_layer src m = Some l" "l \<in> S"
  shows "module_layer src t = Some l' \<Longrightarrow> l' \<in> S"
  using chain
proof (induction arbitrary: l')
  case chain_refl
  with start show ?case by simp
next
  case (chain_step t u k)
  then have "k \<in> S" by simp
  moreover have "permits matrix k l'"
    using lay chain_step imports_of_module[OF chain_step.hyps(2)] by (auto simp: layered_def)
  ultimately show ?case using closed by (auto simp: closed_layers_def)
qed

lemmas layer_names = DOMAIN_LAYER_def PORTS_LAYER_def APPLICATION_LAYER_def ARCHITECTURE_LAYER_def
  INFRASTRUCTURE_LAYER_def COMPOSITION_LAYER_def

lemma core_closed:
  "closed_layers ALLOWED_IMPORTS {DOMAIN_LAYER}"
  "closed_layers ALLOWED_IMPORTS {DOMAIN_LAYER, PORTS_LAYER, APPLICATION_LAYER}"
  by (auto simp: closed_layers_def permits_def ALLOWED_IMPORTS_def V1_ALLOWED_IMPORTS_def layer_names)



lemma known_layers_iff: "l \<in> set KNOWN_LAYERS \<longleftrightarrow> l \<in> set V1_KNOWN_LAYERS \<or> l = COMPOSITION_LAYER"
  by (auto simp: KNOWN_LAYERS_def)

lemma composition_not_v1: "COMPOSITION_LAYER \<notin> set V1_KNOWN_LAYERS"
  by (simp add: V1_KNOWN_LAYERS_def layer_names)

lemma permits_v1: "l \<in> set V1_KNOWN_LAYERS \<Longrightarrow> permits ALLOWED_IMPORTS l l' \<longleftrightarrow> permits V1_ALLOWED_IMPORTS l l'"
  by (auto simp: permits_def ALLOWED_IMPORTS_def V1_ALLOWED_IMPORTS_def V1_KNOWN_LAYERS_def layer_names)

lemma layered_v1_1:
  "layered V1_KNOWN_LAYERS V1_ALLOWED_IMPORTS src \<longleftrightarrow>
     layered KNOWN_LAYERS ALLOWED_IMPORTS src \<and>
     (\<forall>m\<in>set (modules src). module_layer src m \<noteq> Some COMPOSITION_LAYER)"
proof -
  let ?known = "\<forall>m\<in>set (modules src). \<forall>l. module_layer src m = Some l \<longrightarrow> l \<in> set V1_KNOWN_LAYERS"
  have "?known \<longleftrightarrow> (\<forall>m\<in>set (modules src). \<forall>l. module_layer src m = Some l \<longrightarrow> l \<in> set KNOWN_LAYERS)
      \<and> (\<forall>m\<in>set (modules src). module_layer src m \<noteq> Some COMPOSITION_LAYER)"
    using composition_not_v1 known_layers_iff by metis
  then show ?thesis
    unfolding layered_def using permits_v1 by (smt (verit, del_insts))
qed

text \<open>
  Baseline v1.1 changes nothing for the layers of v1.0: a source is accepted by v1.0 exactly
  when v1.1 accepts it and none of its modules lives in the new composition layer.
\<close>

theorem v1_1_conservative:
  "is_compliant (validate_source ARCHITECTURE_V1 src) \<longleftrightarrow>
     is_compliant (validate_source ARCHITECTURE_V1_1 src) \<and>
     Some COMPOSITION_LAYER \<notin> module_layer src ` set (modules src)"
  unfolding v1_layered v1_1_layered
  by (simp add: layered_v1_1 image_iff) (metis option.inject)

end
