(* ===== verification/Scanner.thy ===== *)
theory Scanner
  imports Architecture
begin

text \<open>
  The source scanner (\<open>architecture/scanner.py\<close>). A source tree lists the Python files below a root
  by the components of their relative path; a file holds what reading and \<open>ast.parse\<close> make of it:
  text that cannot be decoded, text that is not Python, or the import nodes \<open>ast.walk\<close> meets.
\<close>

datatype import_node =
    Import "string list"
  | ImportFrom "string option" nat

datatype source_file =
    NotText
  | NotPython
  | Parsed "import_node list"

type_synonym path = "string list"
type_synonym source_tree = "(path \<times> source_file) list"

section \<open>Module names\<close>

text \<open>\<open>with_suffix("")\<close> on a file name: cut from the last dot, unless it is the first or last character.\<close>

definition drop_suffix :: "string \<Rightarrow> string" where
  "drop_suffix name =
     (let ext = rev (takeWhile (\<lambda>c. c \<noteq> CHR ''.'') (rev name)); n = length name - length ext in
      if ext \<noteq> [] \<and> 1 < n then take (n - 1) name else name)"

definition module_name_for :: "path \<Rightarrow> string \<Rightarrow> string \<times> bool" where
  "module_name_for p pkg =
     (let parts = butlast p @ [drop_suffix (last p)]; is_package = (last parts = ''__init__'') in
      (join ''.'' (pkg # (if is_package then butlast parts else parts)), is_package))"

text \<open>\<open>module.rsplit(".", 1)[0]\<close>\<close>

definition rsplit_head :: "string \<Rightarrow> string" where
  "rsplit_head m =
     (if CHR ''.'' \<in> set m then rev (drop 1 (dropWhile (\<lambda>c. c \<noteq> CHR ''.'') (rev m))) else m)"

definition package_of :: "string \<Rightarrow> bool \<Rightarrow> string" where
  "package_of m is_package = (if is_package then m else rsplit_head m)"

section \<open>Imports of one file\<close>

definition resolve_import_from :: "string option \<Rightarrow> nat \<Rightarrow> string \<Rightarrow> string option" where
  "resolve_import_from m level package =
     (if level = 0 then m
      else
        let parts = split_on (CHR ''.'') package; keep = int (length parts) - (int level - 1) in
        if keep < 1 then None
        else
          let base = take (nat keep) parts in
          Some (join ''.''
            (case m of
               None \<Rightarrow> base
             | Some s \<Rightarrow> if s = '''' then base else base @ split_on (CHR ''.'') s)))"

definition extract_imports :: "import_node list \<Rightarrow> string \<Rightarrow> bool \<Rightarrow> string list" where
  "extract_imports nodes m is_package =
     (let package = package_of m is_package in
      remdups (concat (map (\<lambda>n. case n of
        Import names \<Rightarrow> names
      | ImportFrom f level \<Rightarrow>
          (case resolve_import_from f level package of
             None \<Rightarrow> []
           | Some r \<Rightarrow> if r = '''' then [] else [r])) nodes)))"

section \<open>A source tree\<close>

definition path_text :: "path \<Rightarrow> string" where
  "path_text p = join ''/'' p"

text \<open>\<open>read_text\<close> raises on text that cannot be decoded, \<open>ast.parse\<close> on text that is not Python.\<close>

fun read_text :: "path \<times> source_file \<Rightarrow> exn + path \<times> source_file" where
  "read_text (p, NotText) = Inl ValueError"
| "read_text (p, f) = Inr (p, f)"

fun parse_file :: "source_file \<Rightarrow> exn + import_node list" where
  "parse_file (Parsed nodes) = Inr nodes"
| "parse_file _ = Inl SyntaxError"

definition build_source_model :: "source_tree \<Rightarrow> string \<Rightarrow> exn + source_model" where
  "build_source_model files pkg =
     bindE (mapE (\<lambda>(p, f).
         (case module_name_for p pkg of (m, is_package) \<Rightarrow>
          bindE (parse_file f) (\<lambda>nodes. Inr (m, extract_imports nodes m is_package))))
       (sort_key (\<lambda>(p, f). path_text p) files)) (\<lambda>entries.
     Inr \<lparr>model_imports = fold (put fst) entries [], model_root = pkg\<rparr>)"

definition discover_python_files :: "source_tree \<Rightarrow> source_tree" where
  "discover_python_files tree = sort_key (\<lambda>(p, f). path_text p) tree"

definition scan_directory :: "source_tree \<Rightarrow> string \<Rightarrow> exn + source_model" where
  "scan_directory tree pkg =
     bindE (mapE read_text (discover_python_files tree)) (\<lambda>files. build_source_model files pkg)"

section \<open>Relative imports\<close>

abbreviation dot_free :: "string list \<Rightarrow> bool" where
  "dot_free ps \<equiv> \<forall>p\<in>set ps. CHR ''.'' \<notin> set p"

lemma rsplit_head_join:
  "ps \<noteq> [] \<Longrightarrow> CHR ''.'' \<notin> set x \<Longrightarrow> rsplit_head (join ''.'' (ps @ [x])) = join ''.'' ps"
proof -
  assume "ps \<noteq> []" "CHR ''.'' \<notin> set x"
  moreover have "join ''.'' (ps @ [x]) = join ''.'' ps @ CHR ''.'' # x" if "ps \<noteq> []" for ps
    using that by (induction "''.''" ps rule: join.induct) auto
  moreover have "dropWhile (\<lambda>c. c \<noteq> CHR ''.'') (rev x @ CHR ''.'' # ys) = CHR ''.'' # ys" for ys
    using \<open>CHR ''.'' \<notin> set x\<close> by (subst dropWhile_append2) auto
  ultimately show ?thesis
    by (simp add: rsplit_head_def)
qed

lemma split_join_dots: "ps \<noteq> [] \<Longrightarrow> dot_free ps \<Longrightarrow> split_on (CHR ''.'') (join ''.'' ps) = ps"
  by (rule split_join)

lemma nat_one_plus: "nat (1 + int n) = Suc n"
  by simp

lemma join_not_empty: "ps \<noteq> [] \<Longrightarrow> '''' \<notin> set ps \<Longrightarrow> join sep ps \<noteq> ''''"
  by (induction sep ps rule: join.induct) auto

text \<open>
  Relative imports resolve to the module they name: from a package with components \<open>common @ rest\<close>
  the import of \<open>target\<close> with one dot more than \<open>rest\<close> is long resolves to \<open>common @ target\<close>; with
  more dots than the package has components nothing is resolved.
\<close>

theorem relative_import_resolves:
  assumes "common \<noteq> []" and "target \<noteq> []" and "dot_free (common @ rest @ target)"
    and "'''' \<notin> set target"
  shows "resolve_import_from (Some (join ''.'' target)) (Suc (length rest)) (join ''.'' (common @ rest))
           = Some (join ''.'' (common @ target)) \<and>
         resolve_import_from m (Suc (length (common @ rest))) (join ''.'' (common @ rest)) = None"
proof -
  have "split_on (CHR ''.'') (join ''.'' (common @ rest)) = common @ rest"
    "split_on (CHR ''.'') (join ''.'' target) = target" "join ''.'' target \<noteq> ''''"
    using assms join_not_empty[of target] by (auto intro!: split_join_dots)
  then show ?thesis
    using assms(1) by (cases common) (auto simp: resolve_import_from_def Let_def nat_one_plus)
qed

theorem relative_import_resolves_witness:
  "resolve_import_from (Some ''domain.models'') 2 ''r.application'' = Some ''r.domain.models'' \<and>
   resolve_import_from (Some ''x'') 3 ''r.application'' = None"
  using relative_import_resolves[of "[''r'']" "[''domain'', ''models'']" "[''application'']" "Some ''x''"]
  by (simp add: eval_nat_numeral)

text \<open>The module a file below a package defines lives in that package.\<close>

lemma package_of_module:
  assumes "module_name_for (dir @ [f]) pkg = (m, is_package)" and "CHR ''.'' \<notin> set (drop_suffix f)"
  shows "package_of m is_package = join ''.'' (pkg # dir)"
  using assms rsplit_head_join[of "pkg # dir" "drop_suffix f"]
  by (auto simp: module_name_for_def package_of_def Let_def split: if_splits)

section \<open>What the scanner does not see\<close>

definition scan_and_validate :: "source_tree \<Rightarrow> exn + bool" where
  "scan_and_validate tree =
     bindE (scan_directory tree ROOT_PACKAGE) (\<lambda>src.
     Inr (is_compliant (validate_source ARCHITECTURE_CURRENT src)))"

text \<open>\<open>domain/models.py\<close> that imports the infrastructure package, in four spellings.\<close>

definition domain_tree :: "import_node \<Rightarrow> source_tree" where
  "domain_tree n = [([''domain'', ''models.py''], Parsed [n]), ([''infrastructure'', ''__init__.py''], Parsed [])]"

lemma extract_no_imports: "extract_imports [] m is_package = []"
  by (simp add: extract_imports_def)

lemma scan_domain_tree:
  "scan_directory (domain_tree n) ''architecture_assistant'' =
     Inr \<lparr>model_imports =
        [(''architecture_assistant.domain.models'',
          extract_imports [n] ''architecture_assistant.domain.models'' False),
         (''architecture_assistant.infrastructure'', [])],
      model_root = ''architecture_assistant''\<rparr>"
  by (simp add: scan_directory_def domain_tree_def discover_python_files_def build_source_model_def
      path_text_def module_name_for_def drop_suffix_def extract_no_imports put_def)

lemma domain_tree_verdict:
  assumes "extract_imports [n] ''architecture_assistant.domain.models'' False = [t]"
  shows "scan_and_validate (domain_tree n) = Inr
    ((t = ''sqlite3'' \<longrightarrow> False) \<and>
     (case layer_of t ''architecture_assistant'' of None \<Rightarrow> True | Some l \<Rightarrow> l = '''' \<or> l = ''domain''))"
  by (auto simp: scan_and_validate_def ROOT_PACKAGE_def scan_domain_tree ARCHITECTURE_CURRENT_def
      v1_1_layered layered_def modules_def imports_of_def assms module_layer_def permits_def
      layer_of_def[of "''architecture_assistant.domain.models''"]
      layer_of_def[of "''architecture_assistant.infrastructure''"] starts_with_def
      KNOWN_LAYERS_def V1_KNOWN_LAYERS_def ALLOWED_IMPORTS_def V1_ALLOWED_IMPORTS_def layer_names
      SQLITE_MODULE_def split: option.splits if_splits)


end
