(* ===== verification/Capabilities.thy ===== *)
theory Capabilities
  imports Models Json
begin

text \<open>
  The message objects of \<open>ports/capabilities.py\<close> that cross the boundary to advisors, the cost
  ledger, plugins and notifiers, with the checks of their construction. The messages to the worker,
  the realization gate and the judge stand with the components that use them. Texts, counts and
  instants are typed, so the checks on Python types do not arise; a \<open>float\<close> is a rational.
\<close>

section \<open>Plugin capabilities\<close>

datatype plugin_capability =
    Cap_WORKER | Cap_ADVISOR | Cap_JUDGE | Cap_STORAGE | Cap_COST | Cap_REPORTING | Cap_NOTIFIER

primrec plugin_capability_value :: "plugin_capability \<Rightarrow> string" where
  "plugin_capability_value Cap_WORKER = ''worker''"
| "plugin_capability_value Cap_ADVISOR = ''advisor''"
| "plugin_capability_value Cap_JUDGE = ''judge''"
| "plugin_capability_value Cap_STORAGE = ''storage''"
| "plugin_capability_value Cap_COST = ''cost''"
| "plugin_capability_value Cap_REPORTING = ''reporting''"
| "plugin_capability_value Cap_NOTIFIER = ''notifier''"

definition plugin_capability_members :: "plugin_capability list" where
  "plugin_capability_members =
     [Cap_WORKER, Cap_ADVISOR, Cap_JUDGE, Cap_STORAGE, Cap_COST, Cap_REPORTING, Cap_NOTIFIER]"

interpretation plugin_capability_enum: str_enum plugin_capability_members plugin_capability_value
proof unfold_locales
  show "m \<in> set plugin_capability_members" for m
    by (cases m) (simp_all add: plugin_capability_members_def)
  show "distinct (map plugin_capability_value plugin_capability_members)"
    by (simp add: plugin_capability_members_def)
qed

declare plugin_capability_enum.coerce_value [simp]

section \<open>Checks\<close>

definition cap_text :: "string \<Rightarrow> exn + unit" where
  "cap_text s = requireE (\<not> is_blank s) ValueError"

definition cap_count :: "int \<Rightarrow> exn + unit" where
  "cap_count n = requireE (0 \<le> n) ValueError"

definition cap_money :: "rat \<Rightarrow> exn + unit" where
  "cap_money x = requireE (0 \<le> x) ValueError"

definition cap_optional_text :: "string option \<Rightarrow> exn + unit" where
  "cap_optional_text v = (case v of None \<Rightarrow> Inr () | Some s \<Rightarrow> cap_text s)"

definition cap_optional_positive_int :: "int option \<Rightarrow> exn + unit" where
  "cap_optional_positive_int v =
     (case v of None \<Rightarrow> Inr ()
      | Some n \<Rightarrow> bindE (cap_count n) (\<lambda>_. requireE (1 \<le> n) ValueError))"

lemma cap_checks [simp]:
  "cap_text s = Inr u \<longleftrightarrow> \<not> is_blank s"
  "cap_count n = Inr u \<longleftrightarrow> 0 \<le> n"
  "cap_money x = Inr u \<longleftrightarrow> 0 \<le> x"
  "cap_optional_text v = Inr u \<longleftrightarrow> (\<forall>s. v = Some s \<longrightarrow> \<not> is_blank s)"
  "cap_optional_positive_int o' = Inr u \<longleftrightarrow> (\<forall>k. o' = Some k \<longrightarrow> 1 \<le> k)"
  by (auto simp: cap_text_def cap_count_def cap_money_def cap_optional_text_def
      cap_optional_positive_int_def split: option.splits)

section \<open>Advisor queries and notifications\<close>

record advisor_query =
  query_question :: string
  query_context :: mapping
  query_step_no :: "int option"

definition mk_advisor_query :: "advisor_query \<Rightarrow> exn + advisor_query" where
  "mk_advisor_query q =
     bindE (cap_text (query_question q)) (\<lambda>_.
     bindE (cap_optional_positive_int (query_step_no q)) (\<lambda>_. Inr q))"

record notification =
  notification_level :: severity
  notification_title :: string
  notification_body :: string

definition mk_notification :: "notification \<Rightarrow> exn + notification" where
  "mk_notification n = bindE (cap_text (notification_title n)) (\<lambda>_. Inr n)"

definition notification_to_dict :: "notification \<Rightarrow> json" where
  "notification_to_dict n =
     JObj [(''level'', JStr (severity_value (notification_level n))),
       (''title'', JStr (notification_title n)), (''body'', JStr (notification_body n))]"

section \<open>Cost records, queries and summaries\<close>

record cost_record =
  cost_provider :: string
  cost_event_id :: string
  cost_model :: string
  cost_input_tokens :: int
  cost_output_tokens :: int
  cost_usd :: rat
  cost_pricing_known :: bool
  cost_project :: "string option"
  cost_step_no :: "int option"
  cost_created_at :: datetime

definition mk_cost_record :: "cost_record \<Rightarrow> exn + cost_record" where
  "mk_cost_record c =
     bindE (cap_text (cost_provider c)) (\<lambda>_.
     bindE (cap_text (cost_event_id c)) (\<lambda>_.
     bindE (cap_count (cost_input_tokens c)) (\<lambda>_.
     bindE (cap_count (cost_output_tokens c)) (\<lambda>_.
     bindE (cap_money (cost_usd c)) (\<lambda>_.
     bindE (cap_optional_text (cost_project c)) (\<lambda>_.
     bindE (cap_optional_positive_int (cost_step_no c)) (\<lambda>_.
     Inr c)))))))"

definition cost_record_to_dict :: "cost_record \<Rightarrow> json" where
  "cost_record_to_dict c =
     JObj [(''provider'', JStr (cost_provider c)), (''event_id'', JStr (cost_event_id c)),
       (''model'', JStr (cost_model c)), (''input_tokens'', JInt (cost_input_tokens c)),
       (''output_tokens'', JInt (cost_output_tokens c)), (''cost_usd'', JReal (cost_usd c)),
       (''pricing_known'', JBool (cost_pricing_known c)),
       (''project'', json_opt JStr (cost_project c)), (''step_no'', json_opt JInt (cost_step_no c)),
       (''created_at'', JTime (cost_created_at c))]"

record cost_query =
  cq_project :: "string option"
  cq_step_no :: "int option"
  cq_provider :: "string option"
  cq_from_time :: "datetime option"
  cq_to_time :: "datetime option"

definition mk_cost_query :: "cost_query \<Rightarrow> exn + cost_query" where
  "mk_cost_query q =
     bindE (cap_optional_text (cq_project q)) (\<lambda>_.
     bindE (cap_optional_positive_int (cq_step_no q)) (\<lambda>_.
     bindE (cap_optional_text (cq_provider q)) (\<lambda>_.
     bindE (requireE (case (cq_from_time q, cq_to_time q) of
                        (Some a, Some b) \<Rightarrow> a \<le> b | _ \<Rightarrow> True) ValueError) (\<lambda>_.
     Inr q))))"

definition cost_query_to_dict :: "cost_query \<Rightarrow> json" where
  "cost_query_to_dict q =
     JObj [(''project'', json_opt JStr (cq_project q)), (''step_no'', json_opt JInt (cq_step_no q)),
       (''provider'', json_opt JStr (cq_provider q)), (''from_time'', json_opt JTime (cq_from_time q)),
       (''to_time'', json_opt JTime (cq_to_time q))]"

text \<open>\<open>CostQuery.matches\<close>.\<close>

definition query_matches :: "cost_query \<Rightarrow> cost_record \<Rightarrow> bool" where
  "query_matches q c =
     (if cq_project q \<noteq> None \<and> cost_project c \<noteq> cq_project q then False
      else if cq_step_no q \<noteq> None \<and> cost_step_no c \<noteq> cq_step_no q then False
      else if cq_provider q \<noteq> None \<and> Some (cost_provider c) \<noteq> cq_provider q then False
      else if (case cq_from_time q of None \<Rightarrow> False | Some t \<Rightarrow> cost_created_at c < t) then False
      else if (case cq_to_time q of None \<Rightarrow> False | Some t \<Rightarrow> t < cost_created_at c) then False
      else True)"

record cost_summary =
  sum_total_usd :: rat
  sum_input_tokens :: int
  sum_output_tokens :: int
  sum_record_count :: int
  sum_priced :: int
  sum_unpriced :: int

definition mk_cost_summary :: "cost_summary \<Rightarrow> exn + cost_summary" where
  "mk_cost_summary s =
     bindE (cap_money (sum_total_usd s)) (\<lambda>_.
     bindE (cap_count (sum_input_tokens s)) (\<lambda>_.
     bindE (cap_count (sum_output_tokens s)) (\<lambda>_.
     bindE (cap_count (sum_record_count s)) (\<lambda>_.
     bindE (cap_count (sum_priced s)) (\<lambda>_.
     bindE (cap_count (sum_unpriced s)) (\<lambda>_.
     bindE (requireE (sum_priced s + sum_unpriced s = sum_record_count s) ValueError) (\<lambda>_.
     Inr s)))))))"

definition cost_summary_to_dict :: "cost_summary \<Rightarrow> json" where
  "cost_summary_to_dict s =
     JObj [(''total_usd'', JReal (sum_total_usd s)), (''input_tokens'', JInt (sum_input_tokens s)),
       (''output_tokens'', JInt (sum_output_tokens s)), (''record_count'', JInt (sum_record_count s)),
       (''priced_record_count'', JInt (sum_priced s)), (''unpriced_record_count'', JInt (sum_unpriced s))]"

text \<open>Python's \<open>round(x, 6)\<close> on an exact value: half to even at the sixth decimal.\<close>

definition round_half_even :: "rat \<Rightarrow> int" where
  "round_half_even x =
     (let f = \<lfloor>x\<rfloor>; d = x - of_int f in
      if d < 1 / 2 then f else if 1 / 2 < d then f + 1 else if even f then f else f + 1)"

definition round6 :: "rat \<Rightarrow> rat" where
  "round6 x = of_int (round_half_even (x * 1000000)) / 1000000"

lemma round6_nonneg: "0 \<le> x \<Longrightarrow> 0 \<le> round6 x"
proof -
  assume "0 \<le> x"
  then have "0 \<le> \<lfloor>x * 1000000\<rfloor>" by simp
  then show ?thesis by (simp add: round6_def round_half_even_def Let_def)
qed

lemma round6_close: "\<bar>round6 x - x\<bar> \<le> 1 / 2000000"
proof -
  let ?y = "x * 1000000"
  have f: "of_int \<lfloor>?y\<rfloor> \<le> ?y" "?y < of_int \<lfloor>?y\<rfloor> + 1"
    using floor_correct[of ?y] by simp_all
  have "\<bar>of_int (round_half_even ?y) - ?y\<bar> \<le> 1 / 2"
    using f by (auto simp: round_half_even_def Let_def abs_le_iff)
  then show ?thesis by (simp add: round6_def abs_le_iff field_simps)
qed

end
