(* ===== verification/Storage.thy ===== *)
theory Storage
  imports Adapters Scanner Capabilities
begin

text \<open>
  The source of truth as the application sees it (\<open>ports/storage.py\<close>, \<open>infrastructure/storage.py\<close>): one
  table of models per aggregate, the transaction boundary \<open>SqliteTransactionPort\<close> over the shared
  connection, and the repository operations the application calls. The state is the whole world the
  process acts on: the connection's view of the database and what is committed, the files of the
  worker's channel, the inspected source tree, and how often the injected clock was read.

  \<open>trail\<close> is not state of the program: it lists every situation (committed database, channel) the
  world has been in, that is, everything a crash could leave behind.
\<close>

section \<open>State\<close>

record db =
  db_projects :: "project list"
  db_steps :: "step list"
  db_tasks :: "task list"
  db_versions :: "architecture_version list"
  db_change_requests :: "change_request list"
  db_adrs :: "adr list"
  db_risks :: "risk list"
  db_findings :: "finding list"
  db_decisions :: "decision list"
  db_audit :: "audit_entry list"
  db_costs :: "cost_record list"

text \<open>A report file: unreadable, not UTF-8, not JSON, or the value \<open>json.loads\<close> gives.\<close>

datatype report_file = Unreadable | NotUtf8 | NotJson | Content json

text \<open>The worker's file channel by file name; writing to an \<open>unwritable\<close> name fails.\<close>

record channel =
  to_cline :: "string \<Rightarrow> json option"
  contexts :: "string \<Rightarrow> json option"
  from_cline :: "string \<Rightarrow> report_file option"
  archive :: "string \<Rightarrow> report_file option"
  unwritable :: "string \<Rightarrow> bool"

record world =
  live :: db
  durable :: db
  depth :: nat
  disk :: channel
  tree :: source_tree
  clock_reads :: nat
  trail :: "(db \<times> channel) list"

type_synonym 'a io = "(world, 'a) pm"

section \<open>Commits and transactions\<close>

definition observe :: "world \<Rightarrow> world" where
  "observe w = w\<lparr>trail := trail w @ [(durable w, disk w)]\<rparr>"

definition commit :: "world \<Rightarrow> world" where
  "commit w = observe (w\<lparr>durable := live w\<rparr>)"

text \<open>\<open>_execute_write\<close>: outside a transaction every write commits by itself.\<close>

definition execute_write :: "(db \<Rightarrow> db) \<Rightarrow> unit io" where
  "execute_write f = modifyM (\<lambda>w.
     let w' = w\<lparr>live := f (live w)\<rparr> in if depth w = 0 then commit w' else w')"

text \<open>\<open>with transaction(): body\<close>: nested scopes join the outermost one, which commits on success
  and rolls back on any exception.\<close>

definition transactionM :: "'a io \<Rightarrow> 'a io" where
  "transactionM body = (\<lambda>w.
     if 0 < depth w then
       (case body (w\<lparr>depth := depth w + 1\<rparr>) of (r, w') \<Rightarrow> (r, w'\<lparr>depth := depth w' - 1\<rparr>))
     else
       (case body (w\<lparr>depth := 1\<rparr>) of (r, w') \<Rightarrow>
         (case r of
            Inl e \<Rightarrow> (Inl e, w'\<lparr>live := durable w', depth := 0\<rparr>)
          | Inr a \<Rightarrow> (Inr a, commit (w'\<lparr>depth := 0\<rparr>)))))"

definition clockM :: "(nat \<Rightarrow> datetime) \<Rightarrow> datetime io" where
  "clockM clk =
     bindM (getsM clock_reads) (\<lambda>n.
     thenM (modifyM (\<lambda>w. w\<lparr>clock_reads := n + 1\<rparr>)) (returnM (clk n)))"

section \<open>Repository operations\<close>

definition list_projects :: "project list io" where
  "list_projects = getsM (\<lambda>w. sort_key project_name (db_projects (live w)))"

definition upsert_project :: "project \<Rightarrow> unit io" where
  "upsert_project p = execute_write (\<lambda>d. d\<lparr>db_projects := put project_name p (db_projects d)\<rparr>)"

definition list_steps :: "step list io" where
  "list_steps = getsM (\<lambda>w. sort_key step_no (db_steps (live w)))"

definition list_steps_by_state :: "step_state \<Rightarrow> step list io" where
  "list_steps_by_state st =
     getsM (\<lambda>w. sort_key step_no (filter (\<lambda>s. step_state s = st) (db_steps (live w))))"

definition get_step :: "int \<Rightarrow> step option io" where
  "get_step n = getsM (\<lambda>w. lookup step_no n (db_steps (live w)))"

definition upsert_step :: "step \<Rightarrow> unit io" where
  "upsert_step s = execute_write (\<lambda>d. d\<lparr>db_steps := put step_no s (db_steps d)\<rparr>)"

definition task_key :: "task \<Rightarrow> int \<times> int" where
  "task_key t = (task_step_no t, task_attempt t)"

definition get_task :: "int \<times> int \<Rightarrow> task option io" where
  "get_task k = getsM (\<lambda>w. lookup task_key k (db_tasks (live w)))"

text \<open>The foreign key \<open>tasks.step_no\<close> refuses a Task of an unknown Step.\<close>

definition upsert_task :: "task \<Rightarrow> unit io" where
  "upsert_task t =
     bindM (get_step (task_step_no t)) (\<lambda>s.
     if s = None then raiseM IntegrityError
     else execute_write (\<lambda>d. d\<lparr>db_tasks := put task_key t (db_tasks d)\<rparr>))"

definition list_versions :: "architecture_version list io" where
  "list_versions = getsM (\<lambda>w. sort_key av_version (db_versions (live w)))"

definition list_adrs :: "adr list io" where
  "list_adrs = getsM (\<lambda>w. sort_key adr_id (db_adrs (live w)))"

definition list_open_risks :: "risk list io" where
  "list_open_risks =
     getsM (\<lambda>w. sort_key risk_id (filter (\<lambda>r. risk_status r = Risk_OPEN) (db_risks (live w))))"

definition upsert_finding :: "finding \<Rightarrow> unit io" where
  "upsert_finding f = execute_write (\<lambda>d. d\<lparr>db_findings := put finding_id f (db_findings d)\<rparr>)"

definition upsert_decision :: "decision \<Rightarrow> unit io" where
  "upsert_decision x = execute_write (\<lambda>d. d\<lparr>db_decisions := put decision_id x (db_decisions d)\<rparr>)"

definition append_audit :: "audit_entry \<Rightarrow> unit io" where
  "append_audit e = execute_write (\<lambda>d. d\<lparr>db_audit := db_audit d @ [e]\<rparr>)"

definition get_adr :: "string \<Rightarrow> adr option io" where
  "get_adr k = getsM (\<lambda>w. lookup adr_id k (db_adrs (live w)))"

definition upsert_adr :: "adr \<Rightarrow> unit io" where
  "upsert_adr a = execute_write (\<lambda>d. d\<lparr>db_adrs := put adr_id a (db_adrs d)\<rparr>)"

definition get_risk :: "string \<Rightarrow> risk option io" where
  "get_risk k = getsM (\<lambda>w. lookup risk_id k (db_risks (live w)))"

definition upsert_risk :: "risk \<Rightarrow> unit io" where
  "upsert_risk r = execute_write (\<lambda>d. d\<lparr>db_risks := put risk_id r (db_risks d)\<rparr>)"

definition get_version :: "string \<Rightarrow> architecture_version option io" where
  "get_version k = getsM (\<lambda>w. lookup av_version k (db_versions (live w)))"

definition upsert_version :: "architecture_version \<Rightarrow> unit io" where
  "upsert_version v = execute_write (\<lambda>d. d\<lparr>db_versions := put av_version v (db_versions d)\<rparr>)"

definition get_request :: "string \<Rightarrow> change_request option io" where
  "get_request k = getsM (\<lambda>w. lookup acr_request_id k (db_change_requests (live w)))"

definition upsert_request :: "change_request \<Rightarrow> unit io" where
  "upsert_request r = execute_write (\<lambda>d. d\<lparr>db_change_requests := put acr_request_id r (db_change_requests d)\<rparr>)"

section \<open>Running the operations\<close>

lemma observe_simps [simp]:
  "live (observe w) = live w" "durable (observe w) = durable w" "depth (observe w) = depth w"
  "disk (observe w) = disk w" "tree (observe w) = tree w" "clock_reads (observe w) = clock_reads w"
  "trail (observe w) = trail w @ [(durable w, disk w)]"
  by (simp_all add: observe_def)

lemma commit_simps [simp]:
  "live (commit w) = live w" "durable (commit w) = live w" "depth (commit w) = depth w"
  "disk (commit w) = disk w" "tree (commit w) = tree w" "clock_reads (commit w) = clock_reads w"
  "trail (commit w) = trail w @ [(live w, disk w)]"
  by (simp_all add: commit_def)

lemma clockM_run [exec]: "clockM clk w = (Inr (clk (clock_reads w)), w\<lparr>clock_reads := clock_reads w + 1\<rparr>)"
  by (simp add: clockM_def exec)

lemma execute_write_run [exec]:
  "execute_write f w = (Inr (), if depth w = 0 then commit (w\<lparr>live := f (live w)\<rparr>) else w\<lparr>live := f (live w)\<rparr>)"
  by (simp add: execute_write_def exec Let_def)

lemmas repo_defs = list_projects_def upsert_project_def list_steps_def list_steps_by_state_def
  get_step_def upsert_step_def get_task_def upsert_task_def list_versions_def list_adrs_def
  list_open_risks_def upsert_finding_def upsert_decision_def append_audit_def
  get_adr_def upsert_adr_def get_risk_def upsert_risk_def get_version_def upsert_version_def
  get_request_def upsert_request_def

text \<open>The connection is at rest: no transaction is open and everything written is committed.\<close>

definition idle :: "world \<Rightarrow> bool" where
  "idle w \<longleftrightarrow> depth w = 0 \<and> live w = durable w"

lemma idle_commit [simp]: "depth w = 0 \<Longrightarrow> idle (commit w)"
  by (simp add: idle_def)

text \<open>A change that is committed at once unless a transaction is open.\<close>

definition settle :: "world \<Rightarrow> world" where
  "settle w = (if depth w = 0 then commit w else w)"

lemma settle_simps [simp]:
  "live (settle w) = live w" "depth (settle w) = depth w" "disk (settle w) = disk w" "tree (settle w) = tree w"
  "clock_reads (settle w) = clock_reads w"
  by (simp_all add: settle_def)

lemma settle_durable: "durable (settle w) = (if depth w = 0 then live w else durable w)"
  by (simp add: settle_def commit_def observe_def)

text \<open>An operation without its result.\<close>

definition forget :: "'a io \<Rightarrow> unit io" where
  "forget m = bindM m (\<lambda>_. returnM ())"

lemma forget_run: "forget m w = (case m w of (Inl e, w') \<Rightarrow> (Inl e, w') | (Inr a, w') \<Rightarrow> (Inr (), w'))"
  by (auto simp: forget_def exec split: prod.split sum.split)

lemma forgetE:
  assumes "forget m w = (r, w')"
  obtains res where "m w = (res, w')" "r = (case res of Inl e \<Rightarrow> Inl e | Inr a \<Rightarrow> Inr ())"
  using assms that by (cases "m w"; cases "fst (m w)") (auto simp: forget_run)

section \<open>Transactions are atomic\<close>

text \<open>
  A body that only works inside its scope: it leaves the committed database alone and returns with
  the scope still open, at the depth it was entered.
\<close>

definition scoped :: "'a io \<Rightarrow> bool" where
  "scoped body \<longleftrightarrow> (\<forall>w. 0 < depth w \<longrightarrow>
     depth (snd (body w)) = depth w \<and> durable (snd (body w)) = durable w)"

lemma scopedD: "scoped body \<Longrightarrow> 0 < depth w \<Longrightarrow> body w = (r, w') \<Longrightarrow> depth w' = depth w \<and> durable w' = durable w"
  by (metis scoped_def snd_conv)

lemma scoped_pure [intro, simp]:
  "scoped (returnM a)" "scoped (raiseM e)" "scoped (getsM f)" "scoped (liftE r)" "scoped (clockM clk)"
  by (simp_all add: scoped_def exec)

lemma scoped_write [intro, simp]: "scoped (execute_write f)"
  by (simp add: scoped_def exec)

lemma scoped_bind [intro]:
  assumes "scoped m" and "\<And>a. scoped (f a)"
  shows "scoped (bindM m f)"
  unfolding scoped_def
proof (intro allI impI)
  fix w :: world
  assume w: "0 < depth w"
  obtain r w' where m: "m w = (r, w')" by fastforce
  with assms(1) w have w': "depth w' = depth w \<and> durable w' = durable w" by (metis scopedD)
  show "depth (snd (bindM m f w)) = depth w \<and> durable (snd (bindM m f w)) = durable w"
  proof (cases r)
    case (Inl e)
    then show ?thesis using m w' by (simp add: exec)
  next
    case (Inr a)
    then have "bindM m f w = f a w'" using m by (simp add: exec)
    then show ?thesis using assms(2)[of a] w w' by (auto simp: scoped_def)
  qed
qed

lemma scoped_then [intro]: "scoped m \<Longrightarrow> scoped n \<Longrightarrow> scoped (thenM m n)"
  by (auto simp: thenM_def)

lemma scoped_for [intro]: "(\<And>x. scoped (f x)) \<Longrightarrow> scoped (forM xs f)"
  by (induction xs) auto

lemma scoped_if [intro]: "scoped m \<Longrightarrow> scoped n \<Longrightarrow> scoped (if b then m else n)"
  by simp

lemma scoped_catch [intro]:
  assumes "scoped m" and "\<And>e. scoped (h e)"
  shows "scoped (catchM m h)"
  unfolding scoped_def
proof (intro allI impI)
  fix w :: world
  assume w: "0 < depth w"
  obtain r w' where m: "m w = (r, w')" by fastforce
  with assms(1) w have w': "depth w' = depth w \<and> durable w' = durable w" by (metis scopedD)
  show "depth (snd (catchM m h w)) = depth w \<and> durable (snd (catchM m h w)) = durable w"
    using m w w' assms(2) by (cases r) (auto simp: exec scoped_def)
qed

lemma scoped_transaction [intro]:
  assumes "scoped body"
  shows "scoped (transactionM body)"
  unfolding scoped_def
proof (intro allI impI)
  fix w :: world
  assume w: "0 < depth w"
  obtain r w' where b: "body (w\<lparr>depth := depth w + 1\<rparr>) = (r, w')" by fastforce
  then have "depth w' = depth w + 1 \<and> durable w' = durable w"
    using scopedD[OF assms _ b] by simp
  then show "depth (snd (transactionM body w)) = depth w \<and> durable (snd (transactionM body w)) = durable w"
    using w b by (simp add: transactionM_def)
qed

lemma scoped_repo [intro, simp]:
  "scoped list_projects" "scoped (upsert_project p)" "scoped list_steps" "scoped (list_steps_by_state st)"
  "scoped (get_step n)" "scoped (upsert_step s)" "scoped (get_task k)" "scoped (upsert_task t)"
  "scoped list_versions" "scoped list_adrs" "scoped list_open_risks" "scoped (upsert_finding f)"
  "scoped (upsert_decision x)" "scoped (append_audit e)"
  "scoped (get_adr i)" "scoped (upsert_adr a)" "scoped (get_risk i)" "scoped (upsert_risk r)"
  "scoped (get_version i)" "scoped (upsert_version v)" "scoped (get_request i)" "scoped (upsert_request q)"
  unfolding repo_defs by (auto intro!: scoped_bind scoped_if)

lemma transaction_idle:
  assumes "idle w" and "scoped body"
  obtains r w' where "body (w\<lparr>depth := 1\<rparr>) = (r, w')" "durable w' = durable w" "depth w' = 1"
    "transactionM body w = (r, case r of Inl e \<Rightarrow> w'\<lparr>live := durable w, depth := 0\<rparr>
                                       | Inr a \<Rightarrow> commit (w'\<lparr>depth := 0\<rparr>))"
proof -
  obtain r w' where b: "body (w\<lparr>depth := 1\<rparr>) = (r, w')" by fastforce
  then have "depth w' = 1 \<and> durable w' = durable w"
    using scopedD[OF assms(2) _ b] by simp
  then show thesis
    using that b assms(1) by (auto simp: transactionM_def idle_def split: sum.splits)
qed

text \<open>
  C37: Transactions are atomic: run from rest, a transaction whose body raises leaves the database as
  it was, one whose body returns commits exactly what the body wrote, and the connection is at rest
  again. A nested transaction that succeeds inside one that raises afterwards commits nothing.
\<close>

theorem transaction_atomic:
  assumes "idle w" and "scoped body" and "scoped inner" and "transactionM body w = (r, w')"
  shows "idle w' \<and>
    live w' = (case r of Inl e \<Rightarrow> live w | Inr a \<Rightarrow> live (snd (body (w\<lparr>depth := 1\<rparr>)))) \<and>
    live (snd (transactionM (thenM (transactionM inner) (raiseM e :: unit io)) w)) = live w"
proof -
  obtain t v where b: "body (w\<lparr>depth := 1\<rparr>) = (t, v)" "durable v = durable w" "depth v = 1"
    "transactionM body w = (t, case t of Inl e \<Rightarrow> v\<lparr>live := durable w, depth := 0\<rparr>
       | Inr a \<Rightarrow> commit (v\<lparr>depth := 0\<rparr>))"
    using transaction_idle[OF assms(1,2)] by metis
  have first: "idle w' \<and> live w' = (case r of Inl e \<Rightarrow> live w | Inr a \<Rightarrow> live (snd (body (w\<lparr>depth := 1\<rparr>))))"
    using assms(1,4) b by (cases t) (auto simp: idle_def)
  let ?outer = "thenM (transactionM inner) (raiseM e :: unit io)"
  have "scoped ?outer" using assms(3) by auto
  then obtain t v where o: "?outer (w\<lparr>depth := 1\<rparr>) = (t, v)"
    "transactionM ?outer w = (t, case t of Inl e \<Rightarrow> v\<lparr>live := durable w, depth := 0\<rparr>
       | Inr a \<Rightarrow> commit (v\<lparr>depth := 0\<rparr>))"
    using transaction_idle[OF assms(1)] by metis
  then obtain e' where "t = Inl e'"
    by (auto simp: exec split: prod.splits sum.splits)
  then have "live (snd (transactionM ?outer w)) = live w"
    using o(2) assms(1) by (simp add: idle_def)
  with first show ?thesis by blast
qed

text \<open>An empty database and a channel without files: where the witnesses start.\<close>

definition empty_db :: db where
  "empty_db = \<lparr>db_projects = [], db_steps = [], db_tasks = [], db_versions = [], db_change_requests = [],
     db_adrs = [], db_risks = [], db_findings = [], db_decisions = [], db_audit = [], db_costs = []\<rparr>"

definition empty_channel :: channel where
  "empty_channel = \<lparr>to_cline = Map.empty, contexts = Map.empty, from_cline = Map.empty,
     archive = Map.empty, unwritable = (\<lambda>_. False)\<rparr>"

definition world_with :: "db \<Rightarrow> channel \<Rightarrow> source_tree \<Rightarrow> world" where
  "world_with d c t = \<lparr>live = d, durable = d, depth = 0, disk = c, tree = t, clock_reads = 0, trail = []\<rparr>"

lemma idle_world_with [simp]: "idle (world_with d c t)"
  by (simp add: idle_def world_with_def)

theorem transaction_atomic_witness:
  "\<exists>e. live (snd (transactionM (append_audit e) (world_with empty_db empty_channel [])))
         = empty_db\<lparr>db_audit := [e]\<rparr> \<and>
       live (snd (transactionM (thenM (transactionM (append_audit e)) (raiseM ValueError :: unit io))
         (world_with empty_db empty_channel []))) = empty_db"
proof -
  let ?w = "world_with empty_db empty_channel []"
  let ?e = "\<lparr>entry_entity_type = Entity_STEP, entry_entity_id = ''1'', entry_action = Act_UPDATE,
     entry_detail = [], entry_created_at = 0\<rparr>"
  have "transactionM (append_audit ?e) ?w = (Inr (), snd (transactionM (append_audit ?e) ?w))"
    by (simp add: transactionM_def append_audit_def exec world_with_def)
  from transaction_atomic[OF idle_world_with scoped_repo(14) scoped_repo(14) this, of ?e ValueError]
  show ?thesis
    by (intro exI[of _ ?e]) (simp add: append_audit_def exec world_with_def empty_db_def)
qed

end
