(* ===== verification/Fsm.thy ===== *)
theory Fsm
  imports Enums
begin

text \<open>
  The finite state machines of \<open>domain/fsm.py\<close>: the class \<open>FiniteStateMachine\<close> over a transition
  table, and its subclasses for Steps and Tasks. A machine object is its current state; an
  operation that mutates it is a computation over that state. The locale \<open>table_machine\<close> holds
  what every table the class accepts guarantees, and both subclasses interpret it.
\<close>

section \<open>The machine class\<close>

text \<open>The class attributes a subclass declares.\<close>

record ('s, 'e) fsm_class =
  TRANSITIONS :: "(('s \<times> 'e) \<times> 's) list"
  STATES :: "'s list"
  EVENTS :: "'e list"
  EVENT_VALUE :: "'e \<Rightarrow> string"
  TERMINAL_STATES :: "'s list"
  INITIAL_STATE :: 's

text \<open>An event argument is a member of the event enumeration or any other \<open>str\<close>.\<close>

datatype 'e event_arg = Member 'e | Text string

definition check_state :: "('s, 'e) fsm_class \<Rightarrow> 's \<Rightarrow> exn + 's" where
  "check_state M s = (if s \<in> set (STATES M) then Inr s else Inl ValueError)"

fun resolve_event :: "('s, 'e) fsm_class \<Rightarrow> 'e event_arg \<Rightarrow> exn + 'e" where
  "resolve_event M (Member e) = Inr e"
| "resolve_event M (Text s) = coerce_enum (EVENTS M) (EVENT_VALUE M) s"

fun validate_entries :: "'s list \<Rightarrow> (('s \<times> 'e) \<times> 's) list \<Rightarrow> exn + unit" where
  "validate_entries ss [] = Inr ()"
| "validate_entries ss (((s, e), t) # ts) =
     (if s \<notin> set ss then Inl ValueError
      else if t \<notin> set ss then Inl ValueError
      else validate_entries ss ts)"

definition validate_transitions :: "('s, 'e) fsm_class \<Rightarrow> exn + unit" where
  "validate_transitions M = validate_entries (STATES M) (TRANSITIONS M)"

text \<open>\<open>Machine(initial_state)\<close>: the table is validated, then the state is checked.\<close>

definition new_machine :: "('s, 'e) fsm_class \<Rightarrow> 's option \<Rightarrow> exn + 's" where
  "new_machine M init =
     bindE (validate_transitions M) (\<lambda>_.
     check_state M (case init of None \<Rightarrow> INITIAL_STATE M | Some s \<Rightarrow> s))"

definition allowed_events :: "('s, 'e) fsm_class \<Rightarrow> 's \<Rightarrow> 'e list" where
  "allowed_events M s = filter (\<lambda>e. map_of (TRANSITIONS M) (s, e) \<noteq> None) (EVENTS M)"

definition is_terminal :: "('s, 'e) fsm_class \<Rightarrow> 's \<Rightarrow> bool" where
  "is_terminal M s = (s \<in> set (TERMINAL_STATES M))"

definition next_state :: "('s, 'e) fsm_class \<Rightarrow> 's \<Rightarrow> 'e event_arg \<Rightarrow> exn + 's" where
  "next_state M s a =
     bindE (resolve_event M a) (\<lambda>e.
     (case map_of (TRANSITIONS M) (s, e) of
        None \<Rightarrow> Inl InvalidTransitionError
      | Some t \<Rightarrow> Inr t))"

definition can_event :: "('s, 'e) fsm_class \<Rightarrow> 's \<Rightarrow> 'e event_arg \<Rightarrow> bool" where
  "can_event M s a =
     (case resolve_event M a of
        Inl _ \<Rightarrow> False
      | Inr e \<Rightarrow> map_of (TRANSITIONS M) (s, e) \<noteq> None)"

definition apply_event :: "('s, 'e) fsm_class \<Rightarrow> 'e event_arg \<Rightarrow> ('s, 's) pm" where
  "apply_event M a =
     bindM (getsM id) (\<lambda>s.
     bindM (liftE (next_state M s a)) (\<lambda>t.
     thenM (modifyM (\<lambda>_. t)) (returnM t)))"

definition apply_many :: "('s, 'e) fsm_class \<Rightarrow> 'e event_arg list \<Rightarrow> ('s, 's) pm" where
  "apply_many M as =
     thenM (forM as (\<lambda>a. thenM (apply_event M a) (returnM ()))) (getsM id)"

definition reset_machine :: "('s, 'e) fsm_class \<Rightarrow> 's option \<Rightarrow> ('s, 's) pm" where
  "reset_machine M init =
     bindM (liftE (check_state M (case init of None \<Rightarrow> INITIAL_STATE M | Some s \<Rightarrow> s))) (\<lambda>t.
     thenM (modifyM (\<lambda>_. t)) (returnM t))"

lemma apply_event_run:
  "apply_event M a s = (case next_state M s a of Inl e \<Rightarrow> (Inl e, s) | Inr t \<Rightarrow> (Inr t, t))"
  by (simp add: apply_event_def exec split: sum.splits)

lemma apply_many_Nil [simp]: "apply_many M [] s = (Inr s, s)"
  by (simp add: apply_many_def exec)

lemma apply_many_Cons:
  "apply_many M (a # as) s =
     (case next_state M s a of Inl e \<Rightarrow> (Inl e, s) | Inr t \<Rightarrow> apply_many M as t)"
  by (simp add: apply_many_def exec apply_event_run split: sum.splits prod.splits)

lemma apply_many_append:
  "apply_many M (as @ bs) s =
     (case apply_many M as s of (Inl e, t) \<Rightarrow> (Inl e, t) | (Inr _, t) \<Rightarrow> apply_many M bs t)"
  by (induction as arbitrary: s) (auto simp: apply_many_Cons split: sum.splits)

lemma apply_many_state: "apply_many M as s = (Inr t, u) \<Longrightarrow> u = t"
  by (induction as arbitrary: s) (auto simp: apply_many_Cons split: sum.splits)

lemma apply_many_snoc_iff:
  "apply_many M (as @ [a]) s = (Inr t, u) \<longleftrightarrow>
     u = t \<and> (\<exists>v. apply_many M as s = (Inr v, v) \<and> next_state M v a = Inr t)"
  by (auto simp: apply_many_append apply_many_Cons split: sum.splits prod.splits
      dest: apply_many_state)

section \<open>What a well-formed table guarantees\<close>

locale table_machine =
  fixes M :: "('s, 'e) fsm_class"
  assumes states_complete: "s \<in> set (STATES M)"
    and events_complete: "e \<in> set (EVENTS M)"
    and values_distinct: "distinct (map (EVENT_VALUE M) (EVENTS M))"
    and keys_distinct: "distinct (map fst (TRANSITIONS M))"
    and terminal_iff: "s \<in> set (TERMINAL_STATES M) \<longleftrightarrow> (\<forall>k\<in>set (TRANSITIONS M). fst (fst k) \<noteq> s)"
begin

sublocale event_enum: str_enum "EVENTS M" "EVENT_VALUE M"
  by unfold_locales (auto simp: events_complete values_distinct)

lemma validate_ok: "validate_transitions M = Inr ()"
proof -
  have "validate_entries (STATES M) ts = Inr ()" for ts
    by (induction ts) (auto simp: states_complete)
  then show ?thesis by (simp add: validate_transitions_def)
qed

lemma new_machine_ok: "new_machine M (Some s) = Inr s"
  by (simp add: new_machine_def validate_ok check_state_def states_complete)

lemma next_iff: "next_state M s (Member e) = Inr t \<longleftrightarrow> ((s, e), t) \<in> set (TRANSITIONS M)"
  using keys_distinct
  by (auto simp: next_state_def split: option.splits dest: eq_key_imp_eq_value map_of_SomeD)

lemma next_error: "next_state M s (Member e) = Inl x \<Longrightarrow> x = InvalidTransitionError"
  by (auto simp: next_state_def split: option.splits)

lemma next_text: "next_state M s (Text (EVENT_VALUE M e)) = next_state M s (Member e)"
  by (simp add: next_state_def event_enum.coerce_value)

lemma allowed_iff: "e \<in> set (allowed_events M s) \<longleftrightarrow> (\<exists>t. next_state M s (Member e) = Inr t)"
  by (auto simp: allowed_events_def next_state_def events_complete split: option.splits)

lemma can_iff: "can_event M s (Member e) \<longleftrightarrow> (\<exists>t. next_state M s (Member e) = Inr t)"
  by (auto simp: can_event_def next_state_def split: option.splits)

lemma terminal_allowed: "is_terminal M s \<longleftrightarrow> allowed_events M s = []"
proof -
  have "allowed_events M s = [] \<longleftrightarrow> (\<forall>e t. next_state M s (Member e) \<noteq> Inr t)"
    using allowed_iff by (metis list.set_intros(1) neq_Nil_conv empty_iff list.set(1))
  then show ?thesis
    by (force simp: is_terminal_def terminal_iff next_iff)
qed

lemma terminal_stuck:
  "is_terminal M s \<Longrightarrow> apply_many M (map Member es) s = (Inr t, t) \<Longrightarrow> es = [] \<and> t = s"
  by (cases es) (auto simp: apply_many_Cons is_terminal_def terminal_iff next_iff
      split: sum.splits)

end

section \<open>The Step machine\<close>

definition STEP_TERMINAL_STATES :: "step_state list" where
  "STEP_TERMINAL_STATES = [Step_VERIFIED, Step_ABORTED]"

definition STEP_TRANSITIONS :: "((step_state \<times> step_event) \<times> step_state) list" where
  "STEP_TRANSITIONS =
    [((Step_PENDING, Ev_PREPARE), Step_READY),
     ((Step_READY, Ev_REQUEST_APPROVAL), Step_WAITING_APPROVAL),
     ((Step_READY, Ev_DISPATCH), Step_DISPATCHED),
     ((Step_WAITING_APPROVAL, Ev_REJECT), Step_READY),
     ((Step_WAITING_APPROVAL, Ev_APPROVE), Step_DISPATCHED),
     ((Step_WAITING_APPROVAL, Ev_BLOCK), Step_BLOCKED),
     ((Step_WAITING_APPROVAL, Ev_ABORT), Step_ABORTED),
     ((Step_DISPATCHED, Ev_CLINE_START), Step_CLINE_WORKING),
     ((Step_DISPATCHED, Ev_RECEIVE_REPORT), Step_REPORT_RECEIVED),
     ((Step_DISPATCHED, Ev_FAIL), Step_FAILED),
     ((Step_DISPATCHED, Ev_BLOCK), Step_BLOCKED),
     ((Step_CLINE_WORKING, Ev_RECEIVE_REPORT), Step_REPORT_RECEIVED),
     ((Step_CLINE_WORKING, Ev_FAIL), Step_FAILED),
     ((Step_CLINE_WORKING, Ev_BLOCK), Step_BLOCKED),
     ((Step_REPORT_RECEIVED, Ev_START_REVIEW), Step_REVIEWING),
     ((Step_REVIEWING, Ev_VERIFY), Step_VERIFIED),
     ((Step_REVIEWING, Ev_REQUEST_REVISE), Step_REVISE),
     ((Step_REVIEWING, Ev_BLOCK), Step_BLOCKED),
     ((Step_REVIEWING, Ev_RAISE_CONFLICT), Step_CONFLICT),
     ((Step_REVISE, Ev_RETRY), Step_READY),
     ((Step_BLOCKED, Ev_UNBLOCK), Step_READY),
     ((Step_BLOCKED, Ev_ABORT), Step_ABORTED),
     ((Step_CONFLICT, Ev_RESOLVE), Step_READY),
     ((Step_CONFLICT, Ev_BLOCK), Step_BLOCKED),
     ((Step_CONFLICT, Ev_ABORT), Step_ABORTED),
     ((Step_FAILED, Ev_RETRY), Step_READY),
     ((Step_FAILED, Ev_ABORT), Step_ABORTED)]"

definition StepStateMachine :: "(step_state, step_event) fsm_class" where
  "StepStateMachine =
    \<lparr>TRANSITIONS = STEP_TRANSITIONS, STATES = step_state_members, EVENTS = step_event_members,
     EVENT_VALUE = step_event_value, TERMINAL_STATES = STEP_TERMINAL_STATES,
     INITIAL_STATE = Step_PENDING\<rparr>"

text \<open>\<open>StepStateMachine.from_step(step).next_state(event)\<close>.\<close>

definition step_next :: "step_state \<Rightarrow> step_event \<Rightarrow> exn + step_state" where
  "step_next s e =
     bindE (new_machine StepStateMachine (Some s)) (\<lambda>m. next_state StepStateMachine m (Member e))"

interpretation step_fsm: table_machine StepStateMachine
proof unfold_locales
  show "s \<in> set (STATES StepStateMachine)" for s
    by (simp add: StepStateMachine_def step_state_enum.complete)
  show "e \<in> set (EVENTS StepStateMachine)" for e
    by (simp add: StepStateMachine_def step_event_enum.complete)
  show "distinct (map (EVENT_VALUE StepStateMachine) (EVENTS StepStateMachine))"
    by (simp add: StepStateMachine_def step_event_enum.distinct_values)
  show "distinct (map fst (TRANSITIONS StepStateMachine))"
    by (simp add: StepStateMachine_def STEP_TRANSITIONS_def)
  show "s \<in> set (TERMINAL_STATES StepStateMachine) \<longleftrightarrow>
      (\<forall>k\<in>set (TRANSITIONS StepStateMachine). fst (fst k) \<noteq> s)" for s
    by (cases s) (simp_all add: StepStateMachine_def STEP_TRANSITIONS_def STEP_TERMINAL_STATES_def)
qed

lemma step_next_eq: "step_next s e = next_state StepStateMachine s (Member e)"
  by (simp add: step_next_def step_fsm.new_machine_ok)

lemma step_next_iff: "step_next s e = Inr t \<longleftrightarrow> ((s, e), t) \<in> set STEP_TRANSITIONS"
  unfolding step_next_eq step_fsm.next_iff by (simp add: StepStateMachine_def)

lemma step_next_error: "step_next s e = Inl x \<Longrightarrow> x = InvalidTransitionError"
  by (simp add: step_next_eq step_fsm.next_error)

lemma step_next_illegal: "\<nexists>t. ((s, e), t) \<in> set STEP_TRANSITIONS \<Longrightarrow> step_next s e = Inl InvalidTransitionError"
  by (metis step_next_error step_next_iff sum.exhaust)

lemma step_next_into:
  "step_next s e = Inr Step_VERIFIED \<longleftrightarrow> s = Step_REVIEWING \<and> e = Ev_VERIFY"
  "step_next s e = Inr Step_REVIEWING \<longleftrightarrow> s = Step_REPORT_RECEIVED \<and> e = Ev_START_REVIEW"
  "step_next s e = Inr Step_REPORT_RECEIVED \<longleftrightarrow>
     (s = Step_DISPATCHED \<or> s = Step_CLINE_WORKING) \<and> e = Ev_RECEIVE_REPORT"
  "step_next s e = Inr Step_CLINE_WORKING \<longleftrightarrow> s = Step_DISPATCHED \<and> e = Ev_CLINE_START"
  "step_next s e = Inr Step_DISPATCHED \<longleftrightarrow>
     (s = Step_READY \<and> e = Ev_DISPATCH) \<or> (s = Step_WAITING_APPROVAL \<and> e = Ev_APPROVE)"
  "step_next s e = Inr Step_REVISE \<longleftrightarrow> s = Step_REVIEWING \<and> e = Ev_REQUEST_REVISE"
  "step_next s e \<noteq> Inr Step_PENDING"
  by (auto simp: step_next_iff STEP_TRANSITIONS_def)

lemma step_next_from_verified: "step_next Step_VERIFIED e = Inl InvalidTransitionError"
  by (rule step_next_illegal) (simp add: STEP_TRANSITIONS_def)

text \<open>The legal look-ups, as rewrite rules for the handlers that perform them.\<close>

lemma step_next_legal [simp]:
  "step_next Step_PENDING Ev_PREPARE = Inr Step_READY"
  "step_next Step_READY Ev_REQUEST_APPROVAL = Inr Step_WAITING_APPROVAL"
  "step_next Step_READY Ev_DISPATCH = Inr Step_DISPATCHED"
  "step_next Step_WAITING_APPROVAL Ev_REJECT = Inr Step_READY"
  "step_next Step_WAITING_APPROVAL Ev_APPROVE = Inr Step_DISPATCHED"
  "step_next Step_DISPATCHED Ev_CLINE_START = Inr Step_CLINE_WORKING"
  "step_next Step_DISPATCHED Ev_RECEIVE_REPORT = Inr Step_REPORT_RECEIVED"
  "step_next Step_CLINE_WORKING Ev_RECEIVE_REPORT = Inr Step_REPORT_RECEIVED"
  "step_next Step_DISPATCHED Ev_FAIL = Inr Step_FAILED"
  "step_next Step_CLINE_WORKING Ev_FAIL = Inr Step_FAILED"
  "step_next Step_REPORT_RECEIVED Ev_START_REVIEW = Inr Step_REVIEWING"
  "step_next Step_REVIEWING Ev_VERIFY = Inr Step_VERIFIED"
  "step_next Step_REVIEWING Ev_REQUEST_REVISE = Inr Step_REVISE"
  "step_next Step_REVIEWING Ev_BLOCK = Inr Step_BLOCKED"
  "step_next Step_REVISE Ev_RETRY = Inr Step_READY"
  "step_next Step_FAILED Ev_RETRY = Inr Step_READY"
  "step_next Step_FAILED Ev_ABORT = Inr Step_ABORTED"
  by (simp_all add: step_next_iff STEP_TRANSITIONS_def)

section \<open>The Task machine\<close>

definition TASK_TERMINAL_STATES :: "task_state list" where
  "TASK_TERMINAL_STATES = [Task_REPORTED, Task_FAILED]"

definition TASK_TRANSITIONS :: "((task_state \<times> task_event) \<times> task_state) list" where
  "TASK_TRANSITIONS =
    [((Task_CREATED, TaskEv_DISPATCH), Task_DISPATCHED),
     ((Task_DISPATCHED, TaskEv_RECEIVE_REPORT), Task_REPORTED),
     ((Task_DISPATCHED, TaskEv_FAIL), Task_FAILED)]"

definition TaskStateMachine :: "(task_state, task_event) fsm_class" where
  "TaskStateMachine =
    \<lparr>TRANSITIONS = TASK_TRANSITIONS, STATES = task_state_members, EVENTS = task_event_members,
     EVENT_VALUE = task_event_value, TERMINAL_STATES = TASK_TERMINAL_STATES,
     INITIAL_STATE = Task_CREATED\<rparr>"

definition task_next :: "task_state \<Rightarrow> task_event \<Rightarrow> exn + task_state" where
  "task_next s e =
     bindE (new_machine TaskStateMachine (Some s)) (\<lambda>m. next_state TaskStateMachine m (Member e))"

interpretation task_fsm: table_machine TaskStateMachine
proof unfold_locales
  show "s \<in> set (STATES TaskStateMachine)" for s
    by (simp add: TaskStateMachine_def task_state_enum.complete)
  show "e \<in> set (EVENTS TaskStateMachine)" for e
    by (simp add: TaskStateMachine_def task_event_enum.complete)
  show "distinct (map (EVENT_VALUE TaskStateMachine) (EVENTS TaskStateMachine))"
    by (simp add: TaskStateMachine_def task_event_enum.distinct_values)
  show "distinct (map fst (TRANSITIONS TaskStateMachine))"
    by (simp add: TaskStateMachine_def TASK_TRANSITIONS_def)
  show "s \<in> set (TERMINAL_STATES TaskStateMachine) \<longleftrightarrow>
      (\<forall>k\<in>set (TRANSITIONS TaskStateMachine). fst (fst k) \<noteq> s)" for s
    by (cases s) (simp_all add: TaskStateMachine_def TASK_TRANSITIONS_def TASK_TERMINAL_STATES_def)
qed

lemma task_next_eq: "task_next s e = next_state TaskStateMachine s (Member e)"
  by (simp add: task_next_def task_fsm.new_machine_ok)

lemma task_next_iff: "task_next s e = Inr t \<longleftrightarrow> ((s, e), t) \<in> set TASK_TRANSITIONS"
  unfolding task_next_eq task_fsm.next_iff by (simp add: TaskStateMachine_def)

lemma task_next_error: "task_next s e = Inl x \<Longrightarrow> x = InvalidTransitionError"
  by (simp add: task_next_eq task_fsm.next_error)

lemma task_next_dispatch [simp]: "task_next Task_CREATED TaskEv_DISPATCH = Inr Task_DISPATCHED"
  by (simp add: task_next_iff TASK_TRANSITIONS_def)

section \<open>Properties of the Step workflow\<close>

lemma step_run_snoc:
  "apply_many StepStateMachine (map Member (es @ [e])) s = (Inr t, u) \<longleftrightarrow>
     u = t \<and> (\<exists>v. apply_many StepStateMachine (map Member es) s = (Inr v, v) \<and> step_next v e = Inr t)"
  by (simp add: apply_many_snoc_iff step_next_eq)

lemma step_run_last:
  assumes "apply_many StepStateMachine (map Member es) s = (Inr t, u)" and "s \<noteq> t"
  obtains es' e v where "es = es' @ [e]"
    and "apply_many StepStateMachine (map Member es') s = (Inr v, v)" and "step_next v e = Inr t"
proof (cases es rule: rev_cases)
  case Nil
  with assms show thesis by simp
next
  case (snoc es' e)
  with assms(1) that show thesis by (auto simp: step_run_snoc simp del: map_append)
qed

lemma dispatched_after_dispatch:
  assumes "apply_many StepStateMachine (map Member es) Step_PENDING = (Inr v, v)"
    and "v = Step_DISPATCHED \<or> v = Step_CLINE_WORKING"
  shows "Ev_DISPATCH \<in> set es \<or> Ev_APPROVE \<in> set es"
proof -
  have dispatched: "Ev_DISPATCH \<in> set ds \<or> Ev_APPROVE \<in> set ds"
    if "apply_many StepStateMachine (map Member ds) Step_PENDING = (Inr Step_DISPATCHED, u)" for ds u
    using that by (rule step_run_last) (auto simp: step_next_into)
  show ?thesis
  proof (cases "v = Step_DISPATCHED")
    case True
    with assms(1) dispatched show ?thesis by blast
  next
    case False
    with assms have "apply_many StepStateMachine (map Member es) Step_PENDING
        = (Inr Step_CLINE_WORKING, Step_CLINE_WORKING)" by simp
    then obtain ds where "es = ds @ [Ev_CLINE_START]"
      "apply_many StepStateMachine (map Member ds) Step_PENDING = (Inr Step_DISPATCHED, Step_DISPATCHED)"
      by (rule step_run_last) (auto simp: step_next_into)
    then show ?thesis using dispatched by auto
  qed
qed

text \<open>
  C32: A step cannot reach \<open>VERIFIED\<close> without a dispatch and a reviewed report: every sequence of
  events the Step machine accepts from \<open>PENDING\<close> up to \<open>VERIFIED\<close> ends with receiving a report,
  starting the review and the \<open>VERIFY\<close> event, and dispatches (or is approved) before that.
\<close>

theorem verified_needs_dispatch_and_review:
  assumes "apply_many StepStateMachine (map Member es) Step_PENDING = (Inr Step_VERIFIED, u)"
  shows "\<exists>es'. es = es' @ [Ev_RECEIVE_REPORT, Ev_START_REVIEW, Ev_VERIFY] \<and>
           (Ev_DISPATCH \<in> set es' \<or> Ev_APPROVE \<in> set es')"
proof -
  from assms obtain es1 where 1: "es = es1 @ [Ev_VERIFY]"
    "apply_many StepStateMachine (map Member es1) Step_PENDING = (Inr Step_REVIEWING, Step_REVIEWING)"
    by (rule step_run_last) (auto simp: step_next_into)
  from 1(2) obtain es2 where 2: "es1 = es2 @ [Ev_START_REVIEW]"
    "apply_many StepStateMachine (map Member es2) Step_PENDING
       = (Inr Step_REPORT_RECEIVED, Step_REPORT_RECEIVED)"
    by (rule step_run_last) (auto simp: step_next_into)
  from 2(2) obtain es3 v where 3: "es2 = es3 @ [Ev_RECEIVE_REPORT]"
    "apply_many StepStateMachine (map Member es3) Step_PENDING = (Inr v, v)"
    "v = Step_DISPATCHED \<or> v = Step_CLINE_WORKING"
    by (rule step_run_last) (auto simp: step_next_into)
  have "Ev_DISPATCH \<in> set es3 \<or> Ev_APPROVE \<in> set es3"
    using dispatched_after_dispatch 3(2,3) by blast
  with 1 2 3 show ?thesis by auto
qed

theorem verified_needs_dispatch_and_review_witness:
  "\<exists>es'. [Ev_PREPARE, Ev_DISPATCH, Ev_RECEIVE_REPORT, Ev_START_REVIEW, Ev_VERIFY]
          = es' @ [Ev_RECEIVE_REPORT, Ev_START_REVIEW, Ev_VERIFY] \<and>
        (Ev_DISPATCH \<in> set es' \<or> Ev_APPROVE \<in> set es')"
proof -
  have "apply_many StepStateMachine (map Member
      [Ev_PREPARE, Ev_DISPATCH, Ev_RECEIVE_REPORT, Ev_START_REVIEW, Ev_VERIFY]) Step_PENDING
    = (Inr Step_VERIFIED, Step_VERIFIED)"
    by (simp add: apply_many_Cons step_next_eq [symmetric])
  then show ?thesis by (rule verified_needs_dispatch_and_review)
qed

end
