(* ===== verification/Loop_Policy.thy ===== *)
theory Loop_Policy
  imports Models Fsm
begin

text \<open>
  The provider-neutral messages of \<open>ports/capabilities.py\<close> that the loop exchanges with the worker and
  the realization gate, and the two pure policies of \<open>application/loop_policy.py\<close>: whether a Step
  needs approval, and which event a report maps to.
\<close>

section \<open>Messages\<close>

record worker_request =
  request_task :: task
  request_context :: mapping

record worker_result =
  worker_status :: report_status
  worker_summary :: string
  worker_artifacts :: "string list"
  worker_issues :: "string list"
  worker_questions :: "string list"
  worker_raw :: "mapping option"

record check_result =
  check_compliant :: bool
  check_baseline_version :: string
  check_decision :: decision
  check_findings :: "finding list"

definition mk_check_result :: "check_result \<Rightarrow> exn + check_result" where
  "mk_check_result r =
     bindE (requireE (\<not> is_blank (check_baseline_version r)) ValueError) (\<lambda>_.
     bindE (requireE (\<not> (check_compliant r \<and> check_findings r \<noteq> [])) ValueError) (\<lambda>_.
     bindE (requireE (check_compliant r \<or> check_findings r \<noteq> []) ValueError) (\<lambda>_.
     Inr r)))"

record canonical_baseline =
  canonical_version :: string
  canonical_rule_ids :: "string list"

definition mk_canonical_baseline :: "canonical_baseline \<Rightarrow> exn + canonical_baseline" where
  "mk_canonical_baseline c =
     bindE (requireE (\<not> is_blank (canonical_version c)) ValueError) (\<lambda>_.
     bindE (requireE (canonical_rule_ids c \<noteq> []) ValueError) (\<lambda>_.
     bindE (requireE (\<forall>i\<in>set (canonical_rule_ids c). \<not> is_blank i) ValueError) (\<lambda>_.
     Inr c)))"

record realization_gate =
  gate_compliant :: bool
  gate_step_no :: int
  gate_attempt :: int
  gate_baseline_version :: string
  gate_violation_count :: nat
  gate_finding_ids :: "string list"
  gate_decision_id :: string

definition mk_gate :: "realization_gate \<Rightarrow> exn + realization_gate" where
  "mk_gate g =
     bindE (requireE (1 \<le> gate_step_no g) ValueError) (\<lambda>_.
     bindE (requireE (1 \<le> gate_attempt g) ValueError) (\<lambda>_.
     bindE (requireE (\<not> is_blank (gate_baseline_version g)) ValueError) (\<lambda>_.
     bindE (requireE (\<not> is_blank (gate_decision_id g)) ValueError) (\<lambda>_.
     bindE (requireE (gate_violation_count g = length (gate_finding_ids g)) ValueError) (\<lambda>_.
     bindE (requireE (\<not> (gate_compliant g \<and> gate_violation_count g \<noteq> 0)) ValueError) (\<lambda>_.
     Inr g))))))"

section \<open>Approval policy\<close>

definition requires_approval :: "mode \<Rightarrow> risk_level \<Rightarrow> bool \<Rightarrow> bool" where
  "requires_approval m r requires_human =
     (if requires_human then True
      else if m = Mode_MANUAL then True
      else if m = Mode_SUPERVISED then r \<noteq> Level_LOW
      else r = Level_HIGH)"

text \<open>Modes by the autonomy they grant, risk levels by severity.\<close>

fun mode_rank :: "mode \<Rightarrow> nat" where
  "mode_rank Mode_MANUAL = 0"
| "mode_rank Mode_SUPERVISED = 1"
| "mode_rank Mode_AUTO = 2"

fun risk_rank :: "risk_level \<Rightarrow> nat" where
  "risk_rank Level_LOW = 0"
| "risk_rank Level_MEDIUM = 1"
| "risk_rank Level_HIGH = 2"

instantiation mode :: linorder
begin

definition less_eq_mode :: "mode \<Rightarrow> mode \<Rightarrow> bool" where
  "less_eq_mode m n \<longleftrightarrow> mode_rank m \<le> mode_rank n"

definition less_mode :: "mode \<Rightarrow> mode \<Rightarrow> bool" where
  "less_mode m n \<longleftrightarrow> mode_rank m < mode_rank n"

instance
proof
  show "x = y" if "x \<le> y" "y \<le> x" for x y :: mode
    using that by (cases x; cases y) (auto simp: less_eq_mode_def)
qed (auto simp: less_eq_mode_def less_mode_def)

end

instantiation risk_level :: linorder
begin

definition less_eq_risk_level :: "risk_level \<Rightarrow> risk_level \<Rightarrow> bool" where
  "less_eq_risk_level r s \<longleftrightarrow> risk_rank r \<le> risk_rank s"

definition less_risk_level :: "risk_level \<Rightarrow> risk_level \<Rightarrow> bool" where
  "less_risk_level r s \<longleftrightarrow> risk_rank r < risk_rank s"

instance
proof
  show "x = y" if "x \<le> y" "y \<le> x" for x y :: risk_level
    using that by (cases x; cases y) (auto simp: less_eq_risk_level_def)
qed (auto simp: less_eq_risk_level_def less_risk_level_def)

end

text \<open>
  The approval policy is monotone: taking autonomy away, raising the risk or asking for a human
  never removes the need for an approval; and \<open>HIGH\<close> risk or an explicit requirement always needs one.
\<close>

theorem approval_monotone:
  assumes "requires_approval m r h" and "m' \<le> m" and "r \<le> r'" and "h \<longrightarrow> h'"
  shows "requires_approval m' r' h' \<and> requires_approval n Level_HIGH False \<and> requires_approval n s True"
  using assms
  by (cases m; cases m'; cases r; cases r'; cases n)
    (auto simp: requires_approval_def less_eq_mode_def less_eq_risk_level_def split: if_splits)

theorem approval_monotone_witness:
  "requires_approval Mode_SUPERVISED Level_HIGH False \<and> requires_approval Mode_AUTO Level_HIGH False
   \<and> requires_approval Mode_AUTO Level_LOW True"
  by (rule approval_monotone[of Mode_AUTO Level_HIGH False])
    (simp_all add: requires_approval_def less_eq_mode_def less_eq_risk_level_def)

section \<open>Review policy\<close>

record review_outcome =
  outcome_event :: step_event
  outcome_reason :: string

definition decide_review :: "worker_result \<Rightarrow> int \<Rightarrow> int \<Rightarrow> exn + review_outcome" where
  "decide_review report attempt max_attempts =
     (if attempt < 0 then Inl ValueError
      else if max_attempts < 1 then Inl ValueError
      else
        let retryable = (attempt < max_attempts) in
        if worker_questions report \<noteq> [] then Inr \<lparr>outcome_event = Ev_BLOCK, outcome_reason = ''architecture-questions''\<rparr>
        else if worker_issues report \<noteq> [] then Inr \<lparr>outcome_event = Ev_BLOCK, outcome_reason = ''unresolved-issues''\<rparr>
        else
          (case worker_status report of
             Report_DONE \<Rightarrow> Inr \<lparr>outcome_event = Ev_VERIFY, outcome_reason = ''report-done''\<rparr>
           | Report_BLOCKED \<Rightarrow> Inr \<lparr>outcome_event = Ev_BLOCK, outcome_reason = ''report-blocked''\<rparr>
           | Report_REVISE \<Rightarrow>
               if retryable then Inr \<lparr>outcome_event = Ev_REQUEST_REVISE, outcome_reason = ''report-revise''\<rparr>
               else Inr \<lparr>outcome_event = Ev_BLOCK, outcome_reason = ''revise-attempts-exhausted''\<rparr>
           | Report_FAILED \<Rightarrow>
               if retryable then Inr \<lparr>outcome_event = Ev_REQUEST_REVISE, outcome_reason = ''report-failed-retry''\<rparr>
               else Inr \<lparr>outcome_event = Ev_BLOCK, outcome_reason = ''failed-attempts-exhausted''\<rparr>))"

text \<open>What a report must say for its outcome to be \<open>VERIFY\<close>.\<close>

definition clean_report :: "worker_result \<Rightarrow> bool" where
  "clean_report r \<longleftrightarrow> worker_status r = Report_DONE \<and> worker_issues r = [] \<and> worker_questions r = []"

lemma decide_review_cases:
  assumes "0 \<le> a" "1 \<le> m"
  obtains ev reason where "decide_review r a m = Inr \<lparr>outcome_event = ev, outcome_reason = reason\<rparr>"
    "ev = Ev_VERIFY \<longleftrightarrow> clean_report r" "ev = Ev_REQUEST_REVISE \<Longrightarrow> a < m"
    "ev \<in> {Ev_VERIFY, Ev_REQUEST_REVISE, Ev_BLOCK}"
  using assms that
  by (cases "worker_status r"; cases "worker_questions r = []"; cases "worker_issues r = []"; cases "a < m")
    (auto simp: decide_review_def clean_report_def Let_def)

lemma decide_review_ok:
  assumes "decide_review r a m = Inr out"
  shows "0 \<le> a" "1 \<le> m" "outcome_event out = Ev_VERIFY \<longleftrightarrow> clean_report r"
    "outcome_event out \<in> {Ev_VERIFY, Ev_REQUEST_REVISE, Ev_BLOCK}"
    "outcome_event out = Ev_REQUEST_REVISE \<Longrightarrow> a < m"
  using assms
  by (cases "worker_status r"; auto simp: decide_review_def clean_report_def Let_def split: if_splits)+

lemma decide_review_error: "decide_review r a m = Inl e \<longleftrightarrow> e = ValueError \<and> (a < 0 \<or> m < 1)"
  by (cases "worker_status r") (auto simp: decide_review_def Let_def)

text \<open>
  C38: The review of a report always decides: for an attempt in range it gives an event the Step
  machine accepts from \<open>REVIEWING\<close>; the event is \<open>VERIFY\<close> exactly for a \<open>DONE\<close> report without issues
  and architecture questions, and asks for a revision only while attempts remain.
\<close>

theorem review_decides:
  assumes "0 \<le> attempt" and "1 \<le> max_attempts"
  shows "\<exists>outcome t. decide_review report attempt max_attempts = Inr outcome \<and>
    step_next Step_REVIEWING (outcome_event outcome) = Inr t \<and>
    (outcome_event outcome = Ev_VERIFY \<longleftrightarrow> clean_report report) \<and>
    (outcome_event outcome = Ev_REQUEST_REVISE \<longrightarrow> attempt < max_attempts)"
  using assms by (rule decide_review_cases[of attempt max_attempts report]) auto

theorem review_decides_witness:
  "\<exists>outcome t. decide_review \<lparr>worker_status = Report_FAILED, worker_summary = '''', worker_artifacts = [],
      worker_issues = [], worker_questions = [], worker_raw = None\<rparr> 3 3 = Inr outcome \<and>
    step_next Step_REVIEWING (outcome_event outcome) = Inr t \<and> outcome_event outcome = Ev_BLOCK"
  using review_decides[of 3 3 "\<lparr>worker_status = Report_FAILED, worker_summary = '''', worker_artifacts = [],
      worker_issues = [], worker_questions = [], worker_raw = None\<rparr>"]
  by (auto simp: decide_review_def)

end
