(* ===== verification/Context.thy ===== *)
theory Context
  imports Storage Loop_Policy
begin

text \<open>
  The context builder (\<open>application/context.py\<close>), which assembles the derived, read-only snapshot for
  one Step, and the publication of a Task shared by the loop and the approval gate
  (\<open>application/dispatch.py\<close>). The worker is an operation of the world, given as a parameter.
\<close>

section \<open>Snapshot\<close>

definition SCHEMA_VERSION :: string where "SCHEMA_VERSION = ''1.0''"

record context_snapshot =
  snap_project :: project
  snap_step :: step
  snap_previous_steps :: "step list"
  snap_architecture :: "architecture_version option"
  snap_adrs :: "adr list"
  snap_risks :: "risk list"
  snap_generated_at :: datetime
  snap_schema_version :: string

definition snapshot_to_dict :: "context_snapshot \<Rightarrow> mapping" where
  "snapshot_to_dict c =
     [(''schema_version'', JStr (snap_schema_version c)),
      (''generated_at'', JTime (snap_generated_at c)),
      (''project'', project_to_dict (snap_project c)),
      (''step'', step_to_dict (snap_step c)),
      (''previous_steps'', JList (map step_to_dict (snap_previous_steps c))),
      (''architecture'', json_opt architecture_version_to_dict (snap_architecture c)),
      (''adrs'', JList (map adr_to_dict (snap_adrs c))),
      (''risks'', JList (map risk_to_dict (snap_risks c)))]"

section \<open>Builder\<close>

definition require_step :: "int \<Rightarrow> step io" where
  "require_step n =
     bindM (get_step n) (\<lambda>s. case s of None \<Rightarrow> raiseM StepNotFoundError | Some x \<Rightarrow> returnM x)"

definition require_single_project :: "project io" where
  "require_single_project =
     bindM list_projects (\<lambda>ps.
     case ps of [] \<Rightarrow> raiseM ProjectNotFoundError
     | [p] \<Rightarrow> returnM p
     | _ \<Rightarrow> raiseM ContextInvariantError)"

definition previous_verified_steps :: "step \<Rightarrow> step list io" where
  "previous_verified_steps s =
     bindM (list_steps_by_state Step_VERIFIED) (\<lambda>vs.
     returnM (filter (\<lambda>v. step_no v < step_no s) vs))"

definition current_architecture :: "architecture_version option io" where
  "current_architecture =
     bindM list_versions (\<lambda>vs.
     case filter av_is_current vs of
       [] \<Rightarrow> returnM None
     | [v] \<Rightarrow> returnM (Some v)
     | _ \<Rightarrow> raiseM ContextInvariantError)"

definition accepted_adrs :: "adr list io" where
  "accepted_adrs =
     bindM list_adrs (\<lambda>as. returnM (filter (\<lambda>a. adr_status a = Adr_ACCEPTED) as))"

definition open_risks :: "risk list io" where
  "open_risks = list_open_risks"

definition build_context :: "(nat \<Rightarrow> datetime) \<Rightarrow> int \<Rightarrow> context_snapshot io" where
  "build_context clk n =
     bindM (require_step n) (\<lambda>s.
     bindM require_single_project (\<lambda>p.
     bindM (previous_verified_steps s) (\<lambda>vs.
     bindM current_architecture (\<lambda>a.
     bindM accepted_adrs (\<lambda>as.
     bindM open_risks (\<lambda>rs.
     bindM (clockM clk) (\<lambda>t.
     returnM \<lparr>snap_project = p, snap_step = s, snap_previous_steps = vs, snap_architecture = a,
       snap_adrs = as, snap_risks = rs, snap_generated_at = t,
       snap_schema_version = SCHEMA_VERSION\<rparr>)))))))"

section \<open>Publication\<close>

definition build_task :: "step \<Rightarrow> int \<Rightarrow> mapping \<Rightarrow> mapping \<Rightarrow> datetime \<Rightarrow> exn + task" where
  "build_task s attempt instructions report_schema now = mk_task
     \<lparr>task_step_no = step_no s, task_phase = step_phase s, task_title = step_title s,
      task_description = step_description s, task_risk = step_risk s, task_attempt = attempt,
      task_max_attempts = step_max_attempts s, task_state = Task_CREATED, task_context_file = None,
      task_instructions = instructions, task_report_schema = report_schema,
      task_report_status = None, task_created_at = now\<rparr>"

definition publish_task ::
  "(worker_request \<Rightarrow> unit io) \<Rightarrow> (nat \<Rightarrow> datetime) \<Rightarrow> step \<Rightarrow> int \<Rightarrow> mapping \<Rightarrow> mapping \<Rightarrow> datetime \<Rightarrow> task io" where
  "publish_task dispatch clk s attempt instructions report_schema now =
     bindM (build_context clk (step_no s)) (\<lambda>snapshot.
     bindM (liftE (build_task s attempt instructions report_schema now)) (\<lambda>t.
     thenM (dispatch \<lparr>request_task = t, request_context = snapshot_to_dict snapshot\<rparr>)
     (bindM (liftE (task_next (task_state t) TaskEv_DISPATCH)) (\<lambda>st.
      liftE (mk_task (t\<lparr>task_state := st\<rparr>))))))"

section \<open>The builder only reads\<close>

definition reads_only :: "world \<Rightarrow> world \<Rightarrow> bool" where
  "reads_only w w' \<longleftrightarrow> w\<lparr>clock_reads := 0\<rparr> = w'\<lparr>clock_reads := 0\<rparr>"

lemma reads_onlyD:
  assumes "reads_only w w'"
  shows "live w' = live w" "durable w' = durable w" "depth w' = depth w" "disk w' = disk w"
    "tree w' = tree w" "trail w' = trail w"
proof -
  have "f (w\<lparr>clock_reads := 0\<rparr>) = f (w'\<lparr>clock_reads := 0\<rparr>)" for f :: "world \<Rightarrow> 'b"
    using assms by (simp add: reads_only_def)
  from this[of live] this[of durable] this[of depth] this[of disk] this[of tree] this[of trail]
  show "live w' = live w" "durable w' = durable w" "depth w' = depth w" "disk w' = disk w"
    "tree w' = tree w" "trail w' = trail w"
    by simp_all
qed

interpretation reading: progress_relation reads_only
  by unfold_locales (auto simp: reads_only_def)

lemma clock_reads_only: "follows reads_only (clockM clk)"
  by (simp add: follows_def reads_only_def exec)

lemmas context_defs = require_step_def require_single_project_def previous_verified_steps_def
  current_architecture_def accepted_adrs_def open_risks_def

lemma build_reads_only: "follows reads_only (build_context clk n)"
  unfolding build_context_def context_defs repo_defs
  by (intro reading.follows_rules clock_reads_only) (auto intro!: reading.follows_rules split: list.splits)

lemma sort_key_single: "sort_key f xs = [x] \<longleftrightarrow> xs = [x]"
proof
  assume s: "sort_key f xs = [x]"
  then have "length xs = 1" by (metis length_sort One_nat_def list.size(3,4) plus_1_eq_Suc add_0)
  then obtain y where "xs = [y]" by (metis One_nat_def length_0_conv length_Suc_conv)
  with s show "xs = [x]" by simp
qed simp

lemma require_step_run [exec]:
  "require_step n w = (case lookup step_no n (db_steps (live w)) of
     None \<Rightarrow> (Inl StepNotFoundError, w) | Some s \<Rightarrow> (Inr s, w))"
  by (simp add: require_step_def get_step_def exec split: option.splits)

lemma require_single_project_ok:
  "require_single_project w = (Inr p, w') \<longleftrightarrow> w' = w \<and> db_projects (live w) = [p]"
proof -
  have "require_single_project w = (Inr p, w') \<longleftrightarrow> w' = w \<and> sort_key project_name (db_projects (live w)) = [p]"
    by (auto simp: require_single_project_def list_projects_def exec split: list.splits)
  then show ?thesis by (simp add: sort_key_single)
qed

lemma current_architecture_ok:
  assumes "current_architecture w = (Inr a, w')"
  shows "w' = w \<and> {v \<in> set (db_versions (live w)). av_is_current v} = set_option a"
proof -
  let ?vs = "filter av_is_current (sort_key av_version (db_versions (live w)))"
  have "w' = w \<and> set ?vs = set_option a"
    using assms unfolding current_architecture_def list_versions_def
    by (cases "?vs" rule: remdups_adj.cases) (auto simp: exec)
  moreover have "set ?vs = {v \<in> set (db_versions (live w)). av_is_current v}" by auto
  ultimately show ?thesis by simp
qed

text \<open>Models the witnesses share.\<close>

definition sample_project :: project where
  "sample_project = \<lparr>project_name = ''demo'', project_plan_version = ''1'', project_plan_hash = '''',
     project_mode = Mode_AUTO, project_paused = False, project_current_step_no_snapshot = None,
     project_created_at = 0, project_updated_at = 0\<rparr>"

definition sample_step :: "int \<Rightarrow> step_state \<Rightarrow> int \<Rightarrow> step" where
  "sample_step n st attempt = \<lparr>step_no = n, step_phase = Phase_LOOP, step_title = ''step'', step_state = st,
     step_description = '''', step_attempt = attempt, step_max_attempts = 2, step_risk = Level_LOW,
     step_requires_human = False, step_created_at = 0, step_started_at = None,
     step_finished_at = None, step_verified_at = None, step_last_update_at = None\<rparr>"

lemma sample_step_simps [simp]:
  "step_no (sample_step n st a) = n" "step_state (sample_step n st a) = st"
  "step_attempt (sample_step n st a) = a" "step_max_attempts (sample_step n st a) = 2"
  by (simp_all add: sample_step_def)

definition sample_db :: "step list \<Rightarrow> db" where
  "sample_db steps = empty_db\<lparr>db_projects := [sample_project], db_steps := steps\<rparr>"

text \<open>
  The context of a Step is selected exactly: it holds the Step itself, the only project, the
  verified Steps with a smaller number, the accepted ADRs and the open risks, each in key order, the
  current architecture version if there is one, and the instant of its single clock reading;
  building it changes nothing but the count of clock readings.
\<close>

theorem context_selection:
  assumes "build_context clk n w = (Inr c, w')"
  shows "w' = w\<lparr>clock_reads := clock_reads w + 1\<rparr> \<and> snap_generated_at c = clk (clock_reads w) \<and>
    lookup step_no n (db_steps (live w)) = Some (snap_step c) \<and>
    db_projects (live w) = [snap_project c] \<and>
    set (snap_previous_steps c) =
      {s \<in> set (db_steps (live w)). step_state s = Step_VERIFIED \<and> step_no s < n} \<and>
    sorted (map step_no (snap_previous_steps c)) \<and>
    set (snap_adrs c) = {a \<in> set (db_adrs (live w)). adr_status a = Adr_ACCEPTED} \<and>
    sorted (map adr_id (snap_adrs c)) \<and>
    set (snap_risks c) = {r \<in> set (db_risks (live w)). risk_status r = Risk_OPEN} \<and>
    sorted (map risk_id (snap_risks c)) \<and>
    set_option (snap_architecture c) = {v \<in> set (db_versions (live w)). av_is_current v}"
proof -
  from assms obtain s p a where
    s: "lookup step_no n (db_steps (live w)) = Some s" and p: "db_projects (live w) = [p]" and
    a: "{v \<in> set (db_versions (live w)). av_is_current v} = set_option a" and
    c: "c = \<lparr>snap_project = p, snap_step = s,
        snap_previous_steps = filter (\<lambda>v. step_no v < step_no s)
          (sort_key step_no (filter (\<lambda>s. step_state s = Step_VERIFIED) (db_steps (live w)))),
        snap_architecture = a,
        snap_adrs = filter (\<lambda>a. adr_status a = Adr_ACCEPTED) (sort_key adr_id (db_adrs (live w))),
        snap_risks = sort_key risk_id (filter (\<lambda>r. risk_status r = Risk_OPEN) (db_risks (live w))),
        snap_generated_at = clk (clock_reads w), snap_schema_version = SCHEMA_VERSION\<rparr>"
      "w' = w\<lparr>clock_reads := clock_reads w + 1\<rparr>"
    unfolding build_context_def previous_verified_steps_def accepted_adrs_def open_risks_def
      list_open_risks_def list_adrs_def list_steps_by_state_def bindM_Inr_iff
    by (auto simp: exec require_single_project_ok dest!: current_architecture_ok
        split: option.splits)
  moreover have "step_no s = n" using s by (auto dest: lookup_Some)
  ultimately show ?thesis
    by (auto simp: sorted_filter)
qed

theorem context_selection_witness:
  "\<exists>c w'. build_context (\<lambda>n. int n) 2 (world_with (sample_db
       [sample_step 2 Step_READY 1, sample_step 1 Step_VERIFIED 1]) empty_channel []) = (Inr c, w') \<and>
     set (snap_previous_steps c) = {sample_step 1 Step_VERIFIED 1} \<and> snap_generated_at c = 0"
proof -
  let ?w = "world_with (sample_db [sample_step 2 Step_READY 1, sample_step 1 Step_VERIFIED 1]) empty_channel []"
  have "isl (fst (build_context (\<lambda>n. int n) 2 ?w)) = False"
    by code_simp
  then obtain c w' where b: "build_context (\<lambda>n. int n) 2 ?w = (Inr c, w')"
    using returns_obtain by blast
  from context_selection[OF b] have "set (snap_previous_steps c) = {sample_step 1 Step_VERIFIED 1}"
    "snap_generated_at c = 0"
    by (auto simp: world_with_def sample_db_def)
  with b show ?thesis by blast
qed

end
