(* ===== verification/Worker_Channel.thy ===== *)
theory Worker_Channel
  imports Context
begin

text \<open>
  The worker channel contract (\<open>WorkerChannelPort\<close> in \<open>ports/capabilities.py\<close>): dispatching hands a
  request over, reading a report is repeatable and changes nothing, acknowledging consumes the report
  just read. The contract also says what the operations may touch: the channel's files, never the
  database. The loop's other dependency, the realization gate, has the same kind of contract in the
  theory of the orchestrator.
\<close>

text \<open>
  What every channel keeps: what was published stays published, and no report but those of \<open>ks\<close>
  changes. A step on the channel leaves the database alone and keeps this in every situation it
  goes through.
\<close>

type_synonym attempt_key = "int \<times> int"
type_synonym report_view = "channel \<Rightarrow> attempt_key \<Rightarrow> exn + worker_result option"

definition keeps :: "(channel \<Rightarrow> attempt_key \<Rightarrow> bool) \<Rightarrow> report_view \<Rightarrow> attempt_key set \<Rightarrow>
    channel \<Rightarrow> channel \<Rightarrow> bool" where
  "keeps pub rep ks c c' \<longleftrightarrow>
     (\<forall>k. pub c k \<longrightarrow> pub c' k) \<and> (\<forall>k. k \<notin> ks \<longrightarrow> rep c' k = rep c k)"

definition channel_step :: "(channel \<Rightarrow> attempt_key \<Rightarrow> bool) \<Rightarrow> report_view \<Rightarrow> attempt_key set \<Rightarrow>
    world \<Rightarrow> world \<Rightarrow> bool" where
  "channel_step pub rep ks w w' \<longleftrightarrow>
     live w' = live w \<and> durable w' = durable w \<and> depth w' = depth w \<and> tree w' = tree w \<and>
     keeps pub rep ks (disk w) (disk w') \<and>
     (\<exists>cs. trail w' = trail w @ map (Pair (durable w)) cs \<and> (\<forall>c\<in>set cs. keeps pub rep ks (disk w) c))"

lemma keeps_refl [simp]: "keeps pub rep ks c c"
  by (simp add: keeps_def)

lemma keeps_trans: "keeps pub rep ks c d \<Longrightarrow> keeps pub rep ks d e \<Longrightarrow> keeps pub rep ks c e"
  by (simp add: keeps_def)

lemma keeps_mono: "keeps pub rep ks c d \<Longrightarrow> ks \<subseteq> ks' \<Longrightarrow> keeps pub rep ks' c d"
  unfolding keeps_def by blast

interpretation channelling: progress_relation "channel_step pub rep ks" for pub rep ks
proof unfold_locales
  show "channel_step pub rep ks s s" for s
    by (auto simp: channel_step_def intro: exI[of _ "[]"])
  show "channel_step pub rep ks s u" if "channel_step pub rep ks s t" "channel_step pub rep ks t u" for s t u
  proof -
    from that obtain cs ds where "trail t = trail s @ map (Pair (durable s)) cs"
      "\<forall>c\<in>set cs. keeps pub rep ks (disk s) c"
      "trail u = trail t @ map (Pair (durable t)) ds" "\<forall>c\<in>set ds. keeps pub rep ks (disk t) c"
      unfolding channel_step_def by metis
    then show ?thesis
      using that unfolding channel_step_def
      by (intro conjI exI[of _ "cs @ ds"]) (auto intro: keeps_trans)
  qed
qed

lemma channel_reads: "follows reads_only m \<Longrightarrow> follows (channel_step pub rep ks) m"
proof (rule followsI)
  fix w
  assume "follows reads_only m"
  then have "reads_only w (snd (m w))" by (simp add: follows_def)
  from reads_onlyD[OF this] show "channel_step pub rep ks w (snd (m w))"
    by (auto simp: channel_step_def intro: exI[of _ "[]"])
qed

locale worker_channel =
  fixes dispatch :: "worker_request \<Rightarrow> unit io"
    and read_report :: "int \<Rightarrow> int \<Rightarrow> worker_result option io"
    and acknowledge :: "int \<Rightarrow> int \<Rightarrow> unit io"
    and published :: "channel \<Rightarrow> attempt_key \<Rightarrow> bool"
    and report :: report_view
  assumes read_run: "read_report s a w = (report (disk w) (s, a), w)"
    and dispatch_frame: "follows (channel_step published report {}) (dispatch r)"
    and dispatch_publishes:
      "dispatch r w = (Inr (), w') \<Longrightarrow> published (disk w') (task_key (request_task r))"
    and acknowledge_frame: "follows (channel_step published report {(s, a)}) (acknowledge s a)"
    and acknowledge_consumes: "acknowledge s a w = (Inr (), w') \<Longrightarrow> report (disk w') (s, a) = Inr None"
    and acknowledge_failed: "acknowledge s a w = (Inl e, w') \<Longrightarrow> disk w' = disk w"
begin

lemma read_scoped: "scoped (read_report s a)"
  by (simp add: scoped_def read_run)

lemma read_twice:
  "bindM (read_report s a) (\<lambda>x. bindM (read_report s a) (\<lambda>y. f x y)) w
     = bindM (read_report s a) (\<lambda>x. f x x) w"
  by (cases "report (disk w) (s, a)") (simp_all add: exec read_run)

end

section \<open>Publication through a channel\<close>

context worker_channel
begin

lemma publish_frame:
  "follows (channel_step published report {}) (publish_task dispatch clk s attempt ins schema now)"
  unfolding publish_task_def
  by (intro channelling.follows_rules channel_reads[OF build_reads_only] dispatch_frame)

lemma publish_ok:
  assumes "publish_task dispatch clk s attempt ins schema now w = (Inr t, w')"
  shows "published (disk w') (step_no s, attempt) \<and> valid_task t \<and>
    task_step_no t = step_no s \<and> task_attempt t = attempt \<and> task_state t = Task_DISPATCHED"
proof -
  from assms obtain c u v where
    b: "build_context clk (step_no s) w = (Inr c, u)" and
    t: "valid_task t" "task_step_no t = step_no s" "task_attempt t = attempt"
      "task_state t = Task_DISPATCHED" and
    d: "dispatch \<lparr>request_task = t\<lparr>task_state := Task_CREATED\<rparr>, request_context = snapshot_to_dict c\<rparr> u
          = (Inr (), w')"
    unfolding publish_task_def bindM_Inr_iff thenM_Inr_iff
    by (auto simp: exec build_task_def mk_task_iff)
  show ?thesis
    using dispatch_publishes[OF d] t by (simp add: task_key_def)
qed

end

end
