(* ===== verification/Cline.thy ===== *)
theory Cline
  imports Worker_Channel
begin

text \<open>
  The file-channel worker adapter (\<open>infrastructure/cline.py\<close>): file names, dispatch (the context is
  written before the task, its commit marker), the validation of a report, and the acknowledgement
  that moves it to the archive. The four directories of the channel are the four maps of the state;
  a JSON text is the value it encodes, with its members by key. The adapter interprets the contract
  of a worker channel.
\<close>

section \<open>File names\<close>

definition cline_slug :: "int \<Rightarrow> int \<Rightarrow> string" where
  "cline_slug s a = ''step_'' @ show_03d s @ ''_attempt_'' @ show_03d a"

definition task_file :: "int \<Rightarrow> int \<Rightarrow> string" where
  "task_file s a = cline_slug s a @ ''_task.json''"

definition context_file :: "int \<Rightarrow> int \<Rightarrow> string" where
  "context_file s a = cline_slug s a @ ''_context.json''"

definition report_stem :: "int \<Rightarrow> int \<Rightarrow> string" where
  "report_stem s a = cline_slug s a @ ''_report''"

definition report_file_name :: "int \<Rightarrow> int \<Rightarrow> string" where
  "report_file_name s a = report_stem s a @ ''.json''"

section \<open>Adapter\<close>

text \<open>The constructor's arguments: the resolved exchange directory, the header fields and the clock.\<close>

record cline =
  cline_exchange_dir :: string
  cline_protocol :: string
  cline_project :: string
  cline_plan_version :: string
  cline_clock :: "nat \<Rightarrow> datetime"

text \<open>\<open>_atomic_write_text\<close>: the file appears whole, or the write fails and nothing changes.\<close>

definition write_context_file :: "string \<Rightarrow> json \<Rightarrow> unit io" where
  "write_context_file name j =
     bindM (getsM (\<lambda>w. unwritable (disk w) name)) (\<lambda>bad.
     if bad then raiseM OSError
     else modifyM (\<lambda>w. observe (w\<lparr>disk := (disk w)\<lparr>contexts := (contexts (disk w))(name \<mapsto> j)\<rparr>\<rparr>)))"

definition write_task_file :: "string \<Rightarrow> json \<Rightarrow> unit io" where
  "write_task_file name j =
     bindM (getsM (\<lambda>w. unwritable (disk w) name)) (\<lambda>bad.
     if bad then raiseM OSError
     else modifyM (\<lambda>w. observe (w\<lparr>disk := (disk w)\<lparr>to_cline := (to_cline (disk w))(name \<mapsto> j)\<rparr>\<rparr>)))"

definition dump_json :: "mapping \<Rightarrow> json" where
  "dump_json m = JObj (sort_keys m)"

definition task_payload :: "cline \<Rightarrow> task \<Rightarrow> string \<Rightarrow> mapping" where
  "task_payload c t context_name =
     [(''protocol'', JStr (cline_protocol c)),
      (''project'', JStr (cline_project c)),
      (''plan_version'', JStr (cline_plan_version c)),
      (''step_no'', JInt (task_step_no t)),
      (''attempt'', JInt (task_attempt t)),
      (''max_attempts'', JInt (task_max_attempts t)),
      (''phase'', JStr (phase_value (task_phase t))),
      (''title'', JStr (task_title t)),
      (''description'', JStr (task_description t)),
      (''risk'', JStr (risk_level_value (task_risk t))),
      (''context_file'', JStr (cline_exchange_dir c @ ''/context/'' @ context_name)),
      (''instructions'', JObj (task_instructions t)),
      (''report_schema'', JObj (task_report_schema t)),
      (''created_at'', JTime (task_created_at t))]"

definition cline_dispatch :: "cline \<Rightarrow> worker_request \<Rightarrow> unit io" where
  "cline_dispatch c r =
     (let t = request_task r; name = context_file (task_step_no t) (task_attempt t) in
      thenM (catchM (write_context_file name (dump_json (request_context r)))
               (\<lambda>_. raiseM TaskDispatchError))
      (catchM (write_task_file (task_file (task_step_no t) (task_attempt t))
                 (dump_json (task_payload c t name)))
         (\<lambda>_. raiseM TaskDispatchError)))"

section \<open>Reports\<close>

definition report_statuses :: "string list" where
  "report_statuses = map report_status_value report_status_members"

definition string_list_fields :: "string list" where
  "string_list_fields = [''files_created'', ''files_changed'', ''files_deleted'', ''issues'',
     ''architecture_questions'', ''dependencies_added'']"

fun is_string :: "json \<Rightarrow> bool" where
  "is_string (JStr s) = True"
| "is_string _ = False"

fun the_string :: "json \<Rightarrow> string" where
  "the_string (JStr s) = s"
| "the_string _ = []"

fun is_string_list :: "json \<Rightarrow> bool" where
  "is_string_list (JList xs) = list_all is_string xs"
| "is_string_list _ = False"

fun the_strings :: "json \<Rightarrow> string list" where
  "the_strings (JList xs) = map the_string xs"
| "the_strings _ = []"

text \<open>A file that is not UTF-8 raises \<open>UnicodeDecodeError\<close>, a \<open>ValueError\<close> the adapter does not catch.\<close>

fun load_report_object :: "report_file \<Rightarrow> exn + mapping" where
  "load_report_object Unreadable = Inl ReportParseError"
| "load_report_object NotUtf8 = Inl ValueError"
| "load_report_object NotJson = Inl ReportParseError"
| "load_report_object (Content (JObj m)) = Inr m"
| "load_report_object (Content _) = Inl ReportParseError"

definition check_number :: "json option \<Rightarrow> int \<Rightarrow> exn + unit" where
  "check_number v expected =
     (case v of
        Some (JInt i) \<Rightarrow> if i \<noteq> expected then Inl ReportMismatchError else Inr ()
      | _ \<Rightarrow> Inl ReportParseError)"

definition validate_report :: "mapping \<Rightarrow> int \<Rightarrow> int \<Rightarrow> exn + unit" where
  "validate_report data s a =
     bindE (check_number (map_of data ''step_no'') s) (\<lambda>_.
     bindE (check_number (map_of data ''attempt'') a) (\<lambda>_.
     bindE (case map_of data ''status'' of
              Some (JStr st) \<Rightarrow> requireE (st \<in> set report_statuses) ReportParseError
            | _ \<Rightarrow> Inl ReportParseError) (\<lambda>_.
     bindE (case map_of data ''summary'' of
              None \<Rightarrow> Inr ()
            | Some v \<Rightarrow> requireE (is_string v) ReportParseError) (\<lambda>_.
     requireE (\<forall>f\<in>set string_list_fields.
        case map_of data f of None \<Rightarrow> True | Some v \<Rightarrow> is_string_list v) ReportParseError))))"

definition list_field :: "mapping \<Rightarrow> string \<Rightarrow> string list" where
  "list_field data f = (case map_of data f of None \<Rightarrow> [] | Some v \<Rightarrow> the_strings v)"

definition to_worker_result :: "mapping \<Rightarrow> exn + worker_result" where
  "to_worker_result data =
     bindE (coerce_enum report_status_members report_status_value
              (case map_of data ''status'' of None \<Rightarrow> [] | Some v \<Rightarrow> the_string v)) (\<lambda>st.
     Inr \<lparr>worker_status = st,
       worker_summary = (case map_of data ''summary'' of None \<Rightarrow> '''' | Some v \<Rightarrow> the_string v),
       worker_artifacts = list_field data ''files_created'',
       worker_issues = list_field data ''issues'',
       worker_questions = list_field data ''architecture_questions'',
       worker_raw = Some data\<rparr>)"

definition parse_report :: "report_file \<Rightarrow> int \<Rightarrow> int \<Rightarrow> exn + worker_result" where
  "parse_report f s a =
     bindE (load_report_object f) (\<lambda>data.
     bindE (validate_report data s a) (\<lambda>_.
     to_worker_result data))"

definition cline_read_report :: "int \<Rightarrow> int \<Rightarrow> worker_result option io" where
  "cline_read_report s a =
     bindM (getsM (\<lambda>w. from_cline (disk w) (report_file_name s a))) (\<lambda>file.
     case file of
       None \<Rightarrow> returnM None
     | Some f \<Rightarrow> liftE (bindE (parse_report f s a) (\<lambda>r. Inr (Some r))))"

definition archive_report :: "int \<Rightarrow> int \<Rightarrow> datetime \<Rightarrow> report_file \<Rightarrow> channel \<Rightarrow> channel" where
  "archive_report s a now f c =
     c\<lparr>from_cline := (from_cline c)(report_file_name s a := None),
       archive := (archive c)(report_stem s a @ ''_'' @ time_stamp now @ ''.json'' \<mapsto> f)\<rparr>"

definition cline_acknowledge_report :: "cline \<Rightarrow> int \<Rightarrow> int \<Rightarrow> unit io" where
  "cline_acknowledge_report c s a =
     bindM (getsM (\<lambda>w. from_cline (disk w) (report_file_name s a))) (\<lambda>file.
     case file of
       None \<Rightarrow> raiseM ReportNotAvailableError
     | Some f \<Rightarrow>
         bindM (liftE (load_report_object f)) (\<lambda>data.
         thenM (liftE (validate_report data s a))
         (bindM (clockM (cline_clock c)) (\<lambda>now.
          bindM (getsM (\<lambda>w. unwritable (disk w) (report_file_name s a))) (\<lambda>bad.
          if bad then raiseM OSError
          else modifyM (\<lambda>w. observe (w\<lparr>disk := archive_report s a now f (disk w)\<rparr>)))))))"

text \<open>The synchronous \<open>WorkerPort.run\<close>: dispatch, then exactly one read.\<close>

definition cline_run :: "cline \<Rightarrow> worker_request \<Rightarrow> worker_result io" where
  "cline_run c r =
     thenM (cline_dispatch c r)
     (bindM (cline_read_report (task_step_no (request_task r)) (task_attempt (request_task r))) (\<lambda>v.
      case v of None \<Rightarrow> raiseM ReportNotAvailableError | Some x \<Rightarrow> returnM x))"

section \<open>Names identify their attempt\<close>

lemma show_03d_chars: "set (show_03d i) \<subseteq> {c. is_digit c} \<union> {CHR ''-''}"
  using pad0_digits by (auto simp: show_03d_def)

lemma underscore_not_in_number: "CHR ''_'' \<notin> set (show_03d i)"
proof -
  have "\<not> is_digit (CHR ''_'')" by (simp add: is_digit_def)
  then show ?thesis using show_03d_chars[of i] by auto
qed

lemma cut_at_underscore:
  assumes "x @ CHR ''_'' # r = y @ CHR ''_'' # s" "CHR ''_'' \<notin> set x" "CHR ''_'' \<notin> set y"
  shows "x = y \<and> r = s"
proof -
  have "split_on (CHR ''_'') (x @ CHR ''_'' # r) = x # split_on (CHR ''_'') r"
    "split_on (CHR ''_'') (y @ CHR ''_'' # s) = y # split_on (CHR ''_'') s"
    using assms(2,3) by (simp_all add: split_on_append)
  with assms(1) show ?thesis by simp
qed

lemma slug_suffix_inject:
  assumes "cline_slug s a @ CHR ''_'' # r = cline_slug s' a' @ CHR ''_'' # r'"
  shows "s = s' \<and> a = a' \<and> r = r'"
proof -
  have "show_03d s @ CHR ''_'' # (''attempt_'' @ show_03d a @ CHR ''_'' # r)
      = show_03d s' @ CHR ''_'' # (''attempt_'' @ show_03d a' @ CHR ''_'' # r')"
    using assms by (simp add: cline_slug_def)
  from cut_at_underscore[OF this underscore_not_in_number underscore_not_in_number]
  have s: "s = s'" and rest: "show_03d a @ CHR ''_'' # r = show_03d a' @ CHR ''_'' # r'"
    by simp_all
  from cut_at_underscore[OF rest underscore_not_in_number underscore_not_in_number] s
  show ?thesis by simp
qed

lemma file_names_inject [simp]:
  "task_file s a = task_file s' a' \<longleftrightarrow> s = s' \<and> a = a'"
  "context_file s a = context_file s' a' \<longleftrightarrow> s = s' \<and> a = a'"
  "report_file_name s a = report_file_name s' a' \<longleftrightarrow> s = s' \<and> a = a'"
  using slug_suffix_inject[of s a "''task.json''" s' a' "''task.json''"]
    slug_suffix_inject[of s a "''context.json''" s' a' "''context.json''"]
    slug_suffix_inject[of s a "''report.json''" s' a' "''report.json''"]
  by (auto simp: task_file_def context_file_def report_file_name_def report_stem_def)

lemma file_kinds_differ [simp]:
  "context_file s a \<noteq> task_file s' a'" "task_file s a \<noteq> context_file s' a'"
  using slug_suffix_inject[of s a "''context.json''" s' a' "''task.json''"]
    slug_suffix_inject[of s a "''task.json''" s' a' "''context.json''"]
  by (auto simp: task_file_def context_file_def)

section \<open>The contract\<close>

definition cline_published :: "channel \<Rightarrow> int \<times> int \<Rightarrow> bool" where
  "cline_published c k = (to_cline c (task_file (fst k) (snd k)) \<noteq> None)"

definition cline_report :: report_view where
  "cline_report c k = (case from_cline c (report_file_name (fst k) (snd k)) of
     None \<Rightarrow> Inr None
   | Some f \<Rightarrow> bindE (parse_report f (fst k) (snd k)) (\<lambda>r. Inr (Some r)))"

lemma channel_step_modify:
  assumes "\<And>c. keeps cline_published cline_report ks c (f c)"
  shows "follows (channel_step cline_published cline_report ks) (modifyM (\<lambda>w. observe (w\<lparr>disk := f (disk w)\<rparr>)))"
proof (rule followsI)
  fix w
  show "channel_step cline_published cline_report ks w (snd (modifyM (\<lambda>w. observe (w\<lparr>disk := f (disk w)\<rparr>)) w))"
    using assms by (auto simp: exec channel_step_def intro!: exI[of _ "[f (disk w)]"])
qed

lemma clock_channel_step: "follows (channel_step pub rep ks) (clockM clk)"
  by (rule channel_reads) (rule clock_reads_only)

lemma cline_dispatch_frame: "follows (channel_step cline_published cline_report {}) (cline_dispatch c r)"
  unfolding cline_dispatch_def write_context_file_def write_task_file_def Let_def
  by (intro channelling.follows_rules channel_step_modify) (auto simp: keeps_def cline_published_def cline_report_def)

lemma cline_acknowledge_frame: "follows (channel_step cline_published cline_report {(s, a)}) (cline_acknowledge_report c s a)"
  unfolding cline_acknowledge_report_def
  by (intro channelling.follows_rules channel_step_modify clock_channel_step)
    (auto simp: keeps_def cline_published_def cline_report_def archive_report_def)

lemma cline_read_run [exec]:
  "cline_read_report s a w =
     (case from_cline (disk w) (report_file_name s a) of
        None \<Rightarrow> Inr None
      | Some f \<Rightarrow> bindE (parse_report f s a) (\<lambda>r. Inr (Some r)), w)"
  by (simp add: cline_read_report_def exec split: option.splits)

lemma write_file_run [exec]:
  "write_context_file name j w = (if unwritable (disk w) name then (Inl OSError, w)
     else (Inr (), observe (w\<lparr>disk := (disk w)\<lparr>contexts := (contexts (disk w))(name \<mapsto> j)\<rparr>\<rparr>)))"
  "write_task_file name j w = (if unwritable (disk w) name then (Inl OSError, w)
     else (Inr (), observe (w\<lparr>disk := (disk w)\<lparr>to_cline := (to_cline (disk w))(name \<mapsto> j)\<rparr>\<rparr>)))"
  by (cases "unwritable (disk w) name"; simp add: write_context_file_def write_task_file_def exec)+

text \<open>The three outcomes of a dispatch: nothing written, only the context written, both written.\<close>

lemma cline_dispatch_cases:
  defines "name r \<equiv> context_file (task_step_no (request_task r)) (task_attempt (request_task r))"
    and "file r \<equiv> task_file (task_step_no (request_task r)) (task_attempt (request_task r))"
  obtains (context_failed) "cline_dispatch c r w = (Inl TaskDispatchError, w)"
  | (task_failed) v where
      "v = observe (w\<lparr>disk := (disk w)\<lparr>contexts := (contexts (disk w))(name r \<mapsto> dump_json (request_context r))\<rparr>\<rparr>)"
      "cline_dispatch c r w = (Inl TaskDispatchError, v)"
  | (ok) v where
      "v = observe (w\<lparr>disk := (disk w)\<lparr>contexts := (contexts (disk w))(name r \<mapsto> dump_json (request_context r))\<rparr>\<rparr>)"
      "cline_dispatch c r w = (Inr (), observe (v\<lparr>disk := (disk v)\<lparr>to_cline := (to_cline (disk v))
         (file r \<mapsto> dump_json (task_payload c (request_task r) (name r)))\<rparr>\<rparr>))"
  unfolding name_def file_def
  by (cases "unwritable (disk w) (context_file (task_step_no (request_task r)) (task_attempt (request_task r)))";
      cases "unwritable (disk w) (task_file (task_step_no (request_task r)) (task_attempt (request_task r)))")
    (simp_all add: cline_dispatch_def exec Let_def)

lemma cline_acknowledge_cases:
  obtains (ok) f now where "from_cline (disk w) (report_file_name s a) = Some f"
      "cline_acknowledge_report c s a w
         = (Inr (), observe (w\<lparr>clock_reads := clock_reads w + 1, disk := archive_report s a now f (disk w)\<rparr>))"
  | (failed) e w' where "cline_acknowledge_report c s a w = (Inl e, w')" "disk w' = disk w"
proof (cases "from_cline (disk w) (report_file_name s a)")
  case None
  with failed show thesis by (simp add: cline_acknowledge_report_def exec)
next
  case (Some f)
  show thesis
  proof (cases "load_report_object f")
    case (Inl e)
    with Some failed show thesis by (simp add: cline_acknowledge_report_def exec)
  next
    case (Inr data)
    then show thesis
      using Some ok[of f] failed
      by (cases "validate_report data s a"; cases "unwritable (disk w) (report_file_name s a)")
        (simp_all add: cline_acknowledge_report_def exec)
  qed
qed

interpretation cline: worker_channel "cline_dispatch c" cline_read_report "cline_acknowledge_report c"
  cline_published cline_report for c
proof unfold_locales
  show "cline_read_report s a w = (cline_report (disk w) (s, a), w)" for s a w
    by (simp add: exec cline_report_def split: option.split)
  show "cline_dispatch c r w = (Inr (), w') \<Longrightarrow> cline_published (disk w') (task_key (request_task r))" for r w w'
    by (cases rule: cline_dispatch_cases[of c r w]) (auto simp: cline_published_def task_key_def)
  show "cline_acknowledge_report c s a w = (Inr (), w') \<Longrightarrow> cline_report (disk w') (s, a) = Inr None" for s a w w'
    by (cases rule: cline_acknowledge_cases[of w s a c]) (auto simp: cline_report_def archive_report_def)
  show "cline_acknowledge_report c s a w = (Inl e, w') \<Longrightarrow> disk w' = disk w" for s a w e w'
    by (cases rule: cline_acknowledge_cases[of w s a c]) auto
qed (simp_all add: cline_dispatch_frame cline_acknowledge_frame)

section \<open>Properties of the channel\<close>

text \<open>
  C39: The files of the channel identify their attempt: two attempts share a task, context or report
  file only if Step number and attempt are the same, also for numbers of more than three digits.
\<close>

theorem files_identify_attempt:
  "(task_file s a = task_file s' a' \<longleftrightarrow> (s, a) = (s', a')) \<and>
   (context_file s a = context_file s' a' \<longleftrightarrow> (s, a) = (s', a')) \<and>
   (report_file_name s a = report_file_name s' a' \<longleftrightarrow> (s, a) = (s', a'))"
  by simp

text \<open>Whoever sees a task file finds its context file.\<close>

definition tasks_have_contexts :: "channel \<Rightarrow> bool" where
  "tasks_have_contexts ch \<longleftrightarrow>
     (\<forall>s a. to_cline ch (task_file s a) \<noteq> None \<longrightarrow> contexts ch (context_file s a) \<noteq> None)"

lemma tasks_have_contexts_more:
  "tasks_have_contexts ch \<Longrightarrow> tasks_have_contexts (ch\<lparr>contexts := (contexts ch)(name \<mapsto> j)\<rparr>)"
  by (auto simp: tasks_have_contexts_def)

lemma tasks_have_contexts_both:
  "tasks_have_contexts ch \<Longrightarrow> tasks_have_contexts (ch\<lparr>contexts := (contexts ch)(context_file s a \<mapsto> j),
     to_cline := (to_cline ch)(task_file s a \<mapsto> k)\<rparr>)"
  by (auto simp: tasks_have_contexts_def)

text \<open>
  The task file is the commit marker: if every task of the channel has its context file before a
  dispatch, this holds in every situation the dispatch goes through, failed or not; a dispatch that
  fails changes no task file.
\<close>

theorem context_before_task:
  assumes "tasks_have_contexts (disk w)" and "cline_dispatch c r w = (res, w')"
  shows "tasks_have_contexts (disk w') \<and>
    (\<forall>(d, ch)\<in>set (drop (length (trail w)) (trail w')). tasks_have_contexts ch) \<and>
    (res \<noteq> Inr () \<longrightarrow> res = Inl TaskDispatchError \<and> to_cline (disk w') = to_cline (disk w))"
  using assms
  by (cases rule: cline_dispatch_cases[of c r w])
    (auto simp: tasks_have_contexts_more tasks_have_contexts_both)

definition sample_task :: task where
  "sample_task = \<lparr>task_step_no = 1, task_phase = Phase_LOOP, task_title = ''t'', task_description = '''',
     task_risk = Level_LOW, task_attempt = 1, task_max_attempts = 2, task_state = Task_CREATED,
     task_context_file = None, task_instructions = [], task_report_schema = [],
     task_report_status = None, task_created_at = 0\<rparr>"

definition sample_cline :: cline where
  "sample_cline = \<lparr>cline_exchange_dir = ''/data/cline'', cline_protocol = ''architecture-assistant/v1'',
     cline_project = ''demo'', cline_plan_version = ''1'', cline_clock = (\<lambda>n. int n)\<rparr>"

theorem context_before_task_witness:
  "let ch = empty_channel\<lparr>unwritable := (\<lambda>n. n = task_file 1 1)\<rparr>;
       w' = snd (cline_dispatch sample_cline \<lparr>request_task = sample_task, request_context = []\<rparr>
              (world_with empty_db ch [])) in
   tasks_have_contexts (disk w') \<and> to_cline (disk w') = to_cline ch"
proof -
  let ?w = "world_with empty_db (empty_channel\<lparr>unwritable := (\<lambda>n. n = task_file 1 1)\<rparr>) []"
  let ?r = "\<lparr>request_task = sample_task, request_context = []\<rparr>"
  obtain w' where d: "cline_dispatch sample_cline ?r ?w = (Inl TaskDispatchError, w')"
    by (rule cline_dispatch_cases[of sample_cline ?r ?w])
      (simp_all add: cline_dispatch_def exec world_with_def sample_task_def Let_def)
  have "tasks_have_contexts (disk ?w)"
    by (simp add: tasks_have_contexts_def world_with_def empty_channel_def)
  from context_before_task[OF this d] d show ?thesis
    by (simp add: world_with_def empty_channel_def Let_def)
qed

text \<open>What a published report must be for the loop to see it, field by field.\<close>

definition report_says :: "report_file \<Rightarrow> int \<Rightarrow> int \<Rightarrow> worker_result \<Rightarrow> bool" where
  "report_says f s a r \<longleftrightarrow> (\<exists>data. f = Content (JObj data) \<and>
     map_of data ''step_no'' = Some (JInt s) \<and> map_of data ''attempt'' = Some (JInt a) \<and>
     map_of data ''status'' = Some (JStr (report_status_value (worker_status r))) \<and>
     map_of data ''summary'' \<in> {None, Some (JStr (worker_summary r))} \<and>
     (map_of data ''issues'' = None \<and> worker_issues r = [] \<or>
      map_of data ''issues'' = Some (JList (map JStr (worker_issues r)))) \<and>
     (map_of data ''architecture_questions'' = None \<and> worker_questions r = [] \<or>
      map_of data ''architecture_questions'' = Some (JList (map JStr (worker_questions r)))) \<and>
     worker_raw r = Some data)"

lemma is_string_iff: "is_string j \<longleftrightarrow> j = JStr (the_string j)"
  by (cases j) auto

lemma is_string_list_iff: "is_string_list j \<longleftrightarrow> j = JList (map JStr (the_strings j))"
proof -
  have "list_all is_string xs \<longleftrightarrow> xs = map JStr (map the_string xs)" for xs
    by (induction xs) (auto simp: is_string_iff)
  then show ?thesis by (cases j) auto
qed

lemma check_number_ok [simp]: "check_number v n = Inr u \<longleftrightarrow> v = Some (JInt n)"
  by (auto simp: check_number_def split: option.splits json.splits if_splits)

lemma list_field_says:
  assumes "case map_of data f of None \<Rightarrow> True | Some v \<Rightarrow> is_string_list v"
  shows "map_of data f = None \<and> list_field data f = [] \<or>
    map_of data f = Some (JList (map JStr (list_field data f)))"
  using assms by (cases "map_of data f") (auto simp: list_field_def is_string_list_iff[symmetric])

lemma parse_report_says:
  assumes "parse_report f s a = Inr r"
  shows "report_says f s a r"
proof -
  from assms obtain data where load: "load_report_object f = Inr data"
    and valid: "validate_report data s a = Inr ()" and res: "to_worker_result data = Inr r"
    by (auto simp: parse_report_def)
  from load have f: "f = Content (JObj data)"
    by (cases f rule: load_report_object.cases) auto
  from valid obtain st where st: "map_of data ''status'' = Some (JStr st)"
    by (auto simp: validate_report_def split: option.splits json.splits)
  from res st have status: "report_status_value (worker_status r) = st"
    by (auto simp: to_worker_result_def dest!: report_status_enum.coerce_sound)
  have lists: "case map_of data g of None \<Rightarrow> True | Some v \<Rightarrow> is_string_list v"
    if "g \<in> set string_list_fields" for g
    using valid that by (auto simp: validate_report_def)
  have summary: "map_of data ''summary'' \<in> {None, Some (JStr (worker_summary r))}"
    using valid res by (auto simp: validate_report_def to_worker_result_def is_string_iff split: option.splits)
  show ?thesis
    unfolding report_says_def
    using f st status summary valid res list_field_says[OF lists[of "''issues''"]]
      list_field_says[OF lists[of "''architecture_questions''"]]
    by (auto simp: validate_report_def to_worker_result_def string_list_fields_def)
qed

text \<open>
  A report counts only for the attempt it names: reading the report of an attempt gives a result
  only if the file is a JSON object with exactly this Step number and attempt, a known status, and
  lists of texts where issues and architecture questions are given; the result repeats them, and
  reading changes nothing.
\<close>

theorem report_read_faithfully:
  assumes "cline_read_report s a w = (Inr (Some r), w')"
  shows "w' = w \<and> (\<exists>f. from_cline (disk w) (report_file_name s a) = Some f \<and> report_says f s a r)"
  using assms by (auto simp: exec dest: parse_report_says split: option.splits)

definition done_report :: "int \<Rightarrow> int \<Rightarrow> report_file" where
  "done_report s a = Content (JObj [(''step_no'', JInt s), (''attempt'', JInt a), (''status'', JStr ''DONE'')])"

definition done_result :: "int \<Rightarrow> int \<Rightarrow> worker_result" where
  "done_result s a = \<lparr>worker_status = Report_DONE, worker_summary = '''', worker_artifacts = [],
     worker_issues = [], worker_questions = [],
     worker_raw = Some [(''step_no'', JInt s), (''attempt'', JInt a), (''status'', JStr ''DONE'')]\<rparr>"

lemma parse_done_report [simp]: "parse_report (done_report s a) s a = Inr (done_result s a)"
proof -
  have "coerce_enum report_status_members report_status_value ''DONE'' = Inr Report_DONE"
    using report_status_enum.coerce_value[of Report_DONE] by simp
  then show ?thesis
    by (simp add: parse_report_def done_report_def done_result_def validate_report_def check_number_def
        to_worker_result_def list_field_def string_list_fields_def report_statuses_def report_status_members_def)
qed

theorem report_read_faithfully_witness:
  "report_says (done_report 3 1) 3 1 (done_result 3 1)"
proof -
  let ?w = "world_with empty_db (empty_channel\<lparr>from_cline := [report_file_name 3 1 \<mapsto> done_report 3 1]\<rparr>) []"
  have "cline_read_report 3 1 ?w = (Inr (Some (done_result 3 1)), ?w)"
    by (simp add: exec world_with_def)
  from report_read_faithfully[OF this] show ?thesis
    by (simp add: world_with_def)
qed

text \<open>
  Acknowledging consumes exactly the report that can be read: if it succeeds the report is a valid
  one, it is gone from the inbox and kept in the archive, and every other report is where it was; if
  it is refused, no file has moved.
\<close>

theorem acknowledge_moves_report:
  assumes "cline_acknowledge_report c s a w = (res, w')"
  shows "(case res of
      Inl e \<Rightarrow> disk w' = disk w
    | Inr _ \<Rightarrow> \<exists>f name. from_cline (disk w) (report_file_name s a) = Some f \<and>
        validate_report (case f of Content (JObj m) \<Rightarrow> m | _ \<Rightarrow> []) s a = Inr () \<and>
        from_cline (disk w') = (from_cline (disk w))(report_file_name s a := None) \<and>
        archive (disk w') = (archive (disk w))(name \<mapsto> f)) \<and>
    live w' = live w \<and> durable w' = durable w"
proof (cases res)
  case (Inl e)
  then show ?thesis
    using assms cline.acknowledge_failed[of c s a w e w'] followsD[OF cline_acknowledge_frame assms]
    by (simp add: channel_step_def)
next
  case (Inr u)
  then obtain f where f: "from_cline (disk w) (report_file_name s a) = Some f"
    using assms by (auto simp: cline_acknowledge_report_def exec split: option.splits)
  moreover from f assms Inr obtain data where "load_report_object f = Inr data"
    "validate_report data s a = Inr ()"
    by (auto simp: cline_acknowledge_report_def exec split: sum.splits)
  moreover from this have "(case f of Content (JObj m) \<Rightarrow> m | _ \<Rightarrow> []) = data"
    by (cases f rule: load_report_object.cases) auto
  moreover from assms Inr f obtain now where "disk w' = archive_report s a now f (disk w)"
    by (cases rule: cline_acknowledge_cases[of w s a c]) auto
  ultimately show ?thesis
    using Inr followsD[OF cline_acknowledge_frame assms]
    by (auto simp: archive_report_def channel_step_def)
qed

theorem acknowledge_moves_report_witness:
  "let w = world_with empty_db (empty_channel\<lparr>from_cline := [report_file_name 3 1 \<mapsto> done_report 3 1]\<rparr>) [];
       w' = snd (cline_acknowledge_report sample_cline 3 1 w) in
   from_cline (disk w') = Map.empty \<and> done_report 3 1 \<in> ran (archive (disk w'))"
proof -
  let ?w = "world_with empty_db (empty_channel\<lparr>from_cline := [report_file_name 3 1 \<mapsto> done_report 3 1]\<rparr>) []"
  have "validate_report [(''step_no'', JInt 3), (''attempt'', JInt 1), (''status'', JStr ''DONE'')] 3 1 = Inr ()"
    by (simp add: validate_report_def check_number_def string_list_fields_def report_statuses_def
        report_status_members_def)
  then obtain w' where ack: "cline_acknowledge_report sample_cline 3 1 ?w = (Inr (), w')"
    by (simp add: cline_acknowledge_report_def exec world_with_def done_report_def empty_channel_def)
  from acknowledge_moves_report[OF ack] ack show ?thesis
    by (auto simp: world_with_def empty_channel_def Let_def ran_def)
qed

end
