(* ===== verification/Realization.thy ===== *)
theory Realization
  imports Worker_Channel
begin

text \<open>
  The realization gate: the use case \<open>application/realization_control.py\<close>, which checks the persisted
  baseline and records the evidence, and the adapter \<open>composition/realization.py\<close>, which scans the
  source tree afresh and turns rule violations into findings and a decision. The contract the loop
  relies on is a locale, interpreted on the use case over the adapter.
\<close>

section \<open>The adapter\<close>

text \<open>
  \<open>adapter_digest\<close> stands for \<open>hashlib.sha1(...).hexdigest()[:12]\<close>: of the digest only that it is a
  function of the text is used. \<open>source_root\<close> is the tree of the world.
\<close>

record realization_adapter =
  adapter_baseline :: architecture_baseline
  adapter_clock :: "nat \<Rightarrow> datetime"
  adapter_digest :: "string \<Rightarrow> string"

definition VALIDATOR_SOURCE :: string where "VALIDATOR_SOURCE = ''architecture-validator''"

definition violation_finding_id :: "realization_adapter \<Rightarrow> int \<Rightarrow> int \<Rightarrow> rule_violation \<Rightarrow> string" where
  "violation_finding_id A s a v =
     ''finding-'' @ show_03d s @ ''-'' @ show_03d a @ ''-'' @
     adapter_digest A (join [CHR 0x00] [violation_rule_id v, violation_module v, violation_target v])"

definition realization_decision_id :: "int \<Rightarrow> int \<Rightarrow> string" where
  "realization_decision_id s a = ''realization-step-'' @ show_03d s @ ''-attempt-'' @ show_03d a"

definition adapter_findings ::
  "realization_adapter \<Rightarrow> validation_result \<Rightarrow> int \<Rightarrow> int \<Rightarrow> finding list io" where
  "adapter_findings A res s a =
     bindM (clockM (adapter_clock A)) (\<lambda>now.
     liftE (mapE (\<lambda>v. mk_finding
       \<lparr>finding_id = violation_finding_id A s a v, finding_source = VALIDATOR_SOURCE,
        finding_claim = violation_rule_id v,
        finding_evidence = [violation_module v, violation_target v, violation_message v],
        finding_confidence = 1, finding_severity = violation_severity v,
        finding_step_no = Some s, finding_created_at = now\<rparr>) (result_violations res)))"

definition adapter_decision ::
  "realization_adapter \<Rightarrow> validation_result \<Rightarrow> finding list \<Rightarrow> int \<Rightarrow> int \<Rightarrow> decision io" where
  "adapter_decision A res fs s a =
     (let scope = ''step '' @ show_03d s @ '' attempt '' @ show_03d a @ '' against baseline ''
            @ result_baseline_version res;
          rules = join '', '' (result_checked_rules res);
          status = (if is_compliant res then Decision_ACCEPTED else Decision_REJECTED);
          text = (if is_compliant res then ''realized source satisfies architecture baseline ''
                  else ''realized source violates architecture baseline '') @ result_baseline_version res;
          rationale = ''Fresh deterministic validation of '' @ scope @ '' with rules ('' @ rules @ '') reported ''
            @ (if is_compliant res then ''0 violations over the scanned source tree.''
               else show_nat (length fs) @ '' violation(s); verification must not continue.'')
      in
      bindM (clockM (adapter_clock A)) (\<lambda>now.
      liftE (mk_decision
        \<lparr>decision_id = realization_decision_id s a, decision_status = status,
         decision_decision = text, decision_rationale = rationale,
         decision_rules_applied = result_checked_rules res,
         decision_evidence_refs = map finding_id fs, decision_perspectives = [],
         decision_step_no = Some s, decision_created_at = now\<rparr>)))"

definition adapter_check :: "realization_adapter \<Rightarrow> int \<Rightarrow> int \<Rightarrow> check_result io" where
  "adapter_check A s a =
     thenM (liftE (requireE (1 \<le> s) ValueError))
     (thenM (liftE (requireE (1 \<le> a) ValueError))
     (bindM (getsM tree) (\<lambda>files.
      bindM (liftE (scan_directory files ROOT_PACKAGE)) (\<lambda>src.
      let res = validate_source (adapter_baseline A) src in
      bindM (adapter_findings A res s a) (\<lambda>fs.
      bindM (adapter_decision A res fs s a) (\<lambda>d.
      liftE (mk_check_result
        \<lparr>check_compliant = is_compliant res, check_baseline_version = result_baseline_version res,
         check_decision = d, check_findings = fs\<rparr>)))))))"

section \<open>The use case\<close>

definition require_authoritative_baseline :: "canonical_baseline \<Rightarrow> architecture_version io" where
  "require_authoritative_baseline c =
     bindM list_versions (\<lambda>vs.
     case filter av_is_current vs of
       [] \<Rightarrow> raiseM RealizationControlError
     | [v] \<Rightarrow>
         (if av_version v \<noteq> canonical_version c then raiseM RealizationControlError
          else if av_rules v \<noteq> canonical_rule_ids c then raiseM RealizationControlError
          else returnM v)
     | _ \<Rightarrow> raiseM RealizationControlError)"

definition realization_gate ::
  "(int \<Rightarrow> int \<Rightarrow> check_result io) \<Rightarrow> canonical_baseline \<Rightarrow> int \<Rightarrow> int \<Rightarrow> realization_gate io" where
  "realization_gate check c s a =
     bindM (require_authoritative_baseline c) (\<lambda>v.
     bindM (check s a) (\<lambda>r.
     if check_baseline_version r \<noteq> av_version v then raiseM RealizationControlError
     else
       thenM (transactionM (thenM (forM (check_findings r) upsert_finding)
                                  (upsert_decision (check_decision r))))
       (liftE (mk_gate
         \<lparr>gate_compliant = check_compliant r, gate_step_no = s, gate_attempt = a,
          gate_baseline_version = check_baseline_version r,
          gate_violation_count = length (check_findings r),
          gate_finding_ids = map finding_id (check_findings r),
          gate_decision_id = decision_id (check_decision r)\<rparr>))))"

section \<open>The contract\<close>

text \<open>What a gate may change: evidence in the open transaction, and clock readings.\<close>

definition evidence_only :: "db \<Rightarrow> db \<Rightarrow> bool" where
  "evidence_only d d' \<longleftrightarrow> d\<lparr>db_findings := [], db_decisions := []\<rparr> = d'\<lparr>db_findings := [], db_decisions := []\<rparr>"

lemma evidence_onlyD:
  assumes "evidence_only d d'"
  shows "db_projects d' = db_projects d" "db_steps d' = db_steps d" "db_tasks d' = db_tasks d"
    "db_versions d' = db_versions d" "db_audit d' = db_audit d"
proof -
  have "f (d\<lparr>db_findings := [], db_decisions := []\<rparr>) = f (d'\<lparr>db_findings := [], db_decisions := []\<rparr>)"
    for f :: "db \<Rightarrow> 'b"
    using assms by (simp add: evidence_only_def)
  from this[of db_projects] this[of db_steps] this[of db_tasks] this[of db_versions] this[of db_audit]
  show "db_projects d' = db_projects d" "db_steps d' = db_steps d" "db_tasks d' = db_tasks d"
    "db_versions d' = db_versions d" "db_audit d' = db_audit d"
    by simp_all
qed

definition evidence_step :: "world \<Rightarrow> world \<Rightarrow> bool" where
  "evidence_step w w' \<longleftrightarrow> evidence_only (live w) (live w') \<and> disk w' = disk w \<and> tree w' = tree w \<and>
     (0 < depth w \<longrightarrow> depth w' = depth w \<and> durable w' = durable w \<and> trail w' = trail w)"

interpretation evidence: progress_relation evidence_step
  by unfold_locales (auto simp: evidence_step_def evidence_only_def)

locale realization_control =
  fixes gate :: "int \<Rightarrow> int \<Rightarrow> realization_gate io"
  assumes gate_evidence: "follows evidence_step (gate s a)"
    and gate_about: "gate s a w = (Inr g, w') \<Longrightarrow> gate_step_no g = s \<and> gate_attempt g = a"
begin

lemma gate_scoped: "scoped (gate s a)"
  using gate_evidence by (auto simp: scoped_def follows_def evidence_step_def)

end

lemma evidence_reads: "follows reads_only m \<Longrightarrow> follows evidence_step m"
proof (rule followsI)
  fix w
  assume "follows reads_only m"
  then have "reads_only w (snd (m w))" by (simp add: follows_def)
  from reads_onlyD[OF this] show "evidence_step w (snd (m w))"
    by (simp add: evidence_step_def evidence_only_def)
qed

lemma check_reads_only: "follows reads_only (adapter_check A s a)"
  unfolding adapter_check_def adapter_findings_def adapter_decision_def Let_def
  by (intro reading.follows_rules clock_reads_only)

lemma baseline_reads_only: "follows reads_only (require_authoritative_baseline c)"
  unfolding require_authoritative_baseline_def list_versions_def
  by (rule reading.bind_follows) (auto intro!: reading.follows_rules split: list.splits)

lemma upsert_decision_in_scope: "0 < depth w \<Longrightarrow> evidence_step w (snd (upsert_decision d w))"
  by (simp add: exec upsert_decision_def evidence_step_def evidence_only_def)

lemma upsert_findings_in_scope: "0 < depth w \<Longrightarrow> evidence_step w (snd (forM fs upsert_finding w))"
proof (induction fs arbitrary: w)
  case Nil
  then show ?case by (simp add: exec evidence.R_refl)
next
  case (Cons f fs)
  let ?v = "w\<lparr>live := (live w)\<lparr>db_findings := put finding_id f (db_findings (live w))\<rparr>\<rparr>"
  have run: "upsert_finding f w = (Inr (), ?v)"
    using Cons.prems by (simp add: exec upsert_finding_def)
  have "evidence_step w ?v" by (simp add: evidence_step_def evidence_only_def)
  moreover have "evidence_step ?v (snd (forM fs upsert_finding ?v))"
    using Cons.prems by (intro Cons.IH) simp
  ultimately show ?case
    using run evidence.R_trans by (simp add: thenM_ok)
qed

lemma for_findings_ok: "\<exists>w'. forM fs upsert_finding w = (Inr (), w')"
  by (induction fs arbitrary: w) (simp_all add: exec upsert_finding_def)

text \<open>Recording the evidence: inside a scope it only changes the two tables, at rest it commits them.\<close>

lemma record_evidence:
  "evidence_step w (snd (transactionM (thenM (forM fs upsert_finding) (upsert_decision d)) w))"
proof -
  let ?w = "w\<lparr>depth := depth w + 1\<rparr>"
  obtain v where v: "forM fs upsert_finding ?w = (Inr (), v)" using for_findings_ok by blast
  have "evidence_step ?w v" using upsert_findings_in_scope[of ?w fs] v by simp
  moreover have "0 < depth v" using calculation by (simp add: evidence_step_def)
  then have "evidence_step v (snd (upsert_decision d v))" by (rule upsert_decision_in_scope)
  ultimately have "evidence_step ?w (snd (upsert_decision d v))" by (rule evidence.R_trans)
  then show ?thesis
    using v by (cases "depth w = 0")
      (auto simp: transactionM_def exec upsert_decision_def evidence_step_def evidence_only_def)
qed

lemma record_follows: "follows evidence_step (transactionM (thenM (forM fs upsert_finding) (upsert_decision d)))"
  by (simp add: follows_def record_evidence)

lemma gate_evidence_step:
  assumes "\<And>s a. follows reads_only (check s a)"
  shows "follows evidence_step (realization_gate check c s a)"
  unfolding realization_gate_def
  by (intro evidence.follows_rules record_follows evidence_reads[OF baseline_reads_only]
      evidence_reads[OF assms])

lemma mk_gate_iff: "mk_gate g = Inr g' \<Longrightarrow> g' = g"
  by (simp add: mk_gate_def)

lemma gate_about_attempt:
  "realization_gate check c s a w = (Inr g, w') \<Longrightarrow> gate_step_no g = s \<and> gate_attempt g = a"
  unfolding realization_gate_def bindM_Inr_iff
  by (auto simp: if_run raiseM_run liftE_run thenM_Inr_iff dest!: mk_gate_iff split: if_splits)

interpretation gate: realization_control "realization_gate (adapter_check A) c" for A c
  by unfold_locales (auto intro: gate_evidence_step check_reads_only dest: gate_about_attempt)

section \<open>Properties of the gate\<close>

lemma gate_closed:
  assumes "\<nexists>v. filter av_is_current (db_versions (live w)) = [v] \<and>
      av_version v = canonical_version c \<and> av_rules v = canonical_rule_ids c"
  shows "realization_gate check c s a w = (Inl RealizationControlError, w)"
proof -
  have sorted: "filter av_is_current (sort_key av_version (db_versions (live w)))
      = sort_key av_version (filter av_is_current (db_versions (live w)))"
    by (simp add: filter_sort)
  have "require_authoritative_baseline c w = (Inl RealizationControlError, w)"
    unfolding require_authoritative_baseline_def list_versions_def
    using assms sort_key_single[of av_version "filter av_is_current (db_versions (live w))"]
    by (auto simp: exec sorted split: list.splits)
  then show ?thesis by (simp add: realization_gate_def bindM_err)
qed

text \<open>
  C40: The gate is fail-closed: unless the database holds exactly one current architecture version and
  it carries the canonical version and rule identifiers, the gate raises
  \<open>RealizationControlError\<close> before the source is inspected, and changes nothing, whatever the check
  would say.
\<close>

theorem gate_fail_closed:
  assumes "\<nexists>v. filter av_is_current (db_versions (live w)) = [v] \<and>
      av_version v = canonical_version c \<and> av_rules v = canonical_rule_ids c"
  shows "realization_gate check c s a w = (Inl RealizationControlError, w)"
  using assms by (rule gate_closed)

definition sample_version :: architecture_version where
  "sample_version = \<lparr>av_version = ''1.1'', av_baseline = '''',
     av_rules = [UNKNOWN_LAYER, FORBIDDEN_LAYER_IMPORT, SQLITE_OUTSIDE_INFRASTRUCTURE],
     av_superseded_by = None, av_is_current = True, av_created_at = 0\<rparr>"

definition current_canonical :: canonical_baseline where
  "current_canonical = \<lparr>canonical_version = baseline_version ARCHITECTURE_CURRENT,
     canonical_rule_ids = baseline_rule_ids ARCHITECTURE_CURRENT\<rparr>"

definition sample_adapter :: realization_adapter where
  "sample_adapter = \<lparr>adapter_baseline = ARCHITECTURE_CURRENT, adapter_clock = (\<lambda>n. int n),
     adapter_digest = (\<lambda>t. ''0123456789ab'')\<rparr>"

theorem gate_fail_closed_witness:
  "realization_gate (adapter_check sample_adapter) current_canonical 1 1
     (world_with (empty_db\<lparr>db_versions := [sample_version, sample_version\<lparr>av_version := ''1.0''\<rparr>]\<rparr>) empty_channel [])
   = (Inl RealizationControlError,
      world_with (empty_db\<lparr>db_versions := [sample_version, sample_version\<lparr>av_version := ''1.0''\<rparr>]\<rparr>) empty_channel [])"
  by (rule gate_fail_closed) (simp add: world_with_def sample_version_def)

lemma upsert_findings_run:
  "0 < depth w \<Longrightarrow> forM fs upsert_finding w
     = (Inr (), w\<lparr>live := (live w)\<lparr>db_findings := fold (put finding_id) fs (db_findings (live w))\<rparr>\<rparr>)"
  by (induction fs arbitrary: w) (simp_all add: exec upsert_finding_def)

lemma record_evidence_run:
  "\<exists>w'. transactionM (thenM (forM fs upsert_finding) (upsert_decision d)) w = (Inr (), w') \<and>
     live w' = (live w)\<lparr>db_findings := fold (put finding_id) fs (db_findings (live w)),
                       db_decisions := put decision_id d (db_decisions (live w))\<rparr>"
  by (cases "depth w = 0")
    (simp_all add: transactionM_def thenM_run upsert_findings_run upsert_decision_def execute_write_run)

lemma fold_put_keys: "key ` set (fold (put key) xs ms) = key ` set ms \<union> key ` set xs"
  by (induction xs arbitrary: ms) (auto simp: put_keys[unfolded set_map])

lemma mk_returns_finding: "mapE (\<lambda>v. mk_finding (f v)) vs = Inr fs \<Longrightarrow> fs = map f vs"
  by (induction vs arbitrary: fs) (auto simp: mk_returns_argument)

lemma adapter_decision_status:
  "adapter_decision A res fs s a u = (Inr d, v) \<Longrightarrow> decision_status d = Decision_ACCEPTED \<longleftrightarrow> is_compliant res"
  by (cases "is_compliant res") (auto simp: adapter_decision_def exec Let_def dest!: mk_returns_argument(9))

lemma adapter_check_ok:
  assumes "adapter_check A s a w = (Inr r, w')"
  obtains src where "scan_directory (tree w) ROOT_PACKAGE = Inr src"
    "check_compliant r \<longleftrightarrow> is_compliant (validate_source (adapter_baseline A) src)"
    "length (check_findings r) = length (result_violations (validate_source (adapter_baseline A) src))"
    "check_baseline_version r = baseline_version (adapter_baseline A)"
    "decision_status (check_decision r) = Decision_ACCEPTED \<longleftrightarrow> check_compliant r"
    "1 \<le> s" "1 \<le> a"
proof -
  have ret: "mk_check_result x = Inr y \<Longrightarrow> y = x" for x y
    by (simp add: mk_check_result_def)
  from assms obtain src fs d u v where
    src: "1 \<le> s" "1 \<le> a" "scan_directory (tree w) ROOT_PACKAGE = Inr src" and
    fs: "adapter_findings A (validate_source (adapter_baseline A) src) s a w = (Inr fs, u)" and
    d: "adapter_decision A (validate_source (adapter_baseline A) src) fs s a u = (Inr d, v)" and
    r: "r = \<lparr>check_compliant = is_compliant (validate_source (adapter_baseline A) src),
        check_baseline_version = baseline_version (adapter_baseline A), check_decision = d, check_findings = fs\<rparr>"
    unfolding adapter_check_def bindM_Inr_iff thenM_Inr_iff
    by (auto simp: Let_def bindM_Inr_iff liftE_run getsM_run validate_source_def dest!: ret)
  have "length fs = length (result_violations (validate_source (adapter_baseline A) src))"
    using fs by (auto simp: adapter_findings_def exec dest!: mapE_Inr_length)
  moreover have "decision_status d = Decision_ACCEPTED \<longleftrightarrow> is_compliant (validate_source (adapter_baseline A) src)"
    using d by (rule adapter_decision_status)
  ultimately show thesis
    using that src r by auto
qed

lemma gate_verdict:
  assumes "realization_gate (adapter_check A) c s a w = (Inr g, w')"
  shows "\<exists>src. scan_directory (tree w) ROOT_PACKAGE = Inr src \<and>
    baseline_version (adapter_baseline A) = canonical_version c \<and>
    (gate_compliant g \<longleftrightarrow> is_compliant (validate_source (adapter_baseline A) src)) \<and>
    gate_violation_count g = length (result_violations (validate_source (adapter_baseline A) src)) \<and>
    (\<exists>d. lookup decision_id (gate_decision_id g) (db_decisions (live w')) = Some d \<and>
         (decision_status d = Decision_ACCEPTED \<longleftrightarrow> gate_compliant g)) \<and>
    set (gate_finding_ids g) \<subseteq> finding_id ` set (db_findings (live w'))"
proof -
  from assms obtain v r u x where
    v: "require_authoritative_baseline c w = (Inr v, u)" "check_baseline_version r = av_version v" and
    r: "adapter_check A s a u = (Inr r, x)" and
    t: "transactionM (thenM (forM (check_findings r) upsert_finding) (upsert_decision (check_decision r))) x
          = (Inr (), w')" and
    g: "g = \<lparr>gate_compliant = check_compliant r, gate_step_no = s, gate_attempt = a,
      gate_baseline_version = check_baseline_version r, gate_violation_count = length (check_findings r),
      gate_finding_ids = map finding_id (check_findings r), gate_decision_id = decision_id (check_decision r)\<rparr>"
    unfolding realization_gate_def bindM_Inr_iff
    by (auto simp: if_run raiseM_run liftE_run thenM_Inr_iff dest!: mk_gate_iff split: if_splits)
  have "tree u = tree w"
    using followsD[OF baseline_reads_only v(1)] by (rule reads_onlyD)
  moreover have "av_version v = canonical_version c"
    using v(1) by (auto simp: require_authoritative_baseline_def list_versions_def exec split: list.splits if_splits)
  moreover have live: "live w' = (live x)\<lparr>db_findings := fold (put finding_id) (check_findings r) (db_findings (live x)),
      db_decisions := put decision_id (check_decision r) (db_decisions (live x))\<rparr>"
    using record_evidence_run[of "check_findings r" "check_decision r" x] t by auto
  then have "set (gate_finding_ids g) \<subseteq> finding_id ` set (db_findings (live w'))"
    by (simp add: g fold_put_keys)
  ultimately show ?thesis
    by (rule_tac adapter_check_ok[OF r]) (use v(2) g in \<open>auto simp: live\<close>)
qed

text \<open>
  A verdict of the gate is fresh and recorded: it says compliant exactly when the validation of
  the tree as it is now reports no violation against the canonical baseline version, no stored finding
  or decision takes part, and the decision and all findings it names are in the database afterwards.
\<close>

theorem gate_verdict_fresh:
  assumes "realization_gate (adapter_check A) c s a w = (Inr g, w')"
  shows "\<exists>src. scan_directory (tree w) ROOT_PACKAGE = Inr src \<and>
    baseline_version (adapter_baseline A) = canonical_version c \<and>
    (gate_compliant g \<longleftrightarrow> is_compliant (validate_source (adapter_baseline A) src)) \<and>
    gate_violation_count g = length (result_violations (validate_source (adapter_baseline A) src)) \<and>
    (\<exists>d. lookup decision_id (gate_decision_id g) (db_decisions (live w')) = Some d \<and>
         (decision_status d = Decision_ACCEPTED \<longleftrightarrow> gate_compliant g)) \<and>
    set (gate_finding_ids g) \<subseteq> finding_id ` set (db_findings (live w'))"
  using assms by (rule gate_verdict)

theorem gate_verdict_fresh_witness:
  "\<exists>g w'. realization_gate (adapter_check sample_adapter) current_canonical 1 1
      (world_with (empty_db\<lparr>db_versions := [sample_version]\<rparr>) empty_channel
        (domain_tree (Import [''sqlite3'']))) = (Inr g, w') \<and> \<not> gate_compliant g"
proof -
  let ?w = "world_with (empty_db\<lparr>db_versions := [sample_version]\<rparr>) empty_channel (domain_tree (Import [''sqlite3'']))"
  have "isl (fst (realization_gate (adapter_check sample_adapter) current_canonical 1 1 ?w)) = False"
    by code_simp
  then obtain g w' where run: "realization_gate (adapter_check sample_adapter) current_canonical 1 1 ?w = (Inr g, w')"
    using returns_obtain by blast
  obtain src where "scan_directory (domain_tree (Import [''sqlite3''])) ROOT_PACKAGE = Inr src"
    "gate_compliant g \<longleftrightarrow> is_compliant (validate_source ARCHITECTURE_CURRENT src)"
    using gate_verdict_fresh[OF run] by (auto simp: world_with_def sample_adapter_def)
  moreover have "scan_and_validate (domain_tree (Import [''sqlite3''])) = Inr False"
    by code_simp
  ultimately have "\<not> gate_compliant g" by (simp add: scan_and_validate_def)
  with run show ?thesis by blast
qed

end
