(* ===== verification/Orchestrator.thy ===== *)
theory Orchestrator
  imports Realization
begin

text \<open>
  The loop (\<open>application/orchestrator.py\<close>): one call of \<open>run_once\<close> looks at the persisted state of the
  current Step and performs at most one transition. The worker channel, the realization gate and the
  clock are a record of operations, as the constructor takes them; the database is the world's.
\<close>

section \<open>Dependencies and results\<close>

record ports =
  port_dispatch :: "worker_request \<Rightarrow> unit io"
  port_read :: "int \<Rightarrow> int \<Rightarrow> worker_result option io"
  port_acknowledge :: "int \<Rightarrow> int \<Rightarrow> unit io"
  port_gate :: "int \<Rightarrow> int \<Rightarrow> realization_gate io"
  port_clock :: "nat \<Rightarrow> datetime"
  port_timeout :: "int option"
  port_instructions :: mapping
  port_report_schema :: mapping

definition DEFAULT_STEP_TIMEOUT :: "int option" where
  "DEFAULT_STEP_TIMEOUT = Some (24 * 60 * 60 * 1000000)"

definition DEFAULT_TASK_INSTRUCTIONS :: mapping where
  "DEFAULT_TASK_INSTRUCTIONS =
     [(''plan_first'', JBool True),
      (''wait_for_approval_if_manual'', JBool True),
      (''scope'', JStr ''Only current step''),
      (''architecture_change'', JStr ''STOP and report architecture_questions''),
      (''tests'', JStr ''Run relevant tests and report counts''),
      (''report'', JStr ''Write the exact report schema to from_cline'')]"

definition DEFAULT_REPORT_SCHEMA :: mapping where
  "DEFAULT_REPORT_SCHEMA =
     [(''step_no'', JStr ''int''),
      (''status'', JStr ''DONE|REVISE|BLOCKED|FAILED''),
      (''files_created'', JList []),
      (''files_changed'', JList []),
      (''files_deleted'', JList []),
      (''tests'', JObj [(''passed'', JStr ''int''), (''failed'', JStr ''int''), (''command'', JStr ''str'')]),
      (''dependencies_added'', JList []),
      (''architecture_questions'', JList []),
      (''issues'', JList []),
      (''summary'', JStr ''str'')]"

text \<open>The constructor refuses a timeout that is not positive; its other checks are on types.\<close>

definition mk_orchestrator :: "ports \<Rightarrow> exn + ports" where
  "mk_orchestrator P =
     bindE (case port_timeout P of None \<Rightarrow> Inr () | Some t \<Rightarrow> requireE (0 < t) ValueError) (\<lambda>_. Inr P)"

datatype loop_status =
    Loop_TRANSITIONED
  | Loop_WAITING
  | Loop_COMPLETE
  | Loop_ABORTED
  | Loop_NO_STEPS
  | Loop_PAUSED

record tick_result =
  tick_status :: loop_status
  tick_step_no :: "int option"
  tick_event :: "step_event option"
  tick_from :: "step_state option"
  tick_to :: "step_state option"
  tick_reason :: string
  tick_attempt :: "int option"
  tick_acknowledged :: bool
  tick_ack_error :: "exn option"

definition tick_of :: "loop_status \<Rightarrow> string \<Rightarrow> tick_result" where
  "tick_of st reason = \<lparr>tick_status = st, tick_step_no = None, tick_event = None, tick_from = None,
     tick_to = None, tick_reason = reason, tick_attempt = None, tick_acknowledged = False,
     tick_ack_error = None\<rparr>"

fun halting_reason :: "step_state \<Rightarrow> string option" where
  "halting_reason Step_WAITING_APPROVAL = Some ''human-approval-required''"
| "halting_reason Step_BLOCKED = Some ''human-unblock-required''"
| "halting_reason Step_CONFLICT = Some ''human-conflict-resolution-required''"
| "halting_reason _ = None"

section \<open>Source of truth\<close>

definition current_of :: "step list \<Rightarrow> step option" where
  "current_of steps = find (\<lambda>s. step_state s \<noteq> Step_VERIFIED) (sort_key step_no steps)"

definition require_project :: "project io" where
  "require_project =
     bindM list_projects (\<lambda>ps. case ps of [p] \<Rightarrow> returnM p | _ \<Rightarrow> raiseM LoopInvariantError)"

definition current_step :: "step option io" where
  "current_step = bindM list_steps (\<lambda>ss. returnM (current_of ss))"

definition next_step_no :: "int option io" where
  "next_step_no =
     bindM list_steps (\<lambda>ss.
     returnM (case current_of ss of
       None \<Rightarrow> None
     | Some c \<Rightarrow>
         (case sort (map step_no (filter (\<lambda>s. step_no c < step_no s) ss)) of
            [] \<Rightarrow> None | n # _ \<Rightarrow> Some n)))"

definition is_complete :: "bool io" where
  "is_complete =
     bindM list_steps (\<lambda>ss. returnM (ss \<noteq> [] \<and> list_all (\<lambda>s. step_state s = Step_VERIFIED) ss))"

definition is_paused :: "bool io" where
  "is_paused = bindM require_project (\<lambda>p. returnM (project_paused p))"

definition step_count :: "nat io" where
  "step_count = bindM list_steps (\<lambda>ss. returnM (length ss))"

section \<open>Persistence\<close>

text \<open>The Step after a transition, and the audit entry of the transition.\<close>

definition transition_step :: "step \<Rightarrow> step_state \<Rightarrow> int \<Rightarrow> bool \<Rightarrow> datetime \<Rightarrow> step" where
  "transition_step s to attempt start_clock now =
     (let s1 = s\<lparr>step_state := to, step_attempt := attempt, step_last_update_at := Some now\<rparr>;
          s2 = (if start_clock \<and> step_started_at s = None then s1\<lparr>step_started_at := Some now\<rparr> else s1)
      in if to = Step_VERIFIED then s2\<lparr>step_verified_at := Some now, step_finished_at := Some now\<rparr>
         else if to = Step_ABORTED then s2\<lparr>step_finished_at := Some now\<rparr>
         else s2)"

definition transition_entry ::
  "step \<Rightarrow> step_event \<Rightarrow> step_state \<Rightarrow> int \<Rightarrow> string \<Rightarrow> datetime \<Rightarrow> audit_entry" where
  "transition_entry s ev to attempt reason now =
     \<lparr>entry_entity_type = Entity_STEP, entry_entity_id = show_int (step_no s), entry_action = Act_UPDATE,
      entry_detail =
        [(''step_no'', JInt (step_no s)),
         (''event'', JStr (step_event_value ev)),
         (''from'', JStr (step_state_value (step_state s))),
         (''to'', JStr (step_state_value to)),
         (''attempt'', JInt attempt),
         (''reason'', JStr reason)],
      entry_created_at = now\<rparr>"

text \<open>The three writes of a transition, inside one transaction.\<close>

definition persist_transition :: "step \<Rightarrow> task option \<Rightarrow> audit_entry \<Rightarrow> unit io" where
  "persist_transition s t e =
     transactionM
       (thenM (upsert_step s)
       (thenM (case t of None \<Rightarrow> returnM () | Some x \<Rightarrow> upsert_task x)
              (append_audit e)))"

definition transitionM ::
  "ports \<Rightarrow> step \<Rightarrow> step_event \<Rightarrow> string \<Rightarrow> int option \<Rightarrow> task option \<Rightarrow> bool \<Rightarrow> tick_result io" where
  "transitionM P s ev reason attempt t start_clock =
     bindM (liftE (step_next (step_state s) ev)) (\<lambda>to.
     bindM (clockM (port_clock P)) (\<lambda>now.
     let attempt_value = (case attempt of None \<Rightarrow> step_attempt s | Some a \<Rightarrow> a) in
     bindM (liftE (mk_step (transition_step s to attempt_value start_clock now))) (\<lambda>updated.
     bindM (liftE (mk_audit_entry (transition_entry s ev to attempt_value reason now))) (\<lambda>entry.
     thenM (persist_transition updated t entry)
     (returnM \<lparr>tick_status = Loop_TRANSITIONED, tick_step_no = Some (step_no s), tick_event = Some ev,
        tick_from = Some (step_state s), tick_to = Some to, tick_reason = reason,
        tick_attempt = Some attempt_value, tick_acknowledged = False, tick_ack_error = None\<rparr>)))))"

text \<open>\<open>_acknowledge\<close>: any exception is reported, never raised.\<close>

definition acknowledgeM :: "ports \<Rightarrow> step \<Rightarrow> (bool \<times> exn option) io" where
  "acknowledgeM P s =
     catchM (thenM (port_acknowledge P (step_no s) (step_attempt s)) (returnM (True, None)))
       (\<lambda>e. returnM (False, Some e))"

definition advance_task :: "step \<Rightarrow> task_event \<Rightarrow> report_status option \<Rightarrow> task option io" where
  "advance_task s ev status =
     bindM (get_task (step_no s, step_attempt s)) (\<lambda>found.
     case found of
       None \<Rightarrow> returnM None
     | Some t \<Rightarrow>
         (case task_next (task_state t) ev of
            Inl e \<Rightarrow> returnM None
          | Inr st \<Rightarrow>
              bindM (liftE (mk_task
                (case status of
                   None \<Rightarrow> t\<lparr>task_state := st\<rparr>
                 | Some r \<Rightarrow> t\<lparr>task_state := st, task_report_status := Some r\<rparr>))) (\<lambda>t'.
              returnM (Some t'))))"

definition timed_out :: "ports \<Rightarrow> step \<Rightarrow> bool io" where
  "timed_out P s =
     (case port_timeout P of
        None \<Rightarrow> returnM False
      | Some limit \<Rightarrow>
          (case (case step_last_update_at s of None \<Rightarrow> step_started_at s | Some t \<Rightarrow> Some t) of
             None \<Rightarrow> returnM False
           | Some reference \<Rightarrow> bindM (clockM (port_clock P)) (\<lambda>now. returnM (now - reference > limit))))"

definition waitM :: "step \<Rightarrow> string \<Rightarrow> tick_result io" where
  "waitM s reason = returnM
     \<lparr>tick_status = Loop_WAITING, tick_step_no = Some (step_no s), tick_event = None,
      tick_from = Some (step_state s), tick_to = Some (step_state s), tick_reason = reason,
      tick_attempt = Some (step_attempt s), tick_acknowledged = False, tick_ack_error = None\<rparr>"

section \<open>Handlers\<close>

definition dispatchM :: "ports \<Rightarrow> step \<Rightarrow> tick_result io" where
  "dispatchM P s =
     (let attempt = max (step_attempt s) 1 in
      bindM (clockM (port_clock P)) (\<lambda>now.
      bindM (publish_task (port_dispatch P) (port_clock P) s attempt (port_instructions P)
               (port_report_schema P) now) (\<lambda>dispatched.
      transitionM P s Ev_DISPATCH ''dispatched'' (Some attempt) (Some dispatched) True)))"

definition from_ready :: "ports \<Rightarrow> step \<Rightarrow> project \<Rightarrow> tick_result io" where
  "from_ready P s p =
     (if requires_approval (project_mode p) (step_risk s) (step_requires_human s)
      then transitionM P s Ev_REQUEST_APPROVAL ''approval-required'' None None False
      else dispatchM P s)"

definition collectM :: "ports \<Rightarrow> step \<Rightarrow> bool \<Rightarrow> tick_result io" where
  "collectM P s allow_start =
     bindM (port_read P (step_no s) (step_attempt s)) (\<lambda>report.
     case report of
       Some r \<Rightarrow>
         bindM (advance_task s TaskEv_RECEIVE_REPORT (Some (worker_status r))) (\<lambda>t.
         transitionM P s Ev_RECEIVE_REPORT ''report-received'' None t False)
     | None \<Rightarrow>
         bindM (timed_out P s) (\<lambda>late.
         if late then
           bindM (advance_task s TaskEv_FAIL None) (\<lambda>t.
           transitionM P s Ev_FAIL ''timeout'' None t False)
         else if allow_start then transitionM P s Ev_CLINE_START ''worker-started'' None None True
         else waitM s ''worker-report-pending''))"

definition reviewM :: "ports \<Rightarrow> step \<Rightarrow> tick_result io" where
  "reviewM P s =
     bindM (port_read P (step_no s) (step_attempt s)) (\<lambda>report.
     case report of
       None \<Rightarrow> waitM s ''report-missing-after-received''
     | Some r \<Rightarrow>
         bindM (liftE (decide_review r (step_attempt s) (step_max_attempts s))) (\<lambda>outcome.
         bindM
           (if outcome_event outcome = Ev_VERIFY then
              transactionM
                (bindM (port_gate P (step_no s) (step_attempt s)) (\<lambda>g.
                 let out = (if \<not> gate_compliant g
                            then \<lparr>outcome_event = Ev_BLOCK, outcome_reason = ''architecture-violation''\<rparr>
                            else outcome) in
                 transitionM P s (outcome_event out) (outcome_reason out) None None False))
            else transitionM P s (outcome_event outcome) (outcome_reason outcome) None None False) (\<lambda>result.
         bindM (acknowledgeM P s) (\<lambda>(acknowledged, ack_error).
         returnM (result\<lparr>tick_acknowledged := acknowledged, tick_ack_error := ack_error\<rparr>)))))"

definition retry_or_abort :: "ports \<Rightarrow> step \<Rightarrow> tick_result io" where
  "retry_or_abort P s =
     (if can_retry s then transitionM P s Ev_RETRY ''retry'' (Some (step_attempt s + 1)) None False
      else if step_state s = Step_FAILED
      then transitionM P s Ev_ABORT ''attempts-exhausted'' None None False
      else waitM s ''revise-attempts-exhausted'')"

definition advance :: "ports \<Rightarrow> step \<Rightarrow> project \<Rightarrow> tick_result io" where
  "advance P s p =
     (case step_state s of
        Step_PENDING \<Rightarrow> transitionM P s Ev_PREPARE ''prepared'' (Some (max (step_attempt s) 1)) None False
      | Step_READY \<Rightarrow> from_ready P s p
      | Step_WAITING_APPROVAL \<Rightarrow> waitM s ''human-approval-required''
      | Step_BLOCKED \<Rightarrow> waitM s ''human-unblock-required''
      | Step_CONFLICT \<Rightarrow> waitM s ''human-conflict-resolution-required''
      | Step_DISPATCHED \<Rightarrow> collectM P s True
      | Step_CLINE_WORKING \<Rightarrow> collectM P s False
      | Step_REPORT_RECEIVED \<Rightarrow> transitionM P s Ev_START_REVIEW ''review-started'' None None False
      | Step_REVIEWING \<Rightarrow> reviewM P s
      | Step_REVISE \<Rightarrow> retry_or_abort P s
      | Step_FAILED \<Rightarrow> retry_or_abort P s
      | Step_ABORTED \<Rightarrow> returnM
          ((tick_of Loop_ABORTED ''step-aborted'')\<lparr>tick_step_no := Some (step_no s),
             tick_from := Some (step_state s), tick_to := Some (step_state s),
             tick_attempt := Some (step_attempt s)\<rparr>)
      | Step_VERIFIED \<Rightarrow> raiseM LoopInvariantError)"

definition run_once :: "ports \<Rightarrow> tick_result io" where
  "run_once P =
     bindM require_project (\<lambda>p.
     if project_paused p then returnM (tick_of Loop_PAUSED ''project-paused'')
     else
       bindM list_steps (\<lambda>ss.
       if ss = [] then returnM (tick_of Loop_NO_STEPS ''no-steps'')
       else
         (case current_of ss of
            None \<Rightarrow> returnM (tick_of Loop_COMPLETE ''all-steps-verified'')
          | Some s \<Rightarrow> advance P s p)))"

lemma halting_reasons_routed:
  "halting_reason (step_state s) = Some reason \<Longrightarrow> advance P s p = waitM s reason"
  by (cases "step_state s") (auto simp: advance_def)

end
