(* ===== verification/Loop.thy ===== *)
theory Loop
  imports Orchestrator
begin

text \<open>
  What one tick does. \<open>plan\<close> is the abstract loop: a pure function of the current Step, the project and
  what the tick observes (report, deadline, verdict). \<open>still\<close> and \<open>move_step\<close> are the two effects a
  tick can have on the world. Inside the locale \<open>loop\<close>, which only knows the contracts of the worker
  channel and the realization gate, \<open>run_once\<close> is proved to follow the plan with exactly these effects;
  the locale is interpreted on the Cline adapter and the realization use case.
\<close>

section \<open>The plan\<close>

datatype move = Halt loop_status string | Fire step_event string

definition review_move :: "step \<Rightarrow> worker_result \<Rightarrow> bool \<Rightarrow> move" where
  "review_move s r compliant =
     (case decide_review r (step_attempt s) (step_max_attempts s) of
        Inl e \<Rightarrow> Halt Loop_WAITING ''''
      | Inr out \<Rightarrow>
          if outcome_event out = Ev_VERIFY \<and> \<not> compliant then Fire Ev_BLOCK ''architecture-violation''
          else Fire (outcome_event out) (outcome_reason out))"

definition plan :: "project \<Rightarrow> step \<Rightarrow> worker_result option \<Rightarrow> bool \<Rightarrow> bool \<Rightarrow> move" where
  "plan p s report late compliant =
     (case step_state s of
        Step_PENDING \<Rightarrow> Fire Ev_PREPARE ''prepared''
      | Step_READY \<Rightarrow>
          if requires_approval (project_mode p) (step_risk s) (step_requires_human s)
          then Fire Ev_REQUEST_APPROVAL ''approval-required'' else Fire Ev_DISPATCH ''dispatched''
      | Step_WAITING_APPROVAL \<Rightarrow> Halt Loop_WAITING ''human-approval-required''
      | Step_BLOCKED \<Rightarrow> Halt Loop_WAITING ''human-unblock-required''
      | Step_CONFLICT \<Rightarrow> Halt Loop_WAITING ''human-conflict-resolution-required''
      | Step_DISPATCHED \<Rightarrow>
          if report \<noteq> None then Fire Ev_RECEIVE_REPORT ''report-received''
          else if late then Fire Ev_FAIL ''timeout'' else Fire Ev_CLINE_START ''worker-started''
      | Step_CLINE_WORKING \<Rightarrow>
          if report \<noteq> None then Fire Ev_RECEIVE_REPORT ''report-received''
          else if late then Fire Ev_FAIL ''timeout'' else Halt Loop_WAITING ''worker-report-pending''
      | Step_REPORT_RECEIVED \<Rightarrow> Fire Ev_START_REVIEW ''review-started''
      | Step_REVIEWING \<Rightarrow>
          (case report of
             None \<Rightarrow> Halt Loop_WAITING ''report-missing-after-received''
           | Some r \<Rightarrow> review_move s r compliant)
      | Step_REVISE \<Rightarrow>
          if can_retry s then Fire Ev_RETRY ''retry'' else Halt Loop_WAITING ''revise-attempts-exhausted''
      | Step_FAILED \<Rightarrow>
          if can_retry s then Fire Ev_RETRY ''retry'' else Fire Ev_ABORT ''attempts-exhausted''
      | Step_ABORTED \<Rightarrow> Halt Loop_ABORTED ''step-aborted''
      | Step_VERIFIED \<Rightarrow> Halt Loop_WAITING '''')"

text \<open>The attempt a move leaves behind.\<close>

definition next_attempt :: "step \<Rightarrow> step_event \<Rightarrow> int" where
  "next_attempt s ev =
     (if ev = Ev_PREPARE \<or> ev = Ev_DISPATCH then max (step_attempt s) 1
      else if ev = Ev_RETRY then step_attempt s + 1 else step_attempt s)"

section \<open>Effects\<close>

definition persisted :: "step \<Rightarrow> task option \<Rightarrow> audit_entry \<Rightarrow> db \<Rightarrow> db" where
  "persisted u t e d = d\<lparr>db_steps := put step_no u (db_steps d),
     db_tasks := (case t of None \<Rightarrow> db_tasks d | Some x \<Rightarrow> put task_key x (db_tasks d)),
     db_audit := db_audit d @ [e]\<rparr>"

text \<open>The database after one transition of \<open>s\<close> to \<open>u\<close>: evidence aside, the Step, at most a Task of the
  same Step, and one audit entry.\<close>

definition moved :: "step \<Rightarrow> step_event \<Rightarrow> string \<Rightarrow> step \<Rightarrow> db \<Rightarrow> db \<Rightarrow> bool" where
  "moved s ev reason u d d' \<longleftrightarrow> valid_step u \<and>
     (\<exists>to t d1 start now. step_next (step_state s) ev = Inr to \<and> evidence_only d d1 \<and>
        u = transition_step s to (next_attempt s ev) start now \<and>
        (\<forall>x. t = Some x \<longrightarrow> task_step_no x = step_no s) \<and>
        d' = persisted u t (transition_entry s ev to (next_attempt s ev) reason now) d1)"

definition still :: "(channel \<Rightarrow> attempt_key \<Rightarrow> bool) \<Rightarrow> report_view \<Rightarrow> world \<Rightarrow> world \<Rightarrow> bool" where
  "still pub rep w w' \<longleftrightarrow> channel_step pub rep {} w w'"

text \<open>
  A transition: channel work first (\<open>w\<close> to \<open>v\<close>), then the commit (\<open>x\<close>), then, after a review, the
  acknowledgement of the report (\<open>x\<close> to \<open>w'\<close>).
\<close>

definition commit_step :: "(channel \<Rightarrow> attempt_key \<Rightarrow> bool) \<Rightarrow> report_view \<Rightarrow>
    step \<Rightarrow> step_event \<Rightarrow> string \<Rightarrow> step \<Rightarrow> world \<Rightarrow> world \<Rightarrow> bool" where
  "commit_step pub rep s ev reason u w x \<longleftrightarrow>
     moved s ev reason u (live w) (live x) \<and> idle x \<and>
     (\<exists>v. channel_step pub rep {} w v \<and> disk x = disk v \<and> tree x = tree v \<and>
        trail x = trail v @ [(live x, disk v)] \<and>
        (ev = Ev_DISPATCH \<longrightarrow> pub (disk v) (step_no u, step_attempt u)))"

definition move_step :: "(channel \<Rightarrow> attempt_key \<Rightarrow> bool) \<Rightarrow> report_view \<Rightarrow>
    step \<Rightarrow> step_event \<Rightarrow> string \<Rightarrow> step \<Rightarrow> world \<Rightarrow> world \<Rightarrow> bool" where
  "move_step pub rep s ev reason u w w' \<longleftrightarrow>
     (\<exists>x. commit_step pub rep s ev reason u w x \<and>
        channel_step pub rep (if step_state s = Step_REVIEWING then {(step_no s, step_attempt s)} else {}) x w')"

text \<open>What the plan's inputs are for a tick that starts in \<open>w\<close>.\<close>

definition observed :: "ports \<Rightarrow> report_view \<Rightarrow> step \<Rightarrow> world \<Rightarrow> worker_result option \<Rightarrow> bool \<Rightarrow> bool \<Rightarrow> bool" where
  "observed P rep s w r late compliant \<longleftrightarrow>
     (step_state s \<in> {Step_DISPATCHED, Step_CLINE_WORKING, Step_REVIEWING} \<longrightarrow>
        rep (disk w) (step_no s, step_attempt s) = Inr r) \<and>
     (step_state s \<in> {Step_DISPATCHED, Step_CLINE_WORKING} \<and> r = None \<longrightarrow> fst (timed_out P s w) = Inr late) \<and>
     (step_state s = Step_REVIEWING \<and> (\<exists>x. r = Some x \<and> clean_report x) \<longrightarrow>
        (\<exists>g v v'. port_gate P (step_no s) (step_attempt s) v = (Inr g, v') \<and> gate_compliant g = compliant \<and>
           live v = live w \<and> tree v = tree w))"

definition ticks :: "ports \<Rightarrow> (channel \<Rightarrow> attempt_key \<Rightarrow> bool) \<Rightarrow> report_view \<Rightarrow> project \<Rightarrow> step \<Rightarrow> world \<Rightarrow>
    exn + tick_result \<Rightarrow> world \<Rightarrow> bool" where
  "ticks P pub rep p s w res w' \<longleftrightarrow>
     (case res of
        Inl e \<Rightarrow> still pub rep w w'
      | Inr t \<Rightarrow> \<exists>r late compliant. observed P rep s w r late compliant \<and>
          (case plan p s r late compliant of
             Halt st reason \<Rightarrow> tick_status t = st \<and> tick_reason t = reason \<and> still pub rep w w'
           | Fire ev reason \<Rightarrow>
               tick_status t = Loop_TRANSITIONED \<and> tick_step_no t = Some (step_no s) \<and>
               tick_event t = Some ev \<and> tick_reason t = reason \<and>
               (\<exists>u. tick_to t = Some (step_state u) \<and> move_step pub rep s ev reason u w w')))"

lemma transition_step_fields [simp]:
  "step_no (transition_step s to a c n) = step_no s"
  "step_state (transition_step s to a c n) = to"
  "step_attempt (transition_step s to a c n) = a"
  "step_max_attempts (transition_step s to a c n) = step_max_attempts s"
  "step_title (transition_step s to a c n) = step_title s"
  "step_risk (transition_step s to a c n) = step_risk s"
  "step_requires_human (transition_step s to a c n) = step_requires_human s"
  by (simp_all add: transition_step_def Let_def)

lemma persisted_simps [simp]:
  "db_projects (persisted u t e d) = db_projects d"
  "db_steps (persisted u t e d) = put step_no u (db_steps d)"
  "db_audit (persisted u t e d) = db_audit d @ [e]"
  "db_versions (persisted u t e d) = db_versions d"
  "db_findings (persisted u t e d) = db_findings d"
  "db_decisions (persisted u t e d) = db_decisions d"
  by (simp_all add: persisted_def)

lemma movedD:
  assumes "moved s ev reason u d d'"
  shows "valid_step u" "step_next (step_state s) ev = Inr (step_state u)" "step_no u = step_no s"
    "step_attempt u = next_attempt s ev" "step_max_attempts u = step_max_attempts s"
    "db_steps d' = put step_no u (db_steps d)" "db_projects d' = db_projects d"
    "db_versions d' = db_versions d"
    "\<exists>now. db_audit d' = db_audit d @ [transition_entry s ev (step_state u) (next_attempt s ev) reason now]"
  using assms by (auto simp: moved_def evidence_onlyD)

section \<open>One transition\<close>

lemma upsert_task_run:
  "lookup step_no (task_step_no t) (db_steps (live w)) \<noteq> None \<Longrightarrow>
     upsert_task t w = (Inr (), settle (w\<lparr>live := (live w)\<lparr>db_tasks := put task_key t (db_tasks (live w))\<rparr>\<rparr>))"
  by (auto simp: upsert_task_def get_step_def exec settle_def)

lemma persist_run [exec]:
  assumes "\<forall>x. t = Some x \<longrightarrow> task_step_no x = step_no u"
  shows "persist_transition u t e w = (Inr (), settle (w\<lparr>live := persisted u t e (live w)\<rparr>))"
  using assms
  by (cases t; cases "depth w = 0")
    (simp_all add: persist_transition_def transactionM_def exec upsert_step_def append_audit_def
      upsert_task_run settle_def persisted_def)

definition transition_tick :: "step \<Rightarrow> step_event \<Rightarrow> step_state \<Rightarrow> string \<Rightarrow> int \<Rightarrow> tick_result" where
  "transition_tick s ev to reason a = \<lparr>tick_status = Loop_TRANSITIONED, tick_step_no = Some (step_no s),
     tick_event = Some ev, tick_from = Some (step_state s), tick_to = Some to, tick_reason = reason,
     tick_attempt = Some a, tick_acknowledged = False, tick_ack_error = None\<rparr>"

lemma transition_entry_valid [simp]: "mk_audit_entry (transition_entry s ev to a reason now) = Inr (transition_entry s ev to a reason now)"
  by (simp add: valid_entry_def transition_entry_def)

lemma transitionM_run:
  assumes t: "\<forall>x. t = Some x \<longrightarrow> task_step_no x = step_no s"
    and a: "a = (case att of None \<Rightarrow> step_attempt s | Some b \<Rightarrow> b)"
    and now: "now = port_clock P (clock_reads w)" and v: "v = w\<lparr>clock_reads := clock_reads w + 1\<rparr>"
  shows "transitionM P s ev reason att t sc w =
    (case step_next (step_state s) ev of
       Inl x \<Rightarrow> (Inl x, w)
     | Inr to \<Rightarrow>
         if valid_step (transition_step s to a sc now) then
           (Inr (transition_tick s ev to reason a),
            settle (v\<lparr>live := persisted (transition_step s to a sc now) t
                               (transition_entry s ev to a reason now) (live w)\<rparr>))
         else (Inl ValueError, v))"
proof (cases "step_next (step_state s) ev")
  case (Inl x)
  then show ?thesis by (simp add: transitionM_def exec)
next
  case (Inr to)
  let ?u = "transition_step s to a sc now"
  have "mk_step ?u = (if valid_step ?u then Inr ?u else Inl ValueError)"
    using mk_step_error by (cases "mk_step ?u") (auto simp: mk_step_iff)
  then show ?thesis
    using Inr t unfolding a[symmetric] transitionM_def Let_def
    by (auto simp: exec now v transition_tick_def a[symmetric])
qed

section \<open>The loop over its contracts\<close>

locale loop =
  worker_channel "port_dispatch P" "port_read P" "port_acknowledge P" published report +
  realization_control "port_gate P"
  for P :: ports and published report
begin

abbreviation step_rel :: "world \<Rightarrow> world \<Rightarrow> bool" where
  "step_rel \<equiv> channel_step published report {}"

lemma step_rel_idle: "step_rel w v \<Longrightarrow> idle w \<Longrightarrow> idle v"
  by (simp add: channel_step_def idle_def)

lemma commit_step_after: "step_rel w v \<Longrightarrow> commit_step published report s ev reason u v x \<Longrightarrow>
    commit_step published report s ev reason u w x"
  unfolding commit_step_def
  by (metis channelling.R_trans channel_step_def)

lemma fired:
  assumes "idle w" and "\<forall>x. t = Some x \<longrightarrow> task_step_no x = step_no s"
    and "next_attempt s ev = (case att of None \<Rightarrow> step_attempt s | Some b \<Rightarrow> b)"
    and "ev = Ev_DISPATCH \<longrightarrow> published (disk w) (step_no s, next_attempt s ev)"
    and run: "transitionM P s ev reason att t sc w = (res, x)"
  obtains (failed) e where "res = Inl e" "still published report w x"
  | (moved) u where "res = Inr (transition_tick s ev (step_state u) reason (next_attempt s ev))"
      "commit_step published report s ev reason u w x"
proof -
  let ?now = "port_clock P (clock_reads w)" and ?v = "w\<lparr>clock_reads := clock_reads w + 1\<rparr>"
  have v: "step_rel w ?v"
    by (auto simp: channel_step_def intro: exI[of _ "[]"])
  note r = run[unfolded transitionM_run[OF assms(2,3) refl refl]]
  show thesis
  proof (cases "step_next (step_state s) ev")
    case (Inl e)
    with r show thesis by (intro failed) (auto simp: still_def channelling.R_refl)
  next
    case (Inr to)
    let ?u = "transition_step s to (next_attempt s ev) sc ?now"
    let ?d = "persisted ?u t (transition_entry s ev to (next_attempt s ev) reason ?now) (live w)"
    show thesis
    proof (cases "valid_step ?u")
      case True
      then have res: "res = Inr (transition_tick s ev to reason (next_attempt s ev))"
        and x: "x = settle (?v\<lparr>live := ?d\<rparr>)"
        using r Inr by auto
      have "evidence_only (live w) (live w)" by (simp add: evidence_only_def)
      then have "moved s ev reason ?u (live w) ?d"
        unfolding moved_def using True Inr assms(2) by blast
      then have "commit_step published report s ev reason ?u w x"
        unfolding commit_step_def using x assms(1,4) v
        by (auto simp: settle_def idle_def intro!: exI[of _ ?v])
      with res show thesis by (intro moved[of ?u]) auto
    next
      case False
      then show thesis
        using r Inr v by (intro failed) (auto simp: still_def)
    qed
  qed
qed

lemma ticks_failed: "still published report w w' \<Longrightarrow> ticks P published report p s w (Inl e) w'"
  by (simp add: ticks_def)

lemma ticks_halt:
  assumes "observed P report s w r late compliant" "plan p s r late compliant = Halt st reason"
    "still published report w w'" "tick_status t = st" "tick_reason t = reason"
  shows "ticks P published report p s w (Inr t) w'"
  unfolding ticks_def sum.case
  using assms by (intro exI[of _ r] exI[of _ late] exI[of _ compliant]) simp

lemma ticks_fire:
  assumes "observed P report s w r late compliant" "plan p s r late compliant = Fire ev reason"
    "move_step published report s ev reason u w w'" "tick_status t = Loop_TRANSITIONED"
    "tick_step_no t = Some (step_no s)" "tick_event t = Some ev" "tick_to t = Some (step_state u)"
    "tick_reason t = reason"
  shows "ticks P published report p s w (Inr t) w'"
  unfolding ticks_def sum.case
  using assms by (intro exI[of _ r] exI[of _ late] exI[of _ compliant]) auto

text \<open>A handler that ends in a transition, after channel work from \<open>w\<close> to \<open>v\<close>.\<close>

lemma ticks_transition:
  assumes "idle w" "step_rel w v" "step_state s \<noteq> Step_REVIEWING"
    and "\<forall>x. t = Some x \<longrightarrow> task_step_no x = step_no s"
    and "next_attempt s ev = (case att of None \<Rightarrow> step_attempt s | Some b \<Rightarrow> b)"
    and "ev = Ev_DISPATCH \<longrightarrow> published (disk v) (step_no s, next_attempt s ev)"
    and "observed P report s w r late compliant" "plan p s r late compliant = Fire ev reason"
    and run: "transitionM P s ev reason att t sc v = (res, w')"
  shows "ticks P published report p s w res w'"
proof (rule fired[OF step_rel_idle[OF assms(2,1)] assms(4-6) run])
  fix e
  assume "res = Inl e" "still published report v w'"
  then show ?thesis
    using assms(2) channelling.R_trans by (auto simp: ticks_failed still_def)
next
  fix u
  assume res: "res = Inr (transition_tick s ev (step_state u) reason (next_attempt s ev))"
    and c: "commit_step published report s ev reason u v w'"
  have "commit_step published report s ev reason u w w'"
    using commit_step_after[OF assms(2) c] .
  then have "move_step published report s ev reason u w w'"
    using assms(3) channelling.R_refl by (auto simp: move_step_def)
  then show ?thesis
    unfolding res by (rule ticks_fire[OF assms(7,8)]) (simp_all add: transition_tick_def)
qed

end

lemma advance_task_run:
  obtains r where "advance_task s ev st w = (r, w)"
    "\<And>t x. r = Inr t \<Longrightarrow> t = Some x \<Longrightarrow> task_step_no x = step_no s"
proof (cases "lookup task_key (step_no s, step_attempt s) (db_tasks (live w))")
  case None
  then show thesis by (intro that[of "Inr None"]) (simp_all add: advance_task_def get_task_def exec)
next
  case (Some t)
  then have key: "task_step_no t = step_no s" by (auto simp: task_key_def dest: lookup_Some)
  show thesis
  proof (cases "task_next (task_state t) ev")
    case (Inl e)
    with Some show thesis by (intro that[of "Inr None"]) (simp_all add: advance_task_def get_task_def exec)
  next
    case (Inr to)
    define t' where "t' = (case st of None \<Rightarrow> t\<lparr>task_state := to\<rparr>
      | Some r \<Rightarrow> t\<lparr>task_state := to, task_report_status := Some r\<rparr>)"
    have "task_step_no t' = step_no s" using key by (simp add: t'_def split: option.split)
    then show thesis
      using Some Inr mk_task_iff
      by (cases "mk_task t'"; intro that[of "bindE (mk_task t') (\<lambda>x. Inr (Some x))"])
        (auto simp: advance_task_def get_task_def exec t'_def)
  qed
qed

lemma timed_out_reads: "follows reads_only (timed_out P s)"
  unfolding timed_out_def by (intro reading.follows_rules clock_reads_only)

lemma waitM_run [exec]: "\<exists>t. waitM s reason w = (Inr t, w) \<and> tick_status t = Loop_WAITING \<and> tick_reason t = reason"
  by (simp add: waitM_def exec)

context loop
begin

lemma still_refl: "still published report w w"
  by (simp add: still_def channelling.R_refl)

lemma ticks_wait:
  assumes "observed P report s w r late compliant" "plan p s r late compliant = Halt Loop_WAITING reason"
    "step_rel w v" "waitM s reason v = (res, w')"
  shows "ticks P published report p s w res w'"
  using assms by (auto simp: waitM_def exec still_def intro!: ticks_halt)

lemma step_rel_reads: "reads_only w v \<Longrightarrow> step_rel w v"
  using channel_reads[of "\<lambda>_. (Inr (), v)"] by (auto simp: channel_step_def reads_onlyD intro: exI[of _ "[]"])

lemma collect_ticks:
  assumes idle: "idle w" and run: "collectM P s start w = (res, w')"
    and state: "start \<and> step_state s = Step_DISPATCHED \<or> \<not> start \<and> step_state s = Step_CLINE_WORKING"
  shows "ticks P published report p s w res w'"
proof (cases "report (disk w) (step_no s, step_attempt s)")
  case (Inl e)
  with run show ?thesis by (auto simp: collectM_def exec read_run ticks_failed still_refl)
next
  case (Inr found)
  show ?thesis
  proof (cases found)
    case (Some r)
    obtain ro where adv: "advance_task s TaskEv_RECEIVE_REPORT (Some (worker_status r)) w = (ro, w)"
      "\<And>t x. ro = Inr t \<Longrightarrow> t = Some x \<Longrightarrow> task_step_no x = step_no s"
      using advance_task_run by blast
    show ?thesis
    proof (cases ro)
      case (Inl e)
      with run Some Inr adv(1) show ?thesis
        by (auto simp: collectM_def exec read_run ticks_failed still_refl)
    next
      case (Inr t)
      then have "transitionM P s Ev_RECEIVE_REPORT ''report-received'' None t False w = (res, w')"
        using run Some adv(1) \<open>report _ _ = Inr found\<close> by (auto simp: collectM_def exec read_run)
      then show ?thesis
        using state adv(2)[OF Inr] \<open>report _ _ = Inr found\<close> Some
        by (intro ticks_transition[OF idle channelling.R_refl, where r = found and late = False and compliant = False])
          (auto simp: next_attempt_def observed_def plan_def)
    qed
  next
    case None
    obtain ro v where to: "timed_out P s w = (ro, v)" by fastforce
    then have "reads_only w v" using followsD[OF timed_out_reads] by blast
    then have v: "step_rel w v" by (rule step_rel_reads)
    show ?thesis
    proof (cases ro)
      case (Inl e)
      then show ?thesis
        using run None Inr to v by (auto simp: collectM_def exec read_run ticks_failed still_def)
    next
      case late: (Inr late)
      have obs: "observed P report s w None late False"
        using state None Inr to late by (auto simp: observed_def)
      show ?thesis
      proof (cases late)
        case True
        obtain ta where adv: "advance_task s TaskEv_FAIL None v = (ta, v)"
          "\<And>t x. ta = Inr t \<Longrightarrow> t = Some x \<Longrightarrow> task_step_no x = step_no s"
          using advance_task_run by blast
        show ?thesis
        proof (cases ta)
          case (Inl e)
          with run None Inr to late True adv(1) v show ?thesis
            by (auto simp: collectM_def exec read_run ticks_failed still_def)
        next
          case (Inr t)
          then have "transitionM P s Ev_FAIL ''timeout'' None t False v = (res, w')"
            using run None \<open>report _ _ = Inr found\<close> to late True adv(1)
            by (auto simp: collectM_def exec read_run)
          then show ?thesis
            using state adv(2)[OF Inr] True
            by (intro ticks_transition[OF idle v _ _ _ _ obs]) (auto simp: next_attempt_def plan_def)
        qed
      next
        case False
        show ?thesis
        proof (cases start)
          case True
          then have "transitionM P s Ev_CLINE_START ''worker-started'' None None True v = (res, w')"
            using run None Inr to late False by (auto simp: collectM_def exec read_run)
          then show ?thesis
            using state True False
            by (intro ticks_transition[OF idle v _ _ _ _ obs]) (auto simp: next_attempt_def plan_def)
        next
          case cont: False
          then have "waitM s ''worker-report-pending'' v = (res, w')"
            using run None Inr to late False by (auto simp: collectM_def exec read_run)
          then show ?thesis
            using state cont False by (intro ticks_wait[OF obs _ v]) (auto simp: plan_def)
        qed
      qed
    qed
  qed
qed

end

context loop
begin

lemma dispatch_ticks:
  assumes idle: "idle w" and run: "dispatchM P s w = (res, w')" and state: "step_state s = Step_READY"
    and approval: "\<not> requires_approval (project_mode p) (step_risk s) (step_requires_human s)"
  shows "ticks P published report p s w res w'"
proof -
  let ?a = "max (step_attempt s) 1" and ?v = "w\<lparr>clock_reads := clock_reads w + 1\<rparr>"
  obtain ro u where pub: "publish_task (port_dispatch P) (port_clock P) s ?a (port_instructions P)
      (port_report_schema P) (port_clock P (clock_reads w)) ?v = (ro, u)" by fastforce
  have "step_rel w ?v" by (rule step_rel_reads) (simp add: reads_only_def)
  then have u: "step_rel w u"
    using followsD[OF publish_frame pub] channelling.R_trans by blast
  show ?thesis
  proof (cases ro)
    case (Inl e)
    with run pub u show ?thesis by (auto simp: dispatchM_def exec Let_def ticks_failed still_def)
  next
    case (Inr t)
    then have t: "task_step_no t = step_no s" "published (disk u) (step_no s, ?a)"
      using publish_ok[OF pub[unfolded Inr]] by auto
    have "transitionM P s Ev_DISPATCH ''dispatched'' (Some ?a) (Some t) True u = (res, w')"
      using run pub Inr by (auto simp: dispatchM_def exec Let_def)
    then show ?thesis
      using state approval t
      by (intro ticks_transition[OF idle u, where r = None and late = False and compliant = False])
        (auto simp: next_attempt_def observed_def plan_def)
  qed
qed

lemma acknowledge_run:
  obtains b x w' where "acknowledgeM P s w = (Inr (b, x), w')"
    "channel_step published report {(step_no s, step_attempt s)} w w'"
    "b \<Longrightarrow> report (disk w') (step_no s, step_attempt s) = Inr None"
proof -
  obtain r v where ack: "port_acknowledge P (step_no s) (step_attempt s) w = (r, v)" by fastforce
  have rel: "channel_step published report {(step_no s, step_attempt s)} w v"
    using acknowledge_frame ack by (rule followsD)
  show thesis
  proof (cases r)
    case (Inl e)
    show thesis
      by (rule that[of False "Some e" v]) (use ack Inl rel in \<open>auto simp: acknowledgeM_def exec\<close>)
  next
    case (Inr u)
    show thesis
      by (rule that[of True None v])
        (use ack Inr rel acknowledge_consumes in \<open>auto simp: acknowledgeM_def exec\<close>)
  qed
qed

text \<open>The transition of a review, inside the transaction of the gate or on its own.\<close>

lemma gated_transition:
  assumes idle: "idle w"
    and run: "transactionM (bindM (port_gate P (step_no s) (step_attempt s)) (\<lambda>g.
        let out = (if \<not> gate_compliant g then \<lparr>outcome_event = Ev_BLOCK, outcome_reason = ''architecture-violation''\<rparr>
                   else outcome) in
        transitionM P s (outcome_event out) (outcome_reason out) None None False)) w = (res, x)"
    and ev: "outcome_event outcome = Ev_VERIFY"
  obtains (failed) e where "res = Inl e" "still published report w x"
  | (moved) g v ev reason u where "port_gate P (step_no s) (step_attempt s) (w\<lparr>depth := 1\<rparr>) = (Inr g, v)"
      "ev = (if gate_compliant g then Ev_VERIFY else Ev_BLOCK)"
      "reason = (if gate_compliant g then outcome_reason outcome else ''architecture-violation'')"
      "res = Inr (transition_tick s ev (step_state u) reason (step_attempt s))"
      "commit_step published report s ev reason u w x"
proof -
  obtain rg v where gate: "port_gate P (step_no s) (step_attempt s) (w\<lparr>depth := 1\<rparr>) = (rg, v)" by fastforce
  have v: "evidence_only (live w) (live v)" "disk v = disk w" "tree v = tree w" "depth v = 1"
    "durable v = durable w" "trail v = trail w"
    using followsD[OF gate_evidence gate] by (auto simp: evidence_step_def)
  have rolled: "still published report w (y\<lparr>live := durable y, depth := 0\<rparr>)"
    if "disk y = disk w" "tree y = tree w" "durable y = durable w" "trail y = trail w" for y
    using that idle by (auto simp: still_def channel_step_def idle_def intro: exI[of _ "[]"])
  show thesis
  proof (cases rg)
    case (Inl e)
    then have "res = Inl e" "x = v\<lparr>live := durable v, depth := 0\<rparr>"
      using run gate idle by (auto simp: transactionM_def exec idle_def)
    with rolled[of v] v show thesis by (intro failed) auto
  next
    case (Inr g)
    define ev where "ev = (if gate_compliant g then Ev_VERIFY else Ev_BLOCK)"
    define reason where "reason = (if gate_compliant g then outcome_reason outcome else ''architecture-violation'')"
    let ?now = "port_clock P (clock_reads v)" and ?v = "v\<lparr>clock_reads := clock_reads v + 1\<rparr>"
    have run': "(res, x) = (case transitionM P s ev reason None None False v of
        (r, y) \<Rightarrow> (case r of Inl e \<Rightarrow> (Inl e, y\<lparr>live := durable y, depth := 0\<rparr>)
                 | Inr a \<Rightarrow> (Inr a, commit (y\<lparr>depth := 0\<rparr>))))"
      using run gate idle Inr assms(3)
      by (auto simp: transactionM_def exec idle_def ev_def reason_def Let_def split: if_splits)
    note tr = transitionM_run[of None s "step_attempt s" None "port_clock P (clock_reads v)" P v
        "v\<lparr>clock_reads := clock_reads v + 1\<rparr>" ev reason False, simplified]
    show thesis
    proof (cases "step_next (step_state s) ev")
      case (Inl e)
      with run' tr rolled[of v] v show thesis by (intro failed) auto
    next
      case (Inr to)
      let ?u = "transition_step s to (step_attempt s) False ?now"
      show thesis
      proof (cases "valid_step ?u")
        case False
        with Inr run' tr rolled[of ?v] v show thesis by (intro failed) auto
      next
        case True
        let ?d = "persisted ?u None (transition_entry s ev to (step_attempt s) reason ?now) (live v)"
        have x: "x = commit (?v\<lparr>live := ?d, depth := 0\<rparr>)" and
          res: "res = Inr (transition_tick s ev to reason (step_attempt s))"
          using run' tr Inr True v by (auto simp: settle_def)
        have na: "next_attempt s ev = step_attempt s" by (simp add: next_attempt_def ev_def)
        have "moved s ev reason ?u (live w) ?d"
          unfolding moved_def na using True Inr v(1) by blast
        then have "commit_step published report s ev reason ?u w x"
          unfolding commit_step_def x using v channelling.R_refl
          by (auto simp: ev_def intro!: exI[of _ w])
        then show thesis
          using moved[OF gate[unfolded \<open>rg = Inr g\<close>] ev_def reason_def, of ?u] res by simp
      qed
    qed
  qed
qed

end

context loop
begin

lemma review_ticks:
  assumes idle: "idle w" and run: "reviewM P s w = (res, w')" and state: "step_state s = Step_REVIEWING"
  shows "ticks P published report p s w res w'"
proof (cases "report (disk w) (step_no s, step_attempt s)")
  case (Inl e)
  with run show ?thesis by (auto simp: reviewM_def exec read_run ticks_failed still_refl)
next
  case found: (Inr found)
  show ?thesis
  proof (cases found)
    case None
    have "observed P report s w None False False" using state found None by (simp add: observed_def)
    then show ?thesis
      using run found None state channelling.R_refl
      by (intro ticks_wait[of s w None False False p "''report-missing-after-received''" w])
        (auto simp: reviewM_def exec read_run plan_def)
  next
    case (Some r)
    show ?thesis
    proof (cases "decide_review r (step_attempt s) (step_max_attempts s)")
      case (Inl e)
      with run found Some show ?thesis by (auto simp: reviewM_def exec read_run ticks_failed still_refl)
    next
      case decided: (Inr outcome)
      note ev = decide_review_ok(3,4)[OF decided]
      define body where "body =
        (if outcome_event outcome = Ev_VERIFY then
           transactionM (bindM (port_gate P (step_no s) (step_attempt s)) (\<lambda>g.
             let out = (if \<not> gate_compliant g
                        then \<lparr>outcome_event = Ev_BLOCK, outcome_reason = ''architecture-violation''\<rparr>
                        else outcome) in
             transitionM P s (outcome_event out) (outcome_reason out) None None False))
         else transitionM P s (outcome_event outcome) (outcome_reason outcome) None None False)"
      obtain rb x where b: "body w = (rb, x)" by fastforce
      have read: "port_read P (step_no s) (step_attempt s) w = (Inr found, w)"
        by (simp add: read_run found)
      have review: "reviewM P s w = bindM body (\<lambda>result. bindM (acknowledgeM P s) (\<lambda>(c, err).
          returnM (result\<lparr>tick_acknowledged := c, tick_ack_error := err\<rparr>))) w"
        by (simp add: reviewM_def bindM_run read Some liftE_run decided body_def)
      obtain c err z where ack: "acknowledgeM P s x = (Inr (c, err), z)"
        "channel_step published report {(step_no s, step_attempt s)} x z"
        using acknowledge_run[where s = s and w = x] by metis
      have tick_err: "res = Inl e \<and> w' = x" if "rb = Inl e" for e
        using run[unfolded review] b that by (simp add: bindM_run)
      have tick_ok: "res = Inr (result\<lparr>tick_acknowledged := c, tick_ack_error := err\<rparr>) \<and> w' = z"
        if "rb = Inr result" for result
        using run[unfolded review] b that by (simp add: bindM_run ack(1) returnM_run)
      have finish: "ticks P published report p s w res w'"
        if "rb = Inr (transition_tick s e (step_state u) reason (step_attempt s))"
          "commit_step published report s e reason u w x"
          "observed P report s w found False compliant" "plan p s found False compliant = Fire e reason"
        for e reason u compliant
      proof -
        have "move_step published report s e reason u w z"
          using that(2) ack(2) state by (auto simp: move_step_def)
        then show ?thesis
          using tick_ok[OF that(1)] that(3,4)
          by (auto simp: transition_tick_def intro!: ticks_fire[OF that(3,4)])
      qed
      show ?thesis
      proof (cases "outcome_event outcome = Ev_VERIFY")
        case True
        then have gated: "transactionM (bindM (port_gate P (step_no s) (step_attempt s)) (\<lambda>g.
            let out = (if \<not> gate_compliant g
                       then \<lparr>outcome_event = Ev_BLOCK, outcome_reason = ''architecture-violation''\<rparr>
                       else outcome) in
            transitionM P s (outcome_event out) (outcome_reason out) None None False)) w = (rb, x)"
          using b by (simp add: body_def)
        show ?thesis
        proof (rule gated_transition[OF idle gated True])
          fix e
          assume "rb = Inl e" "still published report w x"
          with tick_err show ?thesis by (auto simp: ticks_failed)
        next
          fix g v e reason u
          assume m: "port_gate P (step_no s) (step_attempt s) (w\<lparr>depth := 1\<rparr>) = (Inr g, v)"
            "e = (if gate_compliant g then Ev_VERIFY else Ev_BLOCK)"
            "reason = (if gate_compliant g then outcome_reason outcome else ''architecture-violation'')"
            "rb = Inr (transition_tick s e (step_state u) reason (step_attempt s))"
            "commit_step published report s e reason u w x"
          have "observed P report s w found False (gate_compliant g)"
            using state found m(1) by (auto simp: observed_def intro!: exI[of _ g])
          moreover have "plan p s found False (gate_compliant g) = Fire e reason"
            using state Some decided True m(2,3) by (auto simp: plan_def review_move_def)
          ultimately show ?thesis using finish m(4,5) by blast
        qed
      next
        case False
        then have run': "transitionM P s (outcome_event outcome) (outcome_reason outcome) None None False w = (rb, x)"
          using b by (simp add: body_def)
        have na: "next_attempt s (outcome_event outcome) = step_attempt s"
          using ev(2) False by (auto simp: next_attempt_def)
        have obs: "observed P report s w found False False"
          using state found False ev(1) Some by (auto simp: observed_def)
        have pl: "plan p s found False False = Fire (outcome_event outcome) (outcome_reason outcome)"
          using state Some decided False by (auto simp: plan_def review_move_def)
        show ?thesis
        proof (rule fired[OF idle _ _ _ run'])
          fix e
          assume "rb = Inl e" "still published report w x"
          with tick_err show ?thesis by (auto simp: ticks_failed)
        next
          fix u
          assume "rb = Inr (transition_tick s (outcome_event outcome) (step_state u)
              (outcome_reason outcome) (next_attempt s (outcome_event outcome)))"
            "commit_step published report s (outcome_event outcome) (outcome_reason outcome) u w x"
          then show ?thesis using finish[OF _ _ obs pl] na by simp
        qed (use na ev(2) False in auto)
      qed
    qed
  qed
qed

lemma observed_trivial:
  "step_state s \<notin> {Step_DISPATCHED, Step_CLINE_WORKING, Step_REVIEWING} \<Longrightarrow> observed P report s w None False False"
  by (auto simp: observed_def)

lemma retry_ticks:
  assumes idle: "idle w" and run: "retry_or_abort P s w = (res, w')"
    and state: "step_state s = Step_REVISE \<or> step_state s = Step_FAILED"
  shows "ticks P published report p s w res w'"
proof -
  have obs: "observed P report s w None False False" using state by (intro observed_trivial) auto
  consider "can_retry s" | "\<not> can_retry s" "step_state s = Step_FAILED" | "\<not> can_retry s" "step_state s = Step_REVISE"
    using state by blast
  then show ?thesis
  proof cases
    case 1
    with run have "transitionM P s Ev_RETRY ''retry'' (Some (step_attempt s + 1)) None False w = (res, w')"
      by (simp add: retry_or_abort_def)
    then show ?thesis
      using state 1 by (intro ticks_transition[OF idle channelling.R_refl _ _ _ _ obs])
        (auto simp: next_attempt_def plan_def)
  next
    case 2
    with run have "transitionM P s Ev_ABORT ''attempts-exhausted'' None None False w = (res, w')"
      by (simp add: retry_or_abort_def)
    then show ?thesis
      using 2 by (intro ticks_transition[OF idle channelling.R_refl _ _ _ _ obs])
        (auto simp: next_attempt_def plan_def)
  next
    case 3
    with run have "waitM s ''revise-attempts-exhausted'' w = (res, w')"
      by (simp add: retry_or_abort_def)
    then show ?thesis
      using 3 by (intro ticks_wait[OF obs _ channelling.R_refl]) (auto simp: plan_def)
  qed
qed

lemma advance_ticks:
  assumes idle: "idle w" and run: "advance P s p w = (res, w')"
  shows "ticks P published report p s w res w'"
proof (cases "step_state s")
  case Step_PENDING
  then show ?thesis
    using run by (intro ticks_transition[OF idle channelling.R_refl _ _ _ _ observed_trivial])
      (auto simp: advance_def next_attempt_def plan_def)
next
  case Step_READY
  show ?thesis
  proof (cases "requires_approval (project_mode p) (step_risk s) (step_requires_human s)")
    case True
    with Step_READY show ?thesis
      using run by (intro ticks_transition[OF idle channelling.R_refl _ _ _ _ observed_trivial])
        (auto simp: advance_def from_ready_def next_attempt_def plan_def)
  next
    case False
    with Step_READY run show ?thesis
      by (intro dispatch_ticks[OF idle _ Step_READY]) (auto simp: advance_def from_ready_def)
  qed
next
  case Step_WAITING_APPROVAL
  then show ?thesis
    using run by (intro ticks_wait[OF observed_trivial _ channelling.R_refl]) (auto simp: advance_def plan_def)
next
  case Step_DISPATCHED
  with run show ?thesis by (intro collect_ticks[OF idle, of s True]) (auto simp: advance_def)
next
  case Step_CLINE_WORKING
  with run show ?thesis by (intro collect_ticks[OF idle, of s False]) (auto simp: advance_def)
next
  case Step_REPORT_RECEIVED
  then show ?thesis
    using run by (intro ticks_transition[OF idle channelling.R_refl _ _ _ _ observed_trivial])
      (auto simp: advance_def next_attempt_def plan_def)
next
  case Step_REVIEWING
  with run show ?thesis by (intro review_ticks[OF idle]) (auto simp: advance_def)
next
  case Step_REVISE
  with run show ?thesis by (intro retry_ticks[OF idle]) (auto simp: advance_def)
next
  case Step_BLOCKED
  then show ?thesis
    using run by (intro ticks_wait[OF observed_trivial _ channelling.R_refl]) (auto simp: advance_def plan_def)
next
  case Step_CONFLICT
  then show ?thesis
    using run by (intro ticks_wait[OF observed_trivial _ channelling.R_refl]) (auto simp: advance_def plan_def)
next
  case Step_FAILED
  with run show ?thesis by (intro retry_ticks[OF idle]) (auto simp: advance_def)
next
  case Step_ABORTED
  then show ?thesis
    using run by (auto simp: advance_def exec plan_def still_refl tick_of_def intro!: ticks_halt[OF observed_trivial])
next
  case Step_VERIFIED
  then show ?thesis using run by (auto simp: advance_def exec ticks_failed still_refl)
qed

end

end
