(* ===== verification/Effects.thy ===== *)
theory Effects
  imports Worker_Channel
begin

text \<open>
  What any operation on the workflow, of the loop or of a human, may leave behind. A database changes by
  one Step transition with its audit entry, or by one project update with its audit entry, or not at all
  (evidence aside); and in every situation a crash could expose on the way, the database is the one before
  or the one after, and an attempt recorded as dispatched has its task in the channel. Each operation is
  proved to respect this once; invariants of the whole system then follow from these facts alone.
\<close>

section \<open>Changes of the database\<close>

text \<open>An audit entry that records the transition of a Step.\<close>

definition records :: "audit_entry \<Rightarrow> step \<Rightarrow> step_event \<Rightarrow> step \<Rightarrow> bool" where
  "records e s ev u \<longleftrightarrow>
     entry_entity_type e = Entity_STEP \<and> entry_entity_id e = show_int (step_no s) \<and> entry_action e = Act_UPDATE \<and>
     map_of (entry_detail e) ''event'' = Some (JStr (step_event_value ev)) \<and>
     map_of (entry_detail e) ''from'' = Some (JStr (step_state_value (step_state s))) \<and>
     map_of (entry_detail e) ''to'' = Some (JStr (step_state_value (step_state u))) \<and>
     map_of (entry_detail e) ''attempt'' = Some (JInt (step_attempt u))"

text \<open>The fields of a Step no transition touches.\<close>

definition same_plan :: "step \<Rightarrow> step \<Rightarrow> bool" where
  "same_plan s u \<longleftrightarrow> step_no u = step_no s \<and> step_phase u = step_phase s \<and> step_title u = step_title s \<and>
     step_description u = step_description s \<and> step_max_attempts u = step_max_attempts s \<and>
     step_risk u = step_risk s \<and> step_requires_human u = step_requires_human s \<and>
     step_created_at u = step_created_at s"

text \<open>Attempts count up: a retry takes the next one, preparing and dispatching make it at least one.\<close>

definition attempt_moves :: "step \<Rightarrow> step_event \<Rightarrow> step \<Rightarrow> bool" where
  "attempt_moves s ev u \<longleftrightarrow>
     step_attempt u =
       (if ev \<in> {Ev_PREPARE, Ev_DISPATCH, Ev_APPROVE} then max (step_attempt s) 1
        else if ev = Ev_RETRY then step_attempt s + 1 else step_attempt s)"

definition step_changed :: "step \<Rightarrow> step_event \<Rightarrow> step \<Rightarrow> db \<Rightarrow> db \<Rightarrow> bool" where
  "step_changed s ev u d d' \<longleftrightarrow>
     s \<in> set (db_steps d) \<and> valid_step u \<and> same_plan s u \<and> attempt_moves s ev u \<and>
     step_next (step_state s) ev = Inr (step_state u) \<and>
     db_steps d' = put step_no u (db_steps d) \<and> db_projects d' = db_projects d \<and>
     (\<exists>e. db_audit d' = db_audit d @ [e] \<and> records e s ev u)"

definition project_changed :: "db \<Rightarrow> db \<Rightarrow> bool" where
  "project_changed d d' \<longleftrightarrow>
     (\<exists>p p' e. db_projects d = [p] \<and> project_name p' = project_name p \<and> db_projects d' = [p'] \<and>
        db_steps d' = db_steps d \<and> db_audit d' = db_audit d @ [e] \<and> entry_entity_type e = Entity_PROJECT)"

definition unchanged :: "db \<Rightarrow> db \<Rightarrow> bool" where
  "unchanged d d' \<longleftrightarrow> db_steps d' = db_steps d \<and> db_projects d' = db_projects d \<and> db_audit d' = db_audit d"

lemma unchanged_refl [simp]: "unchanged d d"
  by (simp add: unchanged_def)

section \<open>Effects of an operation\<close>

text \<open>\<open>allowed\<close> says which Step an operation may move, and by which events.\<close>

definition db_step :: "(db \<Rightarrow> step \<Rightarrow> step_event \<Rightarrow> bool) \<Rightarrow> db \<Rightarrow> db \<Rightarrow> bool" where
  "db_step allowed d d' \<longleftrightarrow> unchanged d d' \<or> project_changed d d' \<or>
     (\<exists>s ev u. step_changed s ev u d d' \<and> allowed d s ev)"

definition tasks_out :: "(channel \<Rightarrow> attempt_key \<Rightarrow> bool) \<Rightarrow> db \<Rightarrow> channel \<Rightarrow> bool" where
  "tasks_out pub d ch \<longleftrightarrow> (\<forall>s\<in>set (db_steps d). step_state s = Step_DISPATCHED \<longrightarrow> pub ch (step_no s, step_attempt s))"

definition effects :: "(channel \<Rightarrow> attempt_key \<Rightarrow> bool) \<Rightarrow> (db \<Rightarrow> step \<Rightarrow> step_event \<Rightarrow> bool) \<Rightarrow> world \<Rightarrow> world \<Rightarrow> bool" where
  "effects pub allowed w w' \<longleftrightarrow> idle w' \<and> tree w' = tree w \<and> db_step allowed (live w) (live w') \<and>
     (\<exists>sits. trail w' = trail w @ sits \<and>
       (\<forall>(d, ch)\<in>set (sits @ [(live w', disk w')]).
          (d = live w \<or> d = live w') \<and> (\<forall>k. pub (disk w) k \<longrightarrow> pub ch k) \<and>
          (tasks_out pub (live w) (disk w) \<longrightarrow> tasks_out pub d ch)))"

lemma tasks_out_more: "tasks_out pub d ch \<Longrightarrow> \<forall>k. pub ch k \<longrightarrow> pub ch' k \<Longrightarrow> tasks_out pub d ch'"
  by (simp add: tasks_out_def)

lemma tasks_out_put:
  assumes "tasks_out pub d ch" and "db_steps d' = put step_no u (db_steps d)"
    and "step_state u = Step_DISPATCHED \<Longrightarrow> pub ch (step_no u, step_attempt u)"
  shows "tasks_out pub d' ch"
  using assms by (auto simp: tasks_out_def set_put)

text \<open>An operation that only works the channel has the effects of doing nothing.\<close>

lemma effects_quiet:
  assumes "idle w" and "channel_step pub rep ks w w'"
  shows "effects pub allowed w w'"
proof -
  obtain cs where cs: "trail w' = trail w @ map (Pair (durable w)) cs" "\<forall>c\<in>set cs. keeps pub rep ks (disk w) c"
    and w': "live w' = live w" "durable w' = durable w" "depth w' = depth w" "tree w' = tree w"
    "keeps pub rep ks (disk w) (disk w')"
    using assms(2) unfolding channel_step_def by blast
  have keep: "\<forall>k. pub (disk w) k \<longrightarrow> pub c k" if "keeps pub rep ks (disk w) c" for c
    using that by (simp add: keeps_def)
  show ?thesis
    unfolding effects_def
  proof (intro conjI exI[of _ "map (Pair (durable w)) cs"])
    show "\<forall>(d, ch)\<in>set (map (Pair (durable w)) cs @ [(live w', disk w')]).
        (d = live w \<or> d = live w') \<and> (\<forall>k. pub (disk w) k \<longrightarrow> pub ch k) \<and>
        (tasks_out pub (live w) (disk w) \<longrightarrow> tasks_out pub d ch)"
      using cs(2) w' keep assms(1) by (auto simp: idle_def intro: tasks_out_more)
  qed (use assms(1) w' cs(1) in \<open>auto simp: idle_def db_step_def\<close>)
qed

text \<open>
  An operation that works the channel, commits one change and works the channel again.
\<close>

lemma effects_commit:
  assumes idle: "idle w" and v: "channel_step pub rep ks w v"
    and x: "disk x = disk v" "tree x = tree v" "trail x = trail v @ [(live x, disk v)]" "idle x"
    and change: "db_step allowed (live w) (live x)"
    and out: "tasks_out pub (live w) (disk v) \<Longrightarrow> tasks_out pub (live x) (disk v)"
    and w': "channel_step pub rep ks' x w'"
  shows "effects pub allowed w w'"
proof -
  obtain cs where cs: "trail v = trail w @ map (Pair (durable w)) cs" "\<forall>c\<in>set cs. keeps pub rep ks (disk w) c"
    and vs: "live v = live w" "tree v = tree w" "keeps pub rep ks (disk w) (disk v)"
    using v unfolding channel_step_def by blast
  obtain ds where ds: "trail w' = trail x @ map (Pair (durable x)) ds" "\<forall>c\<in>set ds. keeps pub rep ks' (disk x) c"
    and ws: "live w' = live x" "durable w' = durable x" "depth w' = depth x" "tree w' = tree x"
      "keeps pub rep ks' (disk x) (disk w')"
    using w' unfolding channel_step_def by blast
  have before: "\<forall>k. pub (disk w) k \<longrightarrow> pub c k" if "c \<in> set cs \<or> c = disk v" for c
    using that cs(2) vs(3) by (auto simp: keeps_def)
  have after: "\<forall>k. pub (disk v) k \<longrightarrow> pub c k" if "c \<in> set ds \<or> c = disk w' \<or> c = disk v" for c
    using that ds(2) ws(5) x(1) by (auto simp: keeps_def)
  have all: "(d = live w \<or> d = live w') \<and> (\<forall>k. pub (disk w) k \<longrightarrow> pub ch k) \<and>
      (tasks_out pub (live w) (disk w) \<longrightarrow> tasks_out pub d ch)"
    if "(d, ch) \<in> set (map (Pair (durable w)) cs) \<or>
        d = live x \<and> (ch \<in> set ds \<or> ch = disk w' \<or> ch = disk v)" for d ch
    using that
  proof
    assume "(d, ch) \<in> set (map (Pair (durable w)) cs)"
    then have "d = live w" "ch \<in> set cs" using idle by (auto simp: idle_def)
    then show ?thesis using before by (auto intro: tasks_out_more)
  next
    assume dc: "d = live x \<and> (ch \<in> set ds \<or> ch = disk w' \<or> ch = disk v)"
    then have more: "\<forall>k. pub (disk v) k \<longrightarrow> pub ch k" using after by blast
    then have "\<forall>k. pub (disk w) k \<longrightarrow> pub ch k" using before by blast
    moreover have "tasks_out pub (live x) ch" if "tasks_out pub (live w) (disk w)"
    proof -
      have "tasks_out pub (live w) (disk v)" using that before by (blast intro: tasks_out_more)
      from out[OF this] more show ?thesis by (rule tasks_out_more)
    qed
    ultimately show ?thesis using dc ws(1) by simp
  qed
  have "durable x = live x" using x(4) by (simp add: idle_def)
  then show ?thesis
    unfolding effects_def
    using x vs ws cs(1) ds(1) change all
    by (intro conjI exI[of _ "map (Pair (durable w)) cs @ [(live x, disk v)] @ map (Pair (durable x)) ds"])
      (auto simp: idle_def)
qed

end
