(* ===== verification/Tick.thy ===== *)
theory Tick
  imports Loop Effects
begin

text \<open>
  \<open>run_once\<close> as a whole: the answers that need no Step, and otherwise the tick of the current Step, which
  \<open>Loop\<close> relates to the plan. Facts about the current Step and about what a tick leaves in the database
  follow once for every channel and gate that keep their contracts.
\<close>

section \<open>The current Step\<close>

lemma current_of_sorted [simp]: "current_of (sort_key step_no ss) = current_of ss"
  by (simp add: current_of_def sort_key_id_if_sorted)

lemma current_of_None: "current_of ss = None \<longleftrightarrow> (\<forall>s\<in>set ss. step_state s = Step_VERIFIED)"
  by (auto simp: current_of_def find_None_iff)

lemma current_of_Some:
  assumes "current_of ss = Some s"
  shows "s \<in> set ss" "step_state s \<noteq> Step_VERIFIED"
    "\<And>t. t \<in> set ss \<Longrightarrow> step_no t < step_no s \<Longrightarrow> step_state t = Step_VERIFIED"
proof -
  let ?ss = "sort_key step_no ss"
  from assms obtain i where i: "i < length ?ss" "s = ?ss ! i" "step_state s \<noteq> Step_VERIFIED"
    and before: "\<And>j. j < i \<Longrightarrow> step_state (?ss ! j) = Step_VERIFIED"
    by (auto simp: current_of_def find_Some_iff)
  show "step_state s \<noteq> Step_VERIFIED" by (rule i(3))
  show "s \<in> set ss" using i(1,2) by (metis nth_mem set_sort)
  fix t
  assume "t \<in> set ss" and less: "step_no t < step_no s"
  then obtain j where j: "j < length ?ss" "t = ?ss ! j" by (metis in_set_conv_nth set_sort)
  have "j < i"
  proof (rule ccontr)
    assume "\<not> j < i"
    then have "map step_no ?ss ! i \<le> map step_no ?ss ! j"
      using j(1) by (intro sorted_nth_mono) auto
    with less i(1,2) j show False by simp
  qed
  with before j show "step_state t = Step_VERIFIED" by simp
qed

section \<open>One call of \<open>run_once\<close>\<close>

definition runs :: "ports \<Rightarrow> (channel \<Rightarrow> attempt_key \<Rightarrow> bool) \<Rightarrow> report_view \<Rightarrow> world \<Rightarrow>
    exn + tick_result \<Rightarrow> world \<Rightarrow> bool" where
  "runs P pub rep w res w' \<longleftrightarrow>
     (case db_projects (live w) of
        [p] \<Rightarrow>
          if project_paused p then res = Inr (tick_of Loop_PAUSED ''project-paused'') \<and> w' = w
          else if db_steps (live w) = [] then res = Inr (tick_of Loop_NO_STEPS ''no-steps'') \<and> w' = w
          else
            (case current_of (db_steps (live w)) of
               None \<Rightarrow> res = Inr (tick_of Loop_COMPLETE ''all-steps-verified'') \<and> w' = w
             | Some s \<Rightarrow> ticks P pub rep p s w res w')
      | _ \<Rightarrow> res = Inl LoopInvariantError \<and> w' = w)"

lemma require_project_run [exec]:
  "require_project w = (case db_projects (live w) of [p] \<Rightarrow> (Inr p, w) | _ \<Rightarrow> (Inl LoopInvariantError, w))"
proof -
  let ?ps = "db_projects (live w)"
  show ?thesis
  proof (cases "\<exists>p. ?ps = [p]")
    case True
    then show ?thesis by (auto simp: require_project_def list_projects_def exec)
  next
    case False
    then have "\<nexists>p. sort_key project_name ?ps = [p]" by (simp add: sort_key_single)
    with False show ?thesis
      by (auto simp: require_project_def list_projects_def exec split: list.splits)
  qed
qed

context loop
begin

lemma run_once_runs:
  assumes idle: "idle w" and run: "run_once P w = (res, w')"
  shows "runs P published report w res w'"
proof (cases "\<exists>p. db_projects (live w) = [p]")
  case False
  then have "run_once P w = (Inl LoopInvariantError, w)"
    by (auto simp: run_once_def exec split: list.splits)
  with False run show ?thesis by (auto simp: runs_def split: list.splits)
next
  case True
  then obtain p where p: "db_projects (live w) = [p]" by blast
  have empty: "sort_key step_no (db_steps (live w)) = [] \<longleftrightarrow> db_steps (live w) = []"
    by (metis length_0_conv length_sort)
  show ?thesis
  proof (cases "project_paused p \<or> db_steps (live w) = []")
    case True
    with p run empty show ?thesis
      by (auto simp: run_once_def list_steps_def exec runs_def)
  next
    case False
    then have "run_once P w = (case current_of (db_steps (live w)) of
        None \<Rightarrow> returnM (tick_of Loop_COMPLETE ''all-steps-verified'') w | Some s \<Rightarrow> advance P s p w)"
      using p empty by (simp add: run_once_def list_steps_def exec split: option.split)
    with False p run advance_ticks[OF idle] show ?thesis
      by (auto simp: runs_def exec split: option.splits)
  qed
qed

lemma run_once_cases:
  assumes "idle w" and "run_once P w = (res, w')"
  obtains (quiet) "still published report w w'" "\<nexists>t. res = Inr t \<and> tick_status t = Loop_TRANSITIONED"
  | (fires) p s ev reason u r late compliant t where
      "db_projects (live w) = [p]" "\<not> project_paused p" "current_of (db_steps (live w)) = Some s"
      "observed P report s w r late compliant" "plan p s r late compliant = Fire ev reason"
      "res = Inr t" "tick_status t = Loop_TRANSITIONED" "tick_step_no t = Some (step_no s)"
      "tick_event t = Some ev" "tick_to t = Some (step_state u)" "tick_reason t = reason"
      "move_step published report s ev reason u w w'"
proof -
  have refl: "still published report w w"
    by (simp add: still_def channelling.R_refl)
  have halt: "st \<noteq> Loop_TRANSITIONED" if "plan p s r late compliant = Halt st reason" for p s r late compliant st reason
    using that by (auto simp: plan_def review_move_def split: step_state.splits if_splits option.splits sum.splits)
  note runs = run_once_runs[OF assms]
  show thesis
  proof (cases "\<exists>p s. db_projects (live w) = [p] \<and> \<not> project_paused p \<and> current_of (db_steps (live w)) = Some s")
    case True
    then obtain p s where ps: "db_projects (live w) = [p]" "\<not> project_paused p"
      "current_of (db_steps (live w)) = Some s" by blast
    then have "db_steps (live w) \<noteq> []" using current_of_Some(1) by fastforce
    with runs ps have t: "ticks P published report p s w res w'" by (simp add: runs_def)
    show thesis
    proof (cases res)
      case (Inl e)
      with t show thesis by (intro quiet) (auto simp: ticks_def)
    next
      case (Inr tk)
      with t obtain r late compliant where o: "observed P report s w r late compliant" and
        m: "case plan p s r late compliant of
             Halt st reason \<Rightarrow> tick_status tk = st \<and> tick_reason tk = reason \<and> still published report w w'
           | Fire ev reason \<Rightarrow>
               tick_status tk = Loop_TRANSITIONED \<and> tick_step_no tk = Some (step_no s) \<and>
               tick_event tk = Some ev \<and> tick_reason tk = reason \<and>
               (\<exists>u. tick_to tk = Some (step_state u) \<and> move_step published report s ev reason u w w')"
        by (auto simp: ticks_def)
      show thesis
      proof (cases "plan p s r late compliant")
        case (Halt st reason)
        with m Inr halt show thesis by (intro quiet) auto
      next
        case (Fire ev reason)
        with m obtain u where "tick_to tk = Some (step_state u)" "move_step published report s ev reason u w w'"
          by auto
        with fires[OF ps o Fire Inr] m Fire show thesis by auto
      qed
    qed
  next
    case False
    with runs have "w' = w \<and> (\<nexists>t. res = Inr t \<and> tick_status t = Loop_TRANSITIONED)"
      by (auto simp: runs_def tick_of_def split: list.splits if_splits option.splits)
    with refl show thesis by (intro quiet) auto
  qed
qed

end

section \<open>Effects of a tick\<close>

text \<open>The loop moves only the current Step, never takes a human decision, and asks for a revision only
  while attempts remain.\<close>

definition human_events :: "step_event set" where
  "human_events = {Ev_APPROVE, Ev_REJECT, Ev_UNBLOCK, Ev_RESOLVE}"

definition loop_allowed :: "db \<Rightarrow> step \<Rightarrow> step_event \<Rightarrow> bool" where
  "loop_allowed d s ev \<longleftrightarrow> current_of (db_steps d) = Some s \<and> ev \<notin> human_events \<and>
     (ev = Ev_REQUEST_REVISE \<longrightarrow> step_attempt s < step_max_attempts s)"

lemma review_fires:
  assumes "review_move s r compliant = Fire ev reason"
  shows "ev \<in> {Ev_VERIFY, Ev_REQUEST_REVISE, Ev_BLOCK}"
    "ev = Ev_REQUEST_REVISE \<Longrightarrow> step_attempt s < step_max_attempts s"
    "ev = Ev_VERIFY \<Longrightarrow> compliant \<and> clean_report r"
proof -
  obtain out where out: "decide_review r (step_attempt s) (step_max_attempts s) = Inr out"
    using assms by (cases "decide_review r (step_attempt s) (step_max_attempts s)") (auto simp: review_move_def)
  note ok = decide_review_ok[OF out]
  have ev: "ev = (if outcome_event out = Ev_VERIFY \<and> \<not> compliant then Ev_BLOCK else outcome_event out)"
    using assms out by (simp add: review_move_def split: if_splits)
  show "ev \<in> {Ev_VERIFY, Ev_REQUEST_REVISE, Ev_BLOCK}" using ev ok(4) by auto
  show "step_attempt s < step_max_attempts s" if "ev = Ev_REQUEST_REVISE"
    using ev that ok(5) by (auto split: if_splits)
  show "compliant \<and> clean_report r" if "ev = Ev_VERIFY"
    using ev that ok(3) by (auto split: if_splits)
qed

lemma plan_fires:
  assumes "plan p s r late compliant = Fire ev reason"
  shows "ev \<notin> human_events" "ev = Ev_REQUEST_REVISE \<Longrightarrow> step_attempt s < step_max_attempts s"
    "ev = Ev_DISPATCH \<Longrightarrow> step_state s = Step_READY"
    "ev = Ev_VERIFY \<Longrightarrow> step_state s = Step_REVIEWING \<and> compliant \<and> (\<exists>x. r = Some x \<and> clean_report x)"
    "ev = Ev_RETRY \<Longrightarrow> step_attempt s < step_max_attempts s"
proof -
  have "ev \<notin> human_events \<and> (ev = Ev_REQUEST_REVISE \<longrightarrow> step_attempt s < step_max_attempts s) \<and>
    (ev = Ev_DISPATCH \<longrightarrow> step_state s = Step_READY) \<and>
    (ev = Ev_VERIFY \<longrightarrow> step_state s = Step_REVIEWING \<and> compliant \<and> (\<exists>x. r = Some x \<and> clean_report x)) \<and>
    (ev = Ev_RETRY \<longrightarrow> step_attempt s < step_max_attempts s)"
  proof (cases "step_state s = Step_REVIEWING")
    case True
    with assms obtain x where x: "r = Some x" "review_move s x compliant = Fire ev reason"
      by (auto simp: plan_def split: option.splits)
    with review_fires[OF x(2)] True show ?thesis by (auto simp: human_events_def)
  next
    case False
    with assms show ?thesis
      by (cases "step_state s") (auto simp: plan_def human_events_def can_retry_def split: if_splits)
  qed
  then show "ev \<notin> human_events" "ev = Ev_REQUEST_REVISE \<Longrightarrow> step_attempt s < step_max_attempts s"
    "ev = Ev_DISPATCH \<Longrightarrow> step_state s = Step_READY"
    "ev = Ev_VERIFY \<Longrightarrow> step_state s = Step_REVIEWING \<and> compliant \<and> (\<exists>x. r = Some x \<and> clean_report x)"
    "ev = Ev_RETRY \<Longrightarrow> step_attempt s < step_max_attempts s"
    by auto
qed

lemma step_changedI:
  assumes "moved s ev reason u d d'" and "s \<in> set (db_steps d)" and "ev \<noteq> Ev_APPROVE"
  shows "step_changed s ev u d d'"
proof -
  obtain to t d1 start now where m: "step_next (step_state s) ev = Inr to" "evidence_only d d1"
    "u = transition_step s to (next_attempt s ev) start now"
    "d' = persisted u t (transition_entry s ev to (next_attempt s ev) reason now) d1" "valid_step u"
    using assms(1) unfolding moved_def by blast
  have "same_plan s u" using m(3) by (simp add: same_plan_def transition_step_def Let_def)
  moreover have "attempt_moves s ev u" using m(3) assms(3) by (simp add: attempt_moves_def next_attempt_def)
  moreover have "records (transition_entry s ev to (next_attempt s ev) reason now) s ev u"
    using m(3) by (simp add: records_def transition_entry_def)
  ultimately show ?thesis
    using m assms(2) by (auto simp: step_changed_def evidence_onlyD)
qed

context loop
begin

lemma moved_effects:
  assumes idle: "idle w" and current: "current_of (db_steps (live w)) = Some s"
    and plan: "plan p s r late compliant = Fire ev reason"
    and move: "move_step published report s ev reason u w w'"
  shows "effects published loop_allowed w w'" and "step_changed s ev u (live w) (live w')"
proof -
  obtain x v where x: "moved s ev reason u (live w) (live x)" "idle x" "step_rel w v" "disk x = disk v"
    "tree x = tree v" "trail x = trail v @ [(live x, disk v)]"
    "ev = Ev_DISPATCH \<longrightarrow> published (disk v) (step_no u, step_attempt u)"
    and ack: "channel_step published report
      (if step_state s = Step_REVIEWING then {(step_no s, step_attempt s)} else {}) x w'"
    using move unfolding move_step_def commit_step_def by blast
  have member: "s \<in> set (db_steps (live w))" using current by (rule current_of_Some(1))
  have "ev \<noteq> Ev_APPROVE" using plan_fires(1)[OF plan] by (auto simp: human_events_def)
  then have changed: "step_changed s ev u (live w) (live x)" by (rule step_changedI[OF x(1) member])
  then show "step_changed s ev u (live w) (live w')"
    using ack by (simp add: channel_step_def)
  have "step_state u = Step_DISPATCHED \<Longrightarrow> ev = Ev_DISPATCH"
    using movedD(2)[OF x(1)] plan_fires(1)[OF plan] by (auto simp: human_events_def step_next_into)
  then have "tasks_out published (live x) (disk v)" if "tasks_out published (live w) (disk v)"
    using tasks_out_put[OF that movedD(6)[OF x(1)]] x(7) by blast
  moreover have "db_step loop_allowed (live w) (live x)"
    using changed current plan_fires(1,2)[OF plan] by (auto simp: db_step_def loop_allowed_def)
  ultimately show "effects published loop_allowed w w'"
    using effects_commit[OF idle x(3-6,2) _ _ ack] by blast
qed

lemma run_once_effects:
  assumes "idle w" and "run_once P w = (res, w')"
  shows "effects published loop_allowed w w'"
  using assms
proof (cases rule: run_once_cases)
  case quiet
  then show ?thesis using assms(1) by (auto simp: still_def intro: effects_quiet)
next
  case (fires p s ev reason u r late compliant t)
  then show ?thesis using moved_effects(1)[OF assms(1)] by blast
qed

end

end
