(* ===== verification/Approval.thy ===== *)
theory Approval
  imports Tick
begin

text \<open>
  The human approval path (\<open>application/approval.py\<close>): \<open>approve\<close> publishes the task of a Step that
  waits for approval and then commits Step, Task and audit entry together; \<open>reject\<close> sends it back to
  \<open>READY\<close>. The effects of both are shown for every worker channel that keeps its contract.
\<close>

section \<open>The gate\<close>

record approval_gate =
  approval_dispatch :: "worker_request \<Rightarrow> unit io"
  approval_clock :: "nat \<Rightarrow> datetime"
  approval_instructions :: mapping
  approval_report_schema :: mapping

definition approval_context :: "string \<Rightarrow> string \<Rightarrow> exn + unit" where
  "approval_context actor reason =
     (if is_blank actor then Inl ApprovalActorRequiredError
      else if is_blank reason then Inl ApprovalReasonRequiredError
      else Inr ())"

definition approval_require_step :: "int \<Rightarrow> step io" where
  "approval_require_step n =
     bindM (get_step n) (\<lambda>found.
     case found of None \<Rightarrow> raiseM ApprovalStepNotFoundError | Some s \<Rightarrow> returnM s)"

text \<open>\<open>_target\<close>: the target of the event, pinned to what the gate may realize.\<close>

definition approval_target :: "step \<Rightarrow> step_event \<Rightarrow> step_state \<Rightarrow> exn + step_state" where
  "approval_target s ev expected =
     (case step_next (step_state s) ev of
        Inl e \<Rightarrow> Inl (if e = InvalidTransitionError then ApprovalTransitionError else e)
      | Inr to \<Rightarrow>
          if to = Step_VERIFIED \<or> to \<noteq> expected then Inl ApprovalTransitionError else Inr to)"

definition approval_entry ::
  "step \<Rightarrow> step_state \<Rightarrow> step_event \<Rightarrow> string \<Rightarrow> string \<Rightarrow> string \<Rightarrow> int \<Rightarrow> datetime \<Rightarrow> audit_entry" where
  "approval_entry s to ev operation actor reason attempt now =
     \<lparr>entry_entity_type = Entity_STEP, entry_entity_id = show_int (step_no s), entry_action = Act_UPDATE,
      entry_detail =
        [(''operation'', JStr operation),
         (''actor'', JStr actor),
         (''reason'', JStr reason),
         (''step_no'', JInt (step_no s)),
         (''event'', JStr (step_event_value ev)),
         (''from'', JStr (step_state_value (step_state s))),
         (''to'', JStr (step_state_value to)),
         (''attempt'', JInt attempt)],
      entry_created_at = now\<rparr>"

text \<open>The Step an approval leaves: the loop's dispatch without the loop.\<close>

definition approved_step :: "step \<Rightarrow> step_state \<Rightarrow> int \<Rightarrow> datetime \<Rightarrow> step" where
  "approved_step s to attempt now =
     (let u = s\<lparr>step_state := to, step_attempt := attempt, step_last_update_at := Some now\<rparr> in
      if step_started_at s = None then u\<lparr>step_started_at := Some now\<rparr> else u)"

definition approve :: "approval_gate \<Rightarrow> int \<Rightarrow> string \<Rightarrow> string \<Rightarrow> step io" where
  "approve G n actor reason =
     thenM (liftE (approval_context actor reason))
     (bindM (approval_require_step n) (\<lambda>s.
     bindM (liftE (approval_target s Ev_APPROVE Step_DISPATCHED)) (\<lambda>to.
     bindM (clockM (approval_clock G)) (\<lambda>now.
     let attempt = max (step_attempt s) 1 in
     bindM (publish_task (approval_dispatch G) (approval_clock G) s attempt (approval_instructions G)
              (approval_report_schema G) now) (\<lambda>dispatched.
     bindM (liftE (mk_step (approved_step s to attempt now))) (\<lambda>u.
     bindM (liftE (mk_audit_entry
              (approval_entry s to Ev_APPROVE ''approve_step'' actor reason attempt now))) (\<lambda>e.
     thenM (transactionM (thenM (upsert_step u) (thenM (upsert_task dispatched) (append_audit e))))
     (returnM u))))))))"

definition reject :: "approval_gate \<Rightarrow> int \<Rightarrow> string \<Rightarrow> string \<Rightarrow> step io" where
  "reject G n actor reason =
     thenM (liftE (approval_context actor reason))
     (bindM (approval_require_step n) (\<lambda>s.
     bindM (liftE (approval_target s Ev_REJECT Step_READY)) (\<lambda>to.
     bindM (clockM (approval_clock G)) (\<lambda>now.
     bindM (liftE (mk_step (s\<lparr>step_state := to, step_last_update_at := Some now\<rparr>))) (\<lambda>u.
     bindM (liftE (mk_audit_entry
              (approval_entry s to Ev_REJECT ''reject_step'' actor reason (step_attempt s) now))) (\<lambda>e.
     thenM (transactionM (thenM (upsert_step u) (append_audit e)))
     (returnM u)))))))"

section \<open>Effects\<close>

text \<open>What humans may do to a Step: the events of their commands, on any Step.\<close>

definition human_allowed :: "db \<Rightarrow> step \<Rightarrow> step_event \<Rightarrow> bool" where
  "human_allowed d s ev \<longleftrightarrow> ev \<in> insert Ev_ABORT human_events"

lemma approval_require_step_run [exec]:
  "approval_require_step n w = (case lookup step_no n (db_steps (live w)) of
     None \<Rightarrow> (Inl ApprovalStepNotFoundError, w) | Some s \<Rightarrow> (Inr s, w))"
  by (simp add: approval_require_step_def get_step_def exec split: option.split)

lemma approval_target_ok:
  "approval_target s ev expected = Inr to \<longleftrightarrow>
     step_next (step_state s) ev = Inr to \<and> to = expected \<and> to \<noteq> Step_VERIFIED"
  by (auto simp: approval_target_def split: sum.splits)

lemma approval_entry_valid [simp]:
  "mk_audit_entry (approval_entry s to ev op actor reason a now) = Inr (approval_entry s to ev op actor reason a now)"
  by (simp add: valid_entry_def approval_entry_def)

lemma approval_entry_records:
  "step_state u = to \<Longrightarrow> step_attempt u = a \<Longrightarrow> records (approval_entry s to ev op actor reason a now) s ev u"
  by (simp add: records_def approval_entry_def)

text \<open>One human transition of a Step: what its commit is, whatever Task goes with it.\<close>

definition human_change :: "step \<Rightarrow> step_event \<Rightarrow> step \<Rightarrow> task option \<Rightarrow> audit_entry \<Rightarrow> bool" where
  "human_change s ev u t e \<longleftrightarrow> valid_step u \<and> same_plan s u \<and> attempt_moves s ev u \<and>
     step_next (step_state s) ev = Inr (step_state u) \<and> records e s ev u \<and>
     (\<forall>x. t = Some x \<longrightarrow> task_step_no x = step_no u)"

lemma human_commit:
  assumes idle: "idle w" and v: "channel_step pub rep ks w v" and ev: "ev \<in> insert Ev_ABORT human_events"
    and s: "lookup step_no n (db_steps (live w)) = Some s" and change: "human_change s ev u t e"
    and out: "step_state u = Step_DISPATCHED \<Longrightarrow> pub (disk v) (step_no u, step_attempt u)"
  shows "effects pub human_allowed w (settle (v\<lparr>live := persisted u t e (live v)\<rparr>))" (is "effects _ _ _ ?x")
    and "step_changed s ev u (live w) (live (settle (v\<lparr>live := persisted u t e (live v)\<rparr>)))"
proof -
  have vs: "depth v = 0" "live v = live w" "durable v = live w"
    using idle v by (auto simp: channel_step_def idle_def)
  have member: "s \<in> set (db_steps (live w))" using s by (auto dest: lookup_Some)
  have changed: "step_changed s ev u (live w) (live ?x)"
    using change member vs by (auto simp: step_changed_def human_change_def settle_def)
  then show "step_changed s ev u (live w) (live ?x)" .
  have "db_step human_allowed (live w) (live ?x)"
    using changed ev by (auto simp: db_step_def human_allowed_def)
  moreover have "tasks_out pub (live ?x) (disk v)" if "tasks_out pub (live w) (disk v)"
    using out by (intro tasks_out_put[OF that, of _ u]) (auto simp: vs settle_def)
  ultimately show "effects pub human_allowed w ?x"
    using effects_commit[OF idle v, where x = ?x and w' = ?x and ks' = ks] vs channelling.R_refl
    by (auto simp: settle_def)
qed

text \<open>The transaction of an approval is the loop's: Step, Task, audit entry.\<close>

lemma approval_persist:
  "transactionM (thenM (upsert_step u) (thenM (upsert_task t) (append_audit e))) = persist_transition u (Some t) e"
  "transactionM (thenM (upsert_step u) (append_audit e)) = persist_transition u None e"
proof -
  have "thenM (returnM ()) m = m" for m :: "unit io"
    by (rule ext) (simp add: exec)
  then show "transactionM (thenM (upsert_step u) (thenM (upsert_task t) (append_audit e))) = persist_transition u (Some t) e"
    "transactionM (thenM (upsert_step u) (append_audit e)) = persist_transition u None e"
    by (simp_all add: persist_transition_def)
qed

lemma clock_step: "channel_step pub rep ks w (w\<lparr>clock_reads := n\<rparr>)"
  by (auto simp: channel_step_def intro: exI[of _ "[]"])

lemma approved_step_fields [simp]:
  "step_no (approved_step s to a now) = step_no s" "step_state (approved_step s to a now) = to"
  "step_attempt (approved_step s to a now) = a" "same_plan s (approved_step s to a now)"
  by (simp_all add: approved_step_def Let_def same_plan_def)

context worker_channel
begin

lemma approve_cases:
  assumes idle: "idle w" and run: "approve G n actor reason w = (res, w')" and "approval_dispatch G = dispatch"
  obtains (failed) e where "res = Inl e" "channel_step published report {} w w'"
  | (approved) s u v t now where "lookup step_no n (db_steps (live w)) = Some s"
      "\<not> is_blank actor" "\<not> is_blank reason" "res = Inr u" "channel_step published report {} w v"
      "human_change s Ev_APPROVE u (Some t)
         (approval_entry s Step_DISPATCHED Ev_APPROVE ''approve_step'' actor reason (step_attempt u) now)"
      "step_state u = Step_DISPATCHED" "published (disk v) (step_no u, step_attempt u)"
      "w' = settle (v\<lparr>live := persisted u (Some t)
         (approval_entry s Step_DISPATCHED Ev_APPROVE ''approve_step'' actor reason (step_attempt u) now) (live v)\<rparr>)"
proof -
  have refl: "channel_step published report {} w w" by (rule channelling.R_refl)
  let ?now = "approval_clock G (clock_reads w)" and ?w1 = "w\<lparr>clock_reads := clock_reads w + 1\<rparr>"
  show thesis
  proof (cases "approval_context actor reason")
    case (Inl e)
    with run refl show thesis by (intro failed[of e]) (auto simp: approve_def exec)
  next
    case context_ok: (Inr x)
    show thesis
    proof (cases "lookup step_no n (db_steps (live w))")
      case None
      with run refl context_ok show thesis by (intro failed) (auto simp: approve_def exec)
    next
      case (Some s)
      let ?a = "max (step_attempt s) 1"
      show thesis
      proof (cases "approval_target s Ev_APPROVE Step_DISPATCHED")
        case (Inl e)
        with run refl context_ok Some show thesis by (intro failed[of e]) (auto simp: approve_def exec)
      next
        case (Inr to)
        then have to: "to = Step_DISPATCHED" "step_next (step_state s) Ev_APPROVE = Inr Step_DISPATCHED"
          by (auto simp: approval_target_ok)
        obtain rp v where pub: "publish_task dispatch (approval_clock G) s ?a (approval_instructions G)
            (approval_report_schema G) ?now ?w1 = (rp, v)" by fastforce
        have v: "channel_step published report {} w v"
          using channelling.R_trans[OF clock_step followsD[OF publish_frame pub]] .
        let ?u = "approved_step s Step_DISPATCHED ?a ?now"
        let ?e = "approval_entry s Step_DISPATCHED Ev_APPROVE ''approve_step'' actor reason ?a ?now"
        have rest: "(res, w') = (case rp of Inl e \<Rightarrow> (Inl e, v) | Inr t \<Rightarrow>
            (case mk_step ?u of Inl e \<Rightarrow> (Inl e, v)
             | Inr u \<Rightarrow> thenM (persist_transition u (Some t) ?e) (returnM u) v))"
          using run assms(3) context_ok Some Inr to pub
          by (auto simp: approve_def exec Let_def approval_persist split: sum.splits)
        show thesis
        proof (cases rp)
          case (Inl e)
          with rest v show thesis by (intro failed[of e]) auto
        next
          case pubbed: (Inr t)
          have t: "published (disk v) (step_no s, ?a)" "task_step_no t = step_no s"
            using publish_ok[OF pub[unfolded pubbed]] by auto
          show thesis
          proof (cases "mk_step ?u")
            case (Inl e)
            with rest pubbed v show thesis by (intro failed[of e]) auto
          next
            case (Inr u)
            then have u: "u = ?u" "valid_step ?u" by (auto simp: mk_step_iff)
            have "w' = settle (v\<lparr>live := persisted ?u (Some t) ?e (live v)\<rparr>)" "res = Inr ?u"
              using rest pubbed Inr u t by (auto simp: exec)
            moreover have "human_change s Ev_APPROVE ?u (Some t) ?e"
              using u t to by (auto simp: human_change_def attempt_moves_def approval_entry_records)
            moreover have "\<not> is_blank actor" "\<not> is_blank reason"
              using context_ok by (auto simp: approval_context_def split: if_splits)
            ultimately show thesis using approved[OF Some _ _ _ v, of ?u t ?now] t by simp
          qed
        qed
      qed
    qed
  qed
qed

end

lemma reject_cases:
  assumes idle: "idle w" and run: "reject G n actor reason w = (res, w')"
  obtains (failed) e where "res = Inl e" "channel_step pub rep {} w w'"
  | (rejected) s u v now where "lookup step_no n (db_steps (live w)) = Some s"
      "\<not> is_blank actor" "\<not> is_blank reason" "res = Inr u" "channel_step pub rep {} w v"
      "human_change s Ev_REJECT u None
         (approval_entry s Step_READY Ev_REJECT ''reject_step'' actor reason (step_attempt u) now)"
      "step_state u = Step_READY"
      "w' = settle (v\<lparr>live := persisted u None
         (approval_entry s Step_READY Ev_REJECT ''reject_step'' actor reason (step_attempt u) now) (live v)\<rparr>)"
proof -
  have refl: "channel_step pub rep {} w w" by (rule channelling.R_refl)
  let ?now = "approval_clock G (clock_reads w)" and ?w1 = "w\<lparr>clock_reads := clock_reads w + 1\<rparr>"
  have v: "channel_step pub rep {} w ?w1" by (rule clock_step)
  show thesis
  proof (cases "approval_context actor reason")
    case (Inl e)
    with run refl show thesis by (intro failed[of e]) (auto simp: reject_def exec)
  next
    case context_ok: (Inr x)
    show thesis
    proof (cases "lookup step_no n (db_steps (live w))")
      case None
      with run refl context_ok show thesis by (intro failed) (auto simp: reject_def exec)
    next
      case (Some s)
      show thesis
      proof (cases "approval_target s Ev_REJECT Step_READY")
        case (Inl e)
        with run refl context_ok Some show thesis by (intro failed[of e]) (auto simp: reject_def exec)
      next
        case (Inr to)
        then have to: "to = Step_READY" "step_next (step_state s) Ev_REJECT = Inr Step_READY"
          by (auto simp: approval_target_ok)
        let ?u = "s\<lparr>step_state := Step_READY, step_last_update_at := Some ?now\<rparr>"
        let ?e = "approval_entry s Step_READY Ev_REJECT ''reject_step'' actor reason (step_attempt s) ?now"
        show thesis
        proof (cases "mk_step ?u")
          case (Inl e)
          with run v context_ok Some Inr to show thesis
            by (intro failed[of e]) (auto simp: reject_def exec)
        next
          case mk: (Inr u)
          then have u: "u = ?u" "valid_step ?u" by (auto simp: mk_step_iff)
          have "w' = settle (?w1\<lparr>live := persisted ?u None ?e (live w)\<rparr>)" "res = Inr ?u"
            using run context_ok Some Inr to mk u by (auto simp: reject_def exec approval_persist)
          moreover have "human_change s Ev_REJECT ?u None ?e"
            using u to by (auto simp: human_change_def attempt_moves_def approval_entry_records same_plan_def)
          moreover have "\<not> is_blank actor" "\<not> is_blank reason"
            using context_ok by (auto simp: approval_context_def split: if_splits)
          ultimately show thesis using rejected[OF Some _ _ _ v, of ?u ?now] by simp
        qed
      qed
    qed
  qed
qed

end
