(* ===== verification/Scheduler.thy ===== *)
theory Scheduler
  imports Tick
begin

text \<open>
  The scheduler (\<open>application/scheduler.py\<close>): it chains ticks while they transition, at most
  \<open>max_iterations\<close> times. \<open>work\<close> is a measure every transition of the loop decreases, so the bound is only
  defensive: any two bounds above the measure give the same run.
\<close>

section \<open>The scheduler\<close>

definition DEFAULT_MAX_ITERATIONS :: nat where "DEFAULT_MAX_ITERATIONS = 64"

record scheduler_run =
  run_ticks :: "tick_result list"
  limit_reached :: bool

definition transitioned :: "tick_result \<Rightarrow> bool" where
  "transitioned t \<longleftrightarrow> tick_status t = Loop_TRANSITIONED"

definition iterations :: "scheduler_run \<Rightarrow> nat" where
  "iterations r = length (run_ticks r)"

definition run_transitions :: "scheduler_run \<Rightarrow> tick_result list" where
  "run_transitions r = filter transitioned (run_ticks r)"

definition transition_count :: "scheduler_run \<Rightarrow> nat" where
  "transition_count r = length (run_transitions r)"

definition final_tick :: "scheduler_run \<Rightarrow> tick_result option" where
  "final_tick r = (if run_ticks r = [] then None else Some (last (run_ticks r)))"

definition stopped_because :: "scheduler_run \<Rightarrow> string" where
  "stopped_because r =
     (if limit_reached r then ''iteration-limit''
      else (case final_tick r of None \<Rightarrow> ''never-started'' | Some t \<Rightarrow> tick_reason t))"

text \<open>The loop of \<open>run_until_idle\<close> with the ticks collected so far.\<close>

primrec chain :: "ports \<Rightarrow> nat \<Rightarrow> tick_result list \<Rightarrow> scheduler_run io" where
  "chain P 0 ts = returnM \<lparr>run_ticks = ts, limit_reached = True\<rparr>"
| "chain P (Suc n) ts =
     bindM (run_once P) (\<lambda>t.
     if \<not> transitioned t then returnM \<lparr>run_ticks = ts @ [t], limit_reached = False\<rparr>
     else chain P n (ts @ [t]))"

definition run_until_idle :: "ports \<Rightarrow> nat \<Rightarrow> scheduler_run io" where
  "run_until_idle P max_iterations = chain P max_iterations []"

text \<open>The constructor refuses a bound below one; a negative or zero bound is zero here.\<close>

definition mk_scheduler :: "nat \<Rightarrow> exn + nat" where
  "mk_scheduler n = bindE (requireE (1 \<le> n) ValueError) (\<lambda>_. Inr n)"

record loop_health =
  health_paused :: bool
  health_step_count :: nat
  health_current_step_no :: "int option"
  health_current_state :: "step_state option"
  health_next_step_no :: "int option"
  health_complete :: bool

definition health :: "loop_health io" where
  "health =
     bindM current_step (\<lambda>current.
     bindM is_paused (\<lambda>paused.
     bindM step_count (\<lambda>n.
     bindM next_step_no (\<lambda>next_no.
     bindM is_complete (\<lambda>complete.
     returnM \<lparr>health_paused = paused, health_step_count = n,
       health_current_step_no = map_option step_no current,
       health_current_state = map_option step_state current,
       health_next_step_no = next_no, health_complete = complete\<rparr>)))))"

section \<open>The measure\<close>

text \<open>How far a state is from the end of its attempt.\<close>

fun state_rank :: "step_state \<Rightarrow> nat" where
  "state_rank Step_PENDING = 9"
| "state_rank Step_READY = 8"
| "state_rank Step_DISPATCHED = 7"
| "state_rank Step_CLINE_WORKING = 6"
| "state_rank Step_REPORT_RECEIVED = 5"
| "state_rank Step_REVIEWING = 4"
| "state_rank Step_REVISE = 3"
| "state_rank Step_FAILED = 3"
| "state_rank Step_WAITING_APPROVAL = 3"
| "state_rank Step_CONFLICT = 2"
| "state_rank Step_BLOCKED = 1"
| "state_rank Step_ABORTED = 0"
| "state_rank Step_VERIFIED = 0"

definition step_work :: "step \<Rightarrow> nat" where
  "step_work s = 9 * nat (step_max_attempts s - step_attempt s) + state_rank (step_state s)"

definition work :: "db \<Rightarrow> nat" where
  "work d = sum_list (map step_work (db_steps d))"

lemma step_work_decreases:
  assumes "step_changed s ev u d d'" and "ev \<notin> human_events"
  shows "step_work u < step_work s"
proof -
  have u: "step_max_attempts u = step_max_attempts s" "step_attempt u \<le> step_max_attempts s"
    "attempt_moves s ev u" "((step_state s, ev), step_state u) \<in> set STEP_TRANSITIONS"
    using assms(1) by (auto simp: step_changed_def same_plan_def valid_step_def step_next_iff)
  have retry: "step_work u < step_work s" if "step_attempt u = step_attempt s + 1" "state_rank (step_state u) \<le> 8"
    using that u(1,2) by (simp add: step_work_def)
  have other: "step_work u < step_work s"
    if "step_attempt s \<le> step_attempt u" "state_rank (step_state u) < state_rank (step_state s)"
  proof -
    have "nat (step_max_attempts s - step_attempt u) \<le> nat (step_max_attempts s - step_attempt s)"
      using that(1) by simp
    then show ?thesis using that(2) u(1) by (simp add: step_work_def)
  qed
  show ?thesis
  proof (cases "ev = Ev_RETRY")
    case True
    then show ?thesis using u(3,4) retry by (auto simp: attempt_moves_def STEP_TRANSITIONS_def)
  next
    case False
    then have "step_attempt s \<le> step_attempt u" using u(3) by (auto simp: attempt_moves_def)
    moreover have "state_rank (step_state u) < state_rank (step_state s)"
      using u(4) False assms(2) by (auto simp: STEP_TRANSITIONS_def human_events_def)
    ultimately show ?thesis by (rule other)
  qed
qed

lemma sum_list_put_less:
  fixes f :: "'m \<Rightarrow> nat"
  assumes "distinct (map key ms)" and "s \<in> set ms" and "key u = key s" and "f u < f s"
  shows "sum_list (map f (put key u ms)) < sum_list (map f ms)"
proof -
  obtain as bs where ms: "ms = as @ s # bs" using assms(2) by (meson split_list)
  then have "key x \<noteq> key s" if "x \<in> set as \<union> set bs" for x
    using assms(1) that by (auto simp: image_iff)
  then have "map (\<lambda>x. if key x = key u then u else x) ms = as @ u # bs"
    using ms assms(3) by (auto intro: map_idI)
  then have "put key u ms = as @ u # bs"
    using assms(2,3) by (auto simp: put_def)
  with ms assms(4) show ?thesis by simp
qed

lemma work_decreases:
  assumes "step_changed s ev u d d'" and "ev \<notin> human_events" and "distinct (map step_no (db_steps d))"
  shows "work d' < work d"
  using assms(1) step_work_decreases[OF assms(1,2)] sum_list_put_less[OF assms(3), of s u step_work]
  by (simp add: work_def step_changed_def same_plan_def)

section \<open>Runs of the scheduler\<close>

context loop
begin

lemma transitioned_tick:
  assumes "idle w" and run: "run_once P w = (Inr t, w')" and "transitioned t"
  obtains s ev u where "step_changed s ev u (live w) (live w')" "ev \<notin> human_events"
    "tick_event t = Some ev" "tick_step_no t = Some (step_no s)" "idle w'"
  using assms(1,2)
proof (cases rule: run_once_cases)
  case quiet
  with assms(3) show thesis by (simp add: transitioned_def)
next
  case (fires p s ev reason u r late compliant t')
  have "idle w'" using run_once_effects[OF assms(1,2)] by (simp add: effects_def)
  then show thesis
    using that[OF moved_effects(2)[OF assms(1) fires(3,5,12)] plan_fires(1)[OF fires(5)]] fires by simp
qed

lemma chain_bound_irrelevant:
  assumes "idle w" and "distinct (map step_no (db_steps (live w)))"
    and "work (live w) < n" and "work (live w) < m"
  shows "chain P n ts w = chain P m ts w"
  using assms
proof (induction n arbitrary: m ts w)
  case (Suc n)
  obtain k where m: "m = Suc k" using Suc.prems(4) by (cases m) auto
  obtain res w' where run: "run_once P w = (res, w')" by fastforce
  show ?case
  proof (cases "\<exists>t. res = Inr t \<and> transitioned t")
    case True
    then obtain t where t: "res = Inr t" "transitioned t" by blast
    obtain s ev u where c: "step_changed s ev u (live w) (live w')" "ev \<notin> human_events" "idle w'"
      using transitioned_tick[OF Suc.prems(1) run[unfolded t(1)] t(2)] by metis
    have "work (live w') < work (live w)" using work_decreases[OF c(1,2) Suc.prems(2)] .
    moreover have "distinct (map step_no (db_steps (live w')))"
      using c(1) Suc.prems(2) by (simp add: step_changed_def put_distinct)
    ultimately have "chain P n (ts @ [t]) w' = chain P k (ts @ [t]) w'"
      using Suc.prems(3,4) m by (intro Suc.IH[OF c(3)]) auto
    then show ?thesis using run t m by (simp add: exec)
  next
    case False
    then show ?thesis using run m by (cases res) (auto simp: exec)
  qed
qed simp

lemma chain_run:
  assumes "idle w" and "distinct (map step_no (db_steps (live w)))"
    and "chain P n ts w = (Inr r, w')"
  shows "\<exists>new. run_ticks r = ts @ new \<and> length (filter transitioned new) + work (live w') \<le> work (live w) \<and>
    length (db_audit (live w')) = length (db_audit (live w)) + length (filter transitioned new) \<and>
    (if limit_reached r then list_all transitioned new \<and> length new = n
     else new \<noteq> [] \<and> list_all transitioned (butlast new) \<and> \<not> transitioned (last new))"
  using assms
proof (induction n arbitrary: ts w)
  case 0
  then show ?case by (auto simp: exec)
next
  case (Suc n)
  obtain t v where run: "run_once P w = (Inr t, v)" and
    rest: "(if \<not> transitioned t then returnM \<lparr>run_ticks = ts @ [t], limit_reached = False\<rparr>
            else chain P n (ts @ [t])) v = (Inr r, w')"
    using Suc.prems(3) by (auto simp: bindM_Inr_iff)
  show ?case
  proof (cases "transitioned t")
    case False
    then have "live v = live w"
      by (rule_tac run_once_cases[OF Suc.prems(1) run]) (auto simp: still_def channel_step_def transitioned_def)
    with False rest show ?thesis by (intro exI[of _ "[t]"]) (auto simp: exec)
  next
    case True
    obtain s ev u where c: "step_changed s ev u (live w) (live v)" "ev \<notin> human_events" "idle v"
      using transitioned_tick[OF Suc.prems(1) run True] by metis
    have "work (live v) < work (live w)" using work_decreases[OF c(1,2) Suc.prems(2)] .
    moreover have "length (db_audit (live v)) = length (db_audit (live w)) + 1"
      using c(1) by (auto simp: step_changed_def)
    moreover have keyed: "distinct (map step_no (db_steps (live v)))"
      using c(1) Suc.prems(2) by (simp add: step_changed_def put_distinct)
    moreover obtain new where
      "run_ticks r = (ts @ [t]) @ new" "length (filter transitioned new) + work (live w') \<le> work (live v)"
      "length (db_audit (live w')) = length (db_audit (live v)) + length (filter transitioned new)"
      "if limit_reached r then list_all transitioned new \<and> length new = n
       else new \<noteq> [] \<and> list_all transitioned (butlast new) \<and> \<not> transitioned (last new)"
      using Suc.IH[OF c(3) keyed, of "ts @ [t]"] rest True by auto
    ultimately show ?thesis
      using True by (intro exI[of _ "t # new"]) (auto split: if_splits)
  qed
qed

end

end
