(* ===== verification/Composition.thy ===== *)
theory Composition
  imports Cline Approval Scheduler
begin

text \<open>
  The wiring of the loop (\<open>composition/root.py\<close>): the orchestrator gets the Cline adapter as its worker
  channel and the realization use case, over the adapter that scans the source tree, as its gate. The
  contracts the loop was verified against hold for these parts, so the locale \<open>loop\<close> is interpreted here.
\<close>

definition composed_ports ::
  "cline \<Rightarrow> realization_adapter \<Rightarrow> canonical_baseline \<Rightarrow> (nat \<Rightarrow> datetime) \<Rightarrow> int option \<Rightarrow> ports" where
  "composed_ports c A b clk limit =
     \<lparr>port_dispatch = cline_dispatch c, port_read = cline_read_report,
      port_acknowledge = cline_acknowledge_report c, port_gate = realization_gate (adapter_check A) b,
      port_clock = clk, port_timeout = limit, port_instructions = DEFAULT_TASK_INSTRUCTIONS,
      port_report_schema = DEFAULT_REPORT_SCHEMA\<rparr>"

lemma composed_ports_simps [simp]:
  "port_dispatch (composed_ports c A b clk limit) = cline_dispatch c"
  "port_read (composed_ports c A b clk limit) = cline_read_report"
  "port_acknowledge (composed_ports c A b clk limit) = cline_acknowledge_report c"
  "port_gate (composed_ports c A b clk limit) = realization_gate (adapter_check A) b"
  "port_clock (composed_ports c A b clk limit) = clk"
  "port_timeout (composed_ports c A b clk limit) = limit"
  by (simp_all add: composed_ports_def)

interpretation composed: loop "composed_ports c A b clk limit" cline_published cline_report for c A b clk limit
  by (intro loop.intro)
    (simp_all add: cline.worker_channel_axioms gate.realization_control_axioms)

end
