(* ===== verification/Human_Override.thy ===== *)
theory Human_Override
  imports Approval
begin

text \<open>
  The state-control path of a human (\<open>application/human_override.py\<close>): pause, resume, set the mode, and
  the Step events \<open>UNBLOCK\<close>, \<open>RESOLVE\<close>, \<open>ABORT\<close>. Every command checks its context before it reads
  anything and writes one change with one audit entry in one transaction.
\<close>

section \<open>Guards\<close>

definition override_context :: "string \<Rightarrow> string \<Rightarrow> exn + unit" where
  "override_context actor reason =
     (if is_blank actor then Inl OverrideActorRequiredError
      else if is_blank reason then Inl OverrideReasonRequiredError
      else Inr ())"

definition override_single_project :: "project io" where
  "override_single_project =
     bindM list_projects (\<lambda>ps.
     case ps of
       [] \<Rightarrow> raiseM OverrideProjectNotFoundError
     | [p] \<Rightarrow> returnM p
     | _ \<Rightarrow> raiseM OverrideInvariantError)"

definition override_require_step :: "int \<Rightarrow> step io" where
  "override_require_step n =
     bindM (get_step n) (\<lambda>found.
     case found of None \<Rightarrow> raiseM OverrideStepNotFoundError | Some s \<Rightarrow> returnM s)"

section \<open>Project control\<close>

definition commit_project :: "project \<Rightarrow> audit_action \<Rightarrow> mapping \<Rightarrow> datetime \<Rightarrow> unit io" where
  "commit_project p action detail now =
     bindM (liftE (mk_audit_entry
       \<lparr>entry_entity_type = Entity_PROJECT, entry_entity_id = project_name p, entry_action = action,
        entry_detail = detail, entry_created_at = now\<rparr>)) (\<lambda>e.
     transactionM (thenM (upsert_project p) (append_audit e)))"

definition pause_project :: "(nat \<Rightarrow> datetime) \<Rightarrow> string \<Rightarrow> string \<Rightarrow> project io" where
  "pause_project clk actor reason =
     thenM (liftE (override_context actor reason))
     (bindM override_single_project (\<lambda>p.
      if project_paused p then raiseM OverrideNoChangeError
      else
        bindM (clockM clk) (\<lambda>now.
        bindM (liftE (mk_project (p\<lparr>project_paused := True, project_updated_at := now\<rparr>))) (\<lambda>u.
        thenM (commit_project u Act_PAUSE
                 [(''operation'', JStr ''pause_project''), (''actor'', JStr actor), (''reason'', JStr reason),
                  (''paused_before'', JBool False), (''paused_after'', JBool True),
                  (''mode'', JStr (mode_value (project_mode p)))] now)
        (returnM u)))))"

definition resume_project :: "(nat \<Rightarrow> datetime) \<Rightarrow> string \<Rightarrow> string \<Rightarrow> project io" where
  "resume_project clk actor reason =
     thenM (liftE (override_context actor reason))
     (bindM override_single_project (\<lambda>p.
      if \<not> project_paused p then raiseM OverrideNoChangeError
      else
        bindM (clockM clk) (\<lambda>now.
        bindM (liftE (mk_project (p\<lparr>project_paused := False, project_updated_at := now\<rparr>))) (\<lambda>u.
        thenM (commit_project u Act_RESUME
                 [(''operation'', JStr ''resume_project''), (''actor'', JStr actor), (''reason'', JStr reason),
                  (''paused_before'', JBool True), (''paused_after'', JBool False),
                  (''mode'', JStr (mode_value (project_mode p)))] now)
        (returnM u)))))"

definition set_mode :: "(nat \<Rightarrow> datetime) \<Rightarrow> mode \<Rightarrow> string \<Rightarrow> string \<Rightarrow> project io" where
  "set_mode clk m actor reason =
     thenM (liftE (override_context actor reason))
     (bindM override_single_project (\<lambda>p.
      if project_mode p = m then raiseM OverrideNoChangeError
      else
        bindM (clockM clk) (\<lambda>now.
        bindM (liftE (mk_project (p\<lparr>project_mode := m, project_updated_at := now\<rparr>))) (\<lambda>u.
        thenM (commit_project u Act_SET_MODE
                 [(''operation'', JStr ''set_mode''), (''actor'', JStr actor), (''reason'', JStr reason),
                  (''mode_before'', JStr (mode_value (project_mode p))),
                  (''mode_after'', JStr (mode_value m)), (''paused'', JBool (project_paused p))] now)
        (returnM u)))))"

section \<open>Step control\<close>

definition override_entry ::
  "step \<Rightarrow> step_state \<Rightarrow> step_event \<Rightarrow> string \<Rightarrow> string \<Rightarrow> string \<Rightarrow> datetime \<Rightarrow> audit_entry" where
  "override_entry s to ev operation actor reason now =
     \<lparr>entry_entity_type = Entity_STEP, entry_entity_id = show_int (step_no s), entry_action = Act_UPDATE,
      entry_detail =
        [(''operation'', JStr operation),
         (''actor'', JStr actor),
         (''reason'', JStr reason),
         (''step_no'', JInt (step_no s)),
         (''event'', JStr (step_event_value ev)),
         (''from'', JStr (step_state_value (step_state s))),
         (''to'', JStr (step_state_value to)),
         (''attempt'', JInt (step_attempt s))],
      entry_created_at = now\<rparr>"

definition override_step :: "step \<Rightarrow> step_state \<Rightarrow> datetime \<Rightarrow> step" where
  "override_step s to now =
     (let u = s\<lparr>step_state := to, step_last_update_at := Some now\<rparr> in
      if to = Step_ABORTED then u\<lparr>step_finished_at := Some now\<rparr> else u)"

definition apply_step_event ::
  "(nat \<Rightarrow> datetime) \<Rightarrow> int \<Rightarrow> step_event \<Rightarrow> string \<Rightarrow> string \<Rightarrow> string \<Rightarrow> step io" where
  "apply_step_event clk n ev operation actor reason =
     thenM (liftE (override_context actor reason))
     (bindM (override_require_step n) (\<lambda>s.
     bindM (liftE (case step_next (step_state s) ev of
              Inl e \<Rightarrow> Inl (if e = InvalidTransitionError then OverrideTransitionError else e)
            | Inr to \<Rightarrow> Inr to)) (\<lambda>to.
     bindM (clockM clk) (\<lambda>now.
     bindM (liftE (mk_step (override_step s to now))) (\<lambda>u.
     bindM (liftE (mk_audit_entry (override_entry s to ev operation actor reason now))) (\<lambda>e.
     thenM (transactionM (thenM (upsert_step u) (append_audit e)))
     (returnM u)))))))"

definition unblock_step :: "(nat \<Rightarrow> datetime) \<Rightarrow> int \<Rightarrow> string \<Rightarrow> string \<Rightarrow> step io" where
  "unblock_step clk n actor reason = apply_step_event clk n Ev_UNBLOCK ''unblock_step'' actor reason"

definition resolve_step :: "(nat \<Rightarrow> datetime) \<Rightarrow> int \<Rightarrow> string \<Rightarrow> string \<Rightarrow> step io" where
  "resolve_step clk n actor reason = apply_step_event clk n Ev_RESOLVE ''resolve_step'' actor reason"

definition abort_step :: "(nat \<Rightarrow> datetime) \<Rightarrow> int \<Rightarrow> string \<Rightarrow> string \<Rightarrow> step io" where
  "abort_step clk n actor reason = apply_step_event clk n Ev_ABORT ''abort_step'' actor reason"

section \<open>Runs\<close>

lemma override_require_step_run [exec]:
  "override_require_step n w = (case lookup step_no n (db_steps (live w)) of
     None \<Rightarrow> (Inl OverrideStepNotFoundError, w) | Some s \<Rightarrow> (Inr s, w))"
  by (simp add: override_require_step_def get_step_def exec split: option.split)

lemma override_entry_facts [simp]:
  "mk_audit_entry (override_entry s to ev op actor reason now) = Inr (override_entry s to ev op actor reason now)"
  "records (override_entry s to ev op actor reason now) s ev (override_step s to now)"
  by (simp_all add: valid_entry_def records_def override_entry_def override_step_def Let_def)

lemma override_step_fields [simp]:
  "step_no (override_step s to now) = step_no s" "step_state (override_step s to now) = to"
  "step_attempt (override_step s to now) = step_attempt s" "same_plan s (override_step s to now)"
  "step_title (override_step s to now) = step_title s"
  "step_max_attempts (override_step s to now) = step_max_attempts s"
  by (simp_all add: override_step_def Let_def same_plan_def)

lemma override_cases:
  assumes run: "apply_step_event clk n ev op actor reason w = (res, w')"
    and ev: "ev \<in> {Ev_UNBLOCK, Ev_RESOLVE, Ev_ABORT}"
  obtains (failed) e where "res = Inl e" "channel_step pub rep {} w w'"
  | (changed) s u v now where "lookup step_no n (db_steps (live w)) = Some s"
      "\<not> is_blank actor" "\<not> is_blank reason" "res = Inr u" "channel_step pub rep {} w v"
      "human_change s ev u None (override_entry s (step_state u) ev op actor reason now)"
      "step_attempt u = step_attempt s"
      "w' = settle (v\<lparr>live := persisted u None (override_entry s (step_state u) ev op actor reason now) (live v)\<rparr>)"
proof -
  have refl: "channel_step pub rep {} w w" by (rule channelling.R_refl)
  let ?now = "clk (clock_reads w)" and ?w1 = "w\<lparr>clock_reads := clock_reads w + 1\<rparr>"
  have v: "channel_step pub rep {} w ?w1" by (rule clock_step)
  consider (guard) e where "res = Inl e" "w' = w"
    | (ready) s to where "override_context actor reason = Inr ()" "lookup step_no n (db_steps (live w)) = Some s"
        "step_next (step_state s) ev = Inr to"
    using run by (cases "override_context actor reason"; cases "lookup step_no n (db_steps (live w))";
        cases "step_next (step_state (the (lookup step_no n (db_steps (live w))))) ev")
      (auto simp: apply_step_event_def exec)
  then show thesis
  proof cases
    case guard
    with refl failed show thesis by blast
  next
    case (ready s to)
    let ?u = "override_step s to ?now" and ?e = "override_entry s to ev op actor reason ?now"
    show thesis
    proof (cases "mk_step ?u")
      case (Inl e)
      with run v ready show thesis by (intro failed[of e]) (auto simp: apply_step_event_def exec)
    next
      case (Inr u)
      then have u: "u = ?u" "valid_step ?u" by (auto simp: mk_step_iff)
      have "w' = settle (?w1\<lparr>live := persisted ?u None ?e (live w)\<rparr>)" "res = Inr ?u"
        using run ready Inr u by (auto simp: apply_step_event_def exec approval_persist)
      moreover have "human_change s ev ?u None ?e"
        using u ready ev by (auto simp: human_change_def attempt_moves_def)
      moreover have "\<not> is_blank actor" "\<not> is_blank reason"
        using ready(1) by (auto simp: override_context_def split: if_splits)
      ultimately show thesis using changed[OF ready(2) _ _ _ v, of ?u ?now] by simp
    qed
  qed
qed

section \<open>The three project commands share one shape\<close>

definition project_command ::
  "(project \<Rightarrow> bool) \<Rightarrow> (project \<Rightarrow> datetime \<Rightarrow> project) \<Rightarrow> audit_action \<Rightarrow> (project \<Rightarrow> mapping) \<Rightarrow>
    (nat \<Rightarrow> datetime) \<Rightarrow> string \<Rightarrow> string \<Rightarrow> project io" where
  "project_command idem update action detail clk actor reason =
     thenM (liftE (override_context actor reason))
     (bindM override_single_project (\<lambda>p.
      if idem p then raiseM OverrideNoChangeError
      else
        bindM (clockM clk) (\<lambda>now.
        bindM (liftE (mk_project (update p now))) (\<lambda>u.
        thenM (commit_project u action (detail p) now) (returnM u)))))"

lemma project_commands:
  "pause_project clk actor reason = project_command project_paused
     (\<lambda>p now. p\<lparr>project_paused := True, project_updated_at := now\<rparr>) Act_PAUSE
     (\<lambda>p. [(''operation'', JStr ''pause_project''), (''actor'', JStr actor), (''reason'', JStr reason),
        (''paused_before'', JBool False), (''paused_after'', JBool True),
        (''mode'', JStr (mode_value (project_mode p)))]) clk actor reason"
  "resume_project clk actor reason = project_command (\<lambda>p. \<not> project_paused p)
     (\<lambda>p now. p\<lparr>project_paused := False, project_updated_at := now\<rparr>) Act_RESUME
     (\<lambda>p. [(''operation'', JStr ''resume_project''), (''actor'', JStr actor), (''reason'', JStr reason),
        (''paused_before'', JBool True), (''paused_after'', JBool False),
        (''mode'', JStr (mode_value (project_mode p)))]) clk actor reason"
  "set_mode clk m actor reason = project_command (\<lambda>p. project_mode p = m)
     (\<lambda>p now. p\<lparr>project_mode := m, project_updated_at := now\<rparr>) Act_SET_MODE
     (\<lambda>p. [(''operation'', JStr ''set_mode''), (''actor'', JStr actor), (''reason'', JStr reason),
        (''mode_before'', JStr (mode_value (project_mode p))),
        (''mode_after'', JStr (mode_value m)), (''paused'', JBool (project_paused p))]) clk actor reason"
  by (simp_all add: pause_project_def resume_project_def set_mode_def project_command_def)

lemma override_single_project_run [exec]:
  "override_single_project w = (case db_projects (live w) of
     [] \<Rightarrow> (Inl OverrideProjectNotFoundError, w) | [p] \<Rightarrow> (Inr p, w) | _ \<Rightarrow> (Inl OverrideInvariantError, w))"
proof -
  let ?ps = "db_projects (live w)"
  have len: "length (sort_key project_name ?ps) = length ?ps" by simp
  show ?thesis
  proof (cases ?ps rule: remdups_adj.cases)
    case (3 p q ps)
    with len obtain a b cs where "sort_key project_name ?ps = a # b # cs"
      by (metis length_Cons Suc_length_conv)
    with 3 show ?thesis by (simp add: override_single_project_def list_projects_def exec)
  qed (simp_all add: override_single_project_def list_projects_def exec)
qed

definition project_entry :: "project \<Rightarrow> audit_action \<Rightarrow> mapping \<Rightarrow> datetime \<Rightarrow> audit_entry" where
  "project_entry p action detail now =
     \<lparr>entry_entity_type = Entity_PROJECT, entry_entity_id = project_name p, entry_action = action,
      entry_detail = detail, entry_created_at = now\<rparr>"

lemma commit_project_run [exec]:
  assumes "valid_project p"
  shows "commit_project p action detail now w =
    (Inr (), settle (w\<lparr>live := (live w)\<lparr>db_projects := put project_name p (db_projects (live w)),
       db_audit := db_audit (live w) @ [project_entry p action detail now]\<rparr>\<rparr>))"
proof -
  have "mk_audit_entry (project_entry p action detail now) = Inr (project_entry p action detail now)"
    using assms by (simp add: valid_entry_def project_entry_def valid_project_def)
  then show ?thesis
    by (cases "depth w = 0")
      (simp_all add: commit_project_def transactionM_def exec upsert_project_def append_audit_def
        settle_def project_entry_def)
qed

lemma project_command_cases:
  assumes run: "project_command idem update action detail clk actor reason w = (res, w')"
    and name: "\<And>p now. project_name (update p now) = project_name p"
  obtains (failed) e where "res = Inl e" "channel_step pub rep {} w w'"
  | (changed) p u v now where "db_projects (live w) = [p]" "\<not> idem p" "u = update p now"
      "\<not> is_blank actor" "\<not> is_blank reason" "res = Inr u" "channel_step pub rep {} w v"
      "w' = settle (v\<lparr>live := (live w)\<lparr>db_projects := [u],
         db_audit := db_audit (live w) @ [project_entry u action (detail p) now]\<rparr>\<rparr>)"
proof -
  have refl: "channel_step pub rep {} w w" by (rule channelling.R_refl)
  let ?now = "clk (clock_reads w)" and ?w1 = "w\<lparr>clock_reads := clock_reads w + 1\<rparr>"
  have v: "channel_step pub rep {} w ?w1" by (rule clock_step)
  consider (guard) e where "res = Inl e" "w' = w"
    | (ready) p where "override_context actor reason = Inr ()" "db_projects (live w) = [p]" "\<not> idem p"
    using run by (cases "override_context actor reason"; cases "db_projects (live w)" rule: remdups_adj.cases;
        cases "idem (hd (db_projects (live w)))")
      (auto simp: project_command_def exec)
  then show thesis
  proof cases
    case guard
    with refl failed show thesis by blast
  next
    case (ready p)
    show thesis
    proof (cases "mk_project (update p ?now)")
      case (Inl e)
      with run v ready show thesis by (intro failed[of e]) (auto simp: project_command_def exec)
    next
      case (Inr u)
      then have u: "u = update p ?now" "valid_project u" by (auto simp: mk_project_iff)
      have put: "put project_name u [p] = [u]" using u name by (simp add: put_def)
      have "w' = settle (?w1\<lparr>live := (live w)\<lparr>db_projects := [u],
          db_audit := db_audit (live w) @ [project_entry u action (detail p) ?now]\<rparr>\<rparr>)" "res = Inr u"
        using run ready Inr u put by (auto simp: project_command_def exec)
      moreover have "\<not> is_blank actor" "\<not> is_blank reason"
        using ready(1) by (auto simp: override_context_def split: if_splits)
      ultimately show thesis using changed[OF ready(2,3) u(1) _ _ _ v] by simp
    qed
  qed
qed

end
