(* ===== verification/System.thy ===== *)
theory System
  imports Composition Human_Override
begin

text \<open>
  The whole workflow as a transition system: the loop's ticks, the commands of humans, crashes at any
  situation an operation goes through, and whatever the worker and the developers do outside (writing
  reports, editing the source tree). Invariants are shown for every database change the operations are
  known to make and hold in all reachable worlds.
\<close>

section \<open>Operations\<close>

record system =
  sys_cline :: cline
  sys_adapter :: realization_adapter
  sys_canonical :: canonical_baseline
  sys_clock :: "nat \<Rightarrow> datetime"
  sys_timeout :: "int option"

definition sys_ports :: "system \<Rightarrow> ports" where
  "sys_ports S = composed_ports (sys_cline S) (sys_adapter S) (sys_canonical S) (sys_clock S) (sys_timeout S)"

definition sys_approval :: "system \<Rightarrow> approval_gate" where
  "sys_approval S = \<lparr>approval_dispatch = cline_dispatch (sys_cline S), approval_clock = sys_clock S,
     approval_instructions = DEFAULT_TASK_INSTRUCTIONS, approval_report_schema = DEFAULT_REPORT_SCHEMA\<rparr>"

datatype command =
    Pause_Project
  | Resume_Project
  | Set_Mode mode
  | Approve int
  | Reject int
  | Unblock int
  | Resolve int
  | Abort int

datatype operation = Tick | Command command string string

fun run_command :: "system \<Rightarrow> command \<Rightarrow> string \<Rightarrow> string \<Rightarrow> unit io" where
  "run_command S Pause_Project actor reason = forget (pause_project (sys_clock S) actor reason)"
| "run_command S Resume_Project actor reason = forget (resume_project (sys_clock S) actor reason)"
| "run_command S (Set_Mode m) actor reason = forget (set_mode (sys_clock S) m actor reason)"
| "run_command S (Approve n) actor reason = forget (approve (sys_approval S) n actor reason)"
| "run_command S (Reject n) actor reason = forget (reject (sys_approval S) n actor reason)"
| "run_command S (Unblock n) actor reason = forget (unblock_step (sys_clock S) n actor reason)"
| "run_command S (Resolve n) actor reason = forget (resolve_step (sys_clock S) n actor reason)"
| "run_command S (Abort n) actor reason = forget (abort_step (sys_clock S) n actor reason)"

fun perform :: "system \<Rightarrow> operation \<Rightarrow> unit io" where
  "perform S Tick = forget (run_once (sys_ports S))"
| "perform S (Command c actor reason) = run_command S c actor reason"

section \<open>Effects of every operation\<close>

text \<open>The audit entry of a human command names who did it and why.\<close>

definition signed :: "audit_entry \<Rightarrow> string \<Rightarrow> string \<Rightarrow> bool" where
  "signed e actor reason \<longleftrightarrow> map_of (entry_detail e) ''actor'' = Some (JStr actor) \<and>
     map_of (entry_detail e) ''reason'' = Some (JStr reason)"

text \<open>What a human command does: one signed change, or nothing but work on the channel.\<close>

definition commanded :: "string \<Rightarrow> string \<Rightarrow> exn + unit \<Rightarrow> world \<Rightarrow> world \<Rightarrow> bool" where
  "commanded actor reason res w w' \<longleftrightarrow>
     effects cline_published human_allowed w w' \<and>
     (case res of
        Inl e \<Rightarrow> live w' = live w
      | Inr _ \<Rightarrow> \<not> is_blank actor \<and> \<not> is_blank reason \<and>
          (\<exists>e. db_audit (live w') = db_audit (live w) @ [e] \<and> signed e actor reason) \<and>
          \<not> unchanged (live w) (live w'))"

lemma commanded_failed:
  "idle w \<Longrightarrow> channel_step cline_published cline_report {} w w' \<Longrightarrow> commanded actor reason (Inl e) w w'"
  using effects_quiet by (simp add: commanded_def) (simp add: channel_step_def)

lemma commanded_step:
  assumes "idle w" and "channel_step cline_published cline_report {} w v" and "ev \<in> insert Ev_ABORT human_events"
    and "lookup step_no n (db_steps (live w)) = Some s" and "human_change s ev u t e"
    and "step_state u = Step_DISPATCHED \<Longrightarrow> cline_published (disk v) (step_no u, step_attempt u)"
    and "signed e actor reason" and "\<not> is_blank actor" and "\<not> is_blank reason"
  shows "commanded actor reason (Inr ()) w (settle (v\<lparr>live := persisted u t e (live v)\<rparr>))"
  using human_commit[OF assms(1-6)] assms(2,7-9)
  by (auto simp: commanded_def channel_step_def settle_def step_changed_def unchanged_def)

lemma commanded_project:
  assumes idle: "idle w" and v: "channel_step cline_published cline_report {} w v"
    and p: "db_projects (live w) = [p]" "project_name u = project_name p"
    and sign: "signed e actor reason" "\<not> is_blank actor" "\<not> is_blank reason" and type: "entry_entity_type e = Entity_PROJECT"
  shows "commanded actor reason (Inr ()) w
    (settle (v\<lparr>live := (live w)\<lparr>db_projects := [u], db_audit := db_audit (live w) @ [e]\<rparr>\<rparr>))" (is "commanded _ _ _ _ ?x")
proof -
  have vs: "depth v = 0" "live v = live w"
    using idle v by (auto simp: channel_step_def idle_def)
  have "project_changed (live w) (live ?x)"
    using p type by (auto simp: project_changed_def settle_def)
  then have "effects cline_published human_allowed w ?x"
    using effects_commit[OF idle v, where x = ?x and w' = ?x and allowed = human_allowed and ks' = "{}"]
      vs channelling.R_refl
    by (auto simp: settle_def db_step_def tasks_out_def)
  then show ?thesis
    using sign by (auto simp: commanded_def settle_def unchanged_def)
qed

lemma project_entry_simps [simp]:
  "entry_entity_type (project_entry p a d t) = Entity_PROJECT" "entry_detail (project_entry p a d t) = d"
  by (simp_all add: project_entry_def)

lemma project_command_effects:
  assumes "idle w" and "forget (project_command idem update action detail clk actor reason) w = (r, w')"
    and "\<And>p now. project_name (update p now) = project_name p"
    and "\<And>p. map_of (detail p) ''actor'' = Some (JStr actor)" "\<And>p. map_of (detail p) ''reason'' = Some (JStr reason)"
  shows "commanded actor reason r w w'"
proof -
  obtain res where res: "project_command idem update action detail clk actor reason w = (res, w')"
    "r = (case res of Inl e \<Rightarrow> Inl e | Inr a \<Rightarrow> Inr ())"
    using forgetE[OF assms(2)] by metis
  show ?thesis
  proof (rule project_command_cases[OF res(1) assms(3)])
    fix e
    assume "res = Inl e" "channel_step cline_published cline_report {} w w'"
    then show ?thesis using commanded_failed[OF assms(1)] res(2) by simp
  next
    fix p u v now
    assume c: "db_projects (live w) = [p]" "u = update p now" "\<not> is_blank actor" "\<not> is_blank reason"
      "res = Inr u" "channel_step cline_published cline_report {} w v"
      "w' = settle (v\<lparr>live := (live w)\<lparr>db_projects := [u],
         db_audit := db_audit (live w) @ [project_entry u action (detail p) now]\<rparr>\<rparr>)"
    then show ?thesis
      using commanded_project[OF assms(1) c(6,1), of u "project_entry u action (detail p) now" actor reason]
        assms(3-5) res(2) by (simp add: signed_def)
  qed
qed

lemma step_command_effects:
  assumes "idle w" and "forget (apply_step_event clk n ev op actor reason) w = (r, w')"
    and ev: "ev \<in> {Ev_UNBLOCK, Ev_RESOLVE, Ev_ABORT}"
  shows "commanded actor reason r w w'"
proof -
  obtain res where res: "apply_step_event clk n ev op actor reason w = (res, w')"
    "r = (case res of Inl e \<Rightarrow> Inl e | Inr a \<Rightarrow> Inr ())"
    using forgetE[OF assms(2)] by metis
  show ?thesis
  proof (rule override_cases[OF res(1) ev])
    fix e
    assume "res = Inl e" "channel_step cline_published cline_report {} w w'"
    then show ?thesis using commanded_failed[OF assms(1)] res(2) by simp
  next
    fix s u :: step and v now
    let ?e = "override_entry s (step_state u) ev op actor reason now"
    assume c: "lookup step_no n (db_steps (live w)) = Some s" "\<not> is_blank actor" "\<not> is_blank reason"
      "res = Inr u" "channel_step cline_published cline_report {} w v" "human_change s ev u None ?e"
      "step_attempt u = step_attempt s" "w' = settle (v\<lparr>live := persisted u None ?e (live v)\<rparr>)"
    have "step_state u \<noteq> Step_DISPATCHED"
      using c(6) ev by (auto simp: human_change_def step_next_into)
    then show ?thesis
      using commanded_step[OF assms(1) c(5) _ c(1,6), of actor reason] c ev res(2)
      by (auto simp: signed_def override_entry_def human_events_def)
  qed
qed

lemma approve_effects:
  assumes "idle w" and "forget (approve (sys_approval S) n actor reason) w = (r, w')"
  shows "commanded actor reason r w w'"
proof -
  obtain res where res: "approve (sys_approval S) n actor reason w = (res, w')"
    "r = (case res of Inl e \<Rightarrow> Inl e | Inr a \<Rightarrow> Inr ())"
    using forgetE[OF assms(2)] by metis
  have d: "approval_dispatch (sys_approval S) = port_dispatch (sys_ports S)"
    by (simp add: sys_approval_def sys_ports_def)
  show ?thesis
  proof (rule composed.approve_cases[OF assms(1) res(1) d[unfolded sys_ports_def]])
    fix e
    assume "res = Inl e" "channel_step cline_published cline_report {} w w'"
    then show ?thesis using commanded_failed[OF assms(1)] res(2) by simp
  next
    fix s u :: step and v t now
    let ?e = "approval_entry s Step_DISPATCHED Ev_APPROVE ''approve_step'' actor reason (step_attempt u) now"
    assume c: "lookup step_no n (db_steps (live w)) = Some s" "\<not> is_blank actor" "\<not> is_blank reason"
      "res = Inr u" "channel_step cline_published cline_report {} w v" "human_change s Ev_APPROVE u (Some t) ?e"
      "step_state u = Step_DISPATCHED" "cline_published (disk v) (step_no u, step_attempt u)"
      "w' = settle (v\<lparr>live := persisted u (Some t) ?e (live v)\<rparr>)"
    then show ?thesis
      using commanded_step[OF assms(1) c(5) _ c(1,6), of actor reason] res(2)
      by (auto simp: signed_def approval_entry_def human_events_def)
  qed
qed

lemma reject_effects:
  assumes "idle w" and "forget (reject G n actor reason) w = (r, w')"
  shows "commanded actor reason r w w'"
proof -
  obtain res where res: "reject G n actor reason w = (res, w')"
    "r = (case res of Inl e \<Rightarrow> Inl e | Inr a \<Rightarrow> Inr ())"
    using forgetE[OF assms(2)] by metis
  show ?thesis
  proof (rule reject_cases[OF assms(1) res(1)])
    fix e
    assume "res = Inl e" "channel_step cline_published cline_report {} w w'"
    then show ?thesis using commanded_failed[OF assms(1)] res(2) by simp
  next
    fix s u :: step and v now
    let ?e = "approval_entry s Step_READY Ev_REJECT ''reject_step'' actor reason (step_attempt u) now"
    assume c: "lookup step_no n (db_steps (live w)) = Some s" "\<not> is_blank actor" "\<not> is_blank reason"
      "res = Inr u" "channel_step cline_published cline_report {} w v" "human_change s Ev_REJECT u None ?e"
      "step_state u = Step_READY" "w' = settle (v\<lparr>live := persisted u None ?e (live v)\<rparr>)"
    then show ?thesis
      using commanded_step[OF assms(1) c(5) _ c(1,6), of actor reason] res(2)
      by (auto simp: signed_def approval_entry_def human_events_def)
  qed
qed

lemma run_command_effects:
  assumes "idle w" and "run_command S c actor reason w = (r, w')"
  shows "commanded actor reason r w w'"
  using assms
  by (cases c)
    (auto simp: project_commands unblock_step_def resolve_step_def abort_step_def
      intro: project_command_effects step_command_effects approve_effects reject_effects)

definition any_allowed :: "db \<Rightarrow> step \<Rightarrow> step_event \<Rightarrow> bool" where
  "any_allowed d s ev \<longleftrightarrow> loop_allowed d s ev \<or> human_allowed d s ev"

lemma effects_mono:
  "effects pub allowed w w' \<Longrightarrow> (\<And>d s ev. allowed d s ev \<Longrightarrow> allowed' d s ev) \<Longrightarrow> effects pub allowed' w w'"
  unfolding effects_def db_step_def by blast

lemma perform_effects:
  assumes "idle w" and "perform S op w = (r, w')"
  shows "effects cline_published any_allowed w w'"
proof (cases op)
  case Tick
  with assms(2) obtain res where "run_once (sys_ports S) w = (res, w')"
    by (auto elim: forgetE)
  then have "effects cline_published loop_allowed w w'"
    using composed.run_once_effects[OF assms(1)] by (simp add: sys_ports_def)
  then show ?thesis by (rule effects_mono) (simp add: any_allowed_def)
next
  case (Command c actor reason)
  with assms have "effects cline_published human_allowed w w'"
    using run_command_effects by (auto simp: commanded_def)
  then show ?thesis by (rule effects_mono) (simp add: any_allowed_def)
qed

section \<open>Reachable worlds\<close>

text \<open>The world a restarted process finds: what was committed and what is on disk.\<close>

definition restart :: "db \<Rightarrow> channel \<Rightarrow> world \<Rightarrow> world" where
  "restart d ch w = w\<lparr>live := d, durable := d, depth := 0, disk := ch\<rparr>"

text \<open>
  Outside the process nobody touches the database, the task files or the context files; reports, the
  archive, write permissions and the source tree may change in any way.
\<close>

inductive reach :: "system \<Rightarrow> world \<Rightarrow> world \<Rightarrow> bool" for S w0 where
  start: "reach S w0 w0"
| operate: "reach S w0 w \<Longrightarrow> perform S op w = (r, w') \<Longrightarrow> reach S w0 w'"
| crash: "reach S w0 w \<Longrightarrow> perform S op w = (r, w') \<Longrightarrow>
    (d, ch) \<in> set (drop (length (trail w)) (trail w')) \<Longrightarrow> reach S w0 (restart d ch w')"
| outside: "reach S w0 w \<Longrightarrow> to_cline ch = to_cline (disk w) \<Longrightarrow> contexts ch = contexts (disk w) \<Longrightarrow>
    reach S w0 (w\<lparr>disk := ch, tree := t\<rparr>)"

lemma restart_simps [simp]:
  "live (restart d ch w) = d" "disk (restart d ch w) = ch" "idle (restart d ch w)"
  by (simp_all add: restart_def idle_def)

lemma reach_idle: "reach S w0 w \<Longrightarrow> idle w0 \<Longrightarrow> idle w"
proof (induction rule: reach.induct)
  case (operate w op r w')
  then show ?case using perform_effects by (auto simp: effects_def)
next
  case (outside w ch t)
  then show ?case by (simp add: idle_def)
qed simp_all

text \<open>An invariant of every database change holds in every reachable world, crashes included.\<close>

lemma reach_invariant:
  assumes "reach S w0 w" and idle: "idle w0" and "I (live w0)"
    and step: "\<And>d d'. I d \<Longrightarrow> db_step any_allowed d d' \<Longrightarrow> I d'"
  shows "I (live w)"
  using assms(1,3)
proof (induction rule: reach.induct)
  case (operate w op r w')
  then have "effects cline_published any_allowed w w'"
    using reach_idle[OF _ idle] perform_effects by blast
  then show ?case using operate step by (auto simp: effects_def)
next
  case (crash w op r w' d ch)
  then have "effects cline_published any_allowed w w'"
    using reach_idle[OF _ idle] perform_effects by blast
  with crash step show ?case by (fastforce simp: effects_def)
qed auto

lemma effects_situation:
  assumes "effects pub allowed w w'"
  shows "tasks_out pub (live w) (disk w) \<Longrightarrow> tasks_out pub (live w') (disk w')"
    and "tasks_out pub (live w) (disk w) \<Longrightarrow> (d, ch) \<in> set (drop (length (trail w)) (trail w')) \<Longrightarrow> tasks_out pub d ch"
  using assms by (fastforce simp: effects_def)+

lemma reach_tasks_out:
  assumes "reach S w0 w" and idle: "idle w0" and "tasks_out cline_published (live w0) (disk w0)"
  shows "tasks_out cline_published (live w) (disk w)"
  using assms(1,3)
proof (induction rule: reach.induct)
  case (operate w op r w')
  then show ?case using effects_situation(1)[OF perform_effects] reach_idle[OF _ idle] by blast
next
  case (crash w op r w' d ch)
  then have "effects cline_published any_allowed w w'"
    using reach_idle[OF _ idle] perform_effects by blast
  from effects_situation(2)[OF this _ crash.hyps(3)] show ?case using crash by simp
next
  case (outside w ch t)
  then show ?case by (auto simp: tasks_out_def cline_published_def)
qed auto

section \<open>Invariants of the database\<close>

definition keyed :: "db \<Rightarrow> bool" where
  "keyed d \<longleftrightarrow> distinct (map step_no (db_steps d))"

lemma step_changedD:
  assumes "step_changed s ev u d d'"
  shows "s \<in> set (db_steps d)" "valid_step u" "same_plan s u" "attempt_moves s ev u"
    "step_next (step_state s) ev = Inr (step_state u)" "step_no u = step_no s"
    "set (db_steps d') = insert u {t \<in> set (db_steps d). step_no t \<noteq> step_no s}"
    "keyed d \<Longrightarrow> keyed d'" "keyed d \<Longrightarrow> map step_no (db_steps d') = map step_no (db_steps d)"
proof -
  show *: "step_no u = step_no s" "s \<in> set (db_steps d)"
    using assms by (auto simp: step_changed_def same_plan_def)
  show "keyed d \<Longrightarrow> keyed d'" using assms by (simp add: step_changed_def keyed_def put_distinct)
  have "map step_no (put step_no u (db_steps d)) = map step_no (db_steps d)"
    using * by (auto simp: put_def image_iff)
  then show "keyed d \<Longrightarrow> map step_no (db_steps d') = map step_no (db_steps d)"
    using assms by (simp add: step_changed_def)
qed (use assms in \<open>auto simp: step_changed_def set_put same_plan_def\<close>)

text \<open>To keep a property of the Steps it is enough to look at the Step that moved.\<close>

lemma step_invariant:
  assumes "db_step any_allowed d d'" and "\<forall>s\<in>set (db_steps d). Q s"
    and "\<And>s ev u. s \<in> set (db_steps d) \<Longrightarrow> Q s \<Longrightarrow> step_changed s ev u d d' \<Longrightarrow> any_allowed d s ev \<Longrightarrow> Q u"
  shows "\<forall>s\<in>set (db_steps d'). Q s"
proof -
  consider "unchanged d d' \<or> project_changed d d'" | s ev u where "step_changed s ev u d d'" "any_allowed d s ev"
    using assms(1) by (auto simp: db_step_def)
  then show ?thesis
  proof cases
    case 1
    then have "db_steps d' = db_steps d" by (auto simp: unchanged_def project_changed_def)
    with assms(2) show ?thesis by simp
  next
    case (2 s ev u)
    note c = step_changedD[OF 2(1)]
    with assms(2) assms(3)[OF c(1) _ 2] show ?thesis by auto
  qed
qed

lemma keyed_step: "keyed d \<Longrightarrow> db_step any_allowed d d' \<Longrightarrow> keyed d'"
  by (auto simp: db_step_def dest: step_changedD(8)) (auto simp: keyed_def unchanged_def project_changed_def)

section \<open>A sample system\<close>

definition sample_system :: system where
  "sample_system = \<lparr>sys_cline = sample_cline, sys_adapter = sample_adapter, sys_canonical = current_canonical,
     sys_clock = (\<lambda>n. int n), sys_timeout = DEFAULT_STEP_TIMEOUT\<rparr>"

definition sample_world :: "step list \<Rightarrow> channel \<Rightarrow> world" where
  "sample_world ss ch = world_with ((sample_db ss)\<lparr>db_versions := [sample_version]\<rparr>) ch []"

lemma idle_sample_world [simp]: "idle (sample_world ss ch)"
  by (simp add: sample_world_def)

text \<open>A channel in which the worker has reported attempt 1 of Step 1 as done.\<close>

definition reported_channel :: channel where
  "reported_channel = empty_channel\<lparr>from_cline := [report_file_name 1 1 \<mapsto> done_report 1 1]\<rparr>"

lemma reach_perform: "reach S w0 (snd (perform S op w0))"
  by (rule reach.operate[OF reach.start, where op = op and r = "fst (perform S op w0)"]) simp

lemma sample_world_live [simp]:
  "db_steps (live (sample_world ss ch)) = ss" "db_audit (live (sample_world ss ch)) = []"
  "disk (sample_world ss ch) = ch"
  by (simp_all add: sample_world_def world_with_def sample_db_def empty_db_def)

lemma sample_projects [simp]:
  "map project_name (db_projects (live (sample_world ss ch))) = [''demo'']"
  by (simp add: sample_world_def world_with_def sample_db_def sample_project_def)

abbreviation states_of :: "world \<Rightarrow> (int \<times> step_state) list" where
  "states_of w \<equiv> map (\<lambda>s. (step_no s, step_state s)) (db_steps (live w))"

lemma states_of_member:
  assumes "states_of w = xs" and "(n, st) \<in> set xs"
  obtains s where "s \<in> set (db_steps (live w))" "step_no s = n" "step_state s = st"
  using assms by (metis (mono_tags, lifting) imageE list.set_map prod.inject)

text \<open>One tick of the sample system from \<open>PENDING\<close>, \<open>READY\<close> and \<open>REVIEWING\<close>.\<close>

definition after_prepare :: world where
  "after_prepare = snd (perform sample_system Tick (sample_world [sample_step 1 Step_PENDING 0] empty_channel))"

definition after_dispatch :: world where
  "after_dispatch = snd (perform sample_system Tick
     (sample_world [sample_step 1 Step_VERIFIED 1, sample_step 2 Step_READY 1] empty_channel))"

lemma after_prepare_states: "states_of after_prepare = [(1, Step_READY)]"
  by code_simp

lemma after_dispatch_states: "states_of after_dispatch = [(1, Step_VERIFIED), (2, Step_DISPATCHED)]"
  by code_simp

end
