(* ===== verification/Workflow.thy ===== *)
theory Workflow
  imports System
begin

text \<open>
  What single operations of the composed workflow do: a tick follows the plan and changes at most one
  Step, a Step is verified only by a compliant gate on a clean report, human commands are signed and
  cannot verify anything, and the scheduler stops by itself.
\<close>

section \<open>Ticks\<close>

text \<open>
  C1: The orchestrator implements the plan: from a connection at rest, \<open>run_once\<close> on the Cline channel and
  the realization gate answers and acts exactly as the pure function \<open>plan\<close> says for the current Step, the
  project and what the tick observes (report, deadline, verdict): an answer without a transition leaves the
  database alone, and a transition is committed after the channel work it needs, in one situation, before
  a reviewed report is acknowledged.
\<close>

theorem run_once_implements_plan:
  assumes "idle w" and "run_once (sys_ports S) w = (res, w')"
  shows "runs (sys_ports S) cline_published cline_report w res w'"
  using composed.run_once_runs[OF assms(1)] assms(2) by (simp add: sys_ports_def)

theorem run_once_implements_plan_witness:
  "\<exists>res w'. runs (sys_ports sample_system) cline_published cline_report
     (sample_world [sample_step 1 Step_READY 1] empty_channel) res w'"
  using run_once_implements_plan[OF idle_sample_world] by (metis surj_pair)

text \<open>
  C5: A tick performs at most one transition: either it reports \<open>TRANSITIONED\<close>, then exactly the current
  Step (the lowest that is not \<open>VERIFIED\<close>) made one step of the Step machine and exactly one audit entry
  recording it was added; or it reports anything else or raises, then Steps, project and audit trail are as before.
\<close>

theorem tick_at_most_one_transition:
  assumes "idle w" and "run_once (sys_ports S) w = (res, w')"
  shows "idle w' \<and>
    (case res of
       Inr t \<Rightarrow>
         if tick_status t = Loop_TRANSITIONED then
           \<exists>s ev u. current_of (db_steps (live w)) = Some s \<and> tick_step_no t = Some (step_no s) \<and>
             tick_event t = Some ev \<and> tick_to t = Some (step_state u) \<and> step_changed s ev u (live w) (live w')
         else live w' = live w
     | Inl e \<Rightarrow> live w' = live w)"
proof -
  note run = assms(2)[unfolded sys_ports_def]
  have "idle w'" using composed.run_once_effects[OF assms(1) run] by (simp add: effects_def)
  show ?thesis
  proof (rule composed.run_once_cases[OF assms(1) run])
    assume "still cline_published cline_report w w'" "\<nexists>t. res = Inr t \<and> tick_status t = Loop_TRANSITIONED"
    with \<open>idle w'\<close> show ?thesis by (auto simp: still_def channel_step_def split: sum.splits)
  next
    fix p s ev reason u r late compliant t
    assume t: "current_of (db_steps (live w)) = Some s" "plan p s r late compliant = Fire ev reason"
      "res = Inr t" "tick_status t = Loop_TRANSITIONED" "tick_step_no t = Some (step_no s)"
      "tick_event t = Some ev" "tick_to t = Some (step_state u)"
      "move_step cline_published cline_report s ev reason u w w'"
    then show ?thesis
      using composed.moved_effects(2)[OF assms(1) t(1,2,8)] \<open>idle w'\<close> by auto
  qed
qed

theorem tick_at_most_one_transition_witness:
  "\<exists>res w'. run_once (sys_ports sample_system) (sample_world [sample_step 1 Step_READY 1] empty_channel) = (res, w') \<and> idle w'"
  using tick_at_most_one_transition[OF idle_sample_world] by (metis surj_pair)

text \<open>
  C2: \<open>VERIFIED\<close> is reached only through the gate: if a tick verifies a Step, that Step was the current one
  and under review, its report in the inbox is a \<open>DONE\<close> report without issues and architecture questions,
  the source tree as it is now is accepted by the validator under the canonical baseline, and the database
  holds that baseline as its only current version.
\<close>

theorem verified_only_through_gate:
  assumes "idle w" and "run_once (sys_ports S) w = (res, w')"
    and "u \<in> set (db_steps (live w'))" and "u \<notin> set (db_steps (live w))" and "step_state u = Step_VERIFIED"
  shows "\<exists>s r src v. current_of (db_steps (live w)) = Some s \<and> step_no s = step_no u \<and>
    step_state s = Step_REVIEWING \<and>
    cline_report (disk w) (step_no s, step_attempt s) = Inr (Some r) \<and> clean_report r \<and>
    scan_directory (tree w) ROOT_PACKAGE = Inr src \<and>
    is_compliant (validate_source (adapter_baseline (sys_adapter S)) src) \<and>
    baseline_version (adapter_baseline (sys_adapter S)) = canonical_version (sys_canonical S) \<and>
    filter av_is_current (db_versions (live w)) = [v] \<and> av_version v = canonical_version (sys_canonical S)"
proof -
  note run = assms(2)[unfolded sys_ports_def]
  show ?thesis
  proof (rule composed.run_once_cases[OF assms(1) run])
    assume "still cline_published cline_report w w'"
    with assms(3,4) show ?thesis by (simp add: still_def channel_step_def)
  next
    fix p s ev reason u' r late compliant t
    assume t: "current_of (db_steps (live w)) = Some s" "plan p s r late compliant = Fire ev reason"
      "observed (composed_ports (sys_cline S) (sys_adapter S) (sys_canonical S) (sys_clock S) (sys_timeout S))
         cline_report s w r late compliant"
      "move_step cline_published cline_report s ev reason u' w w'"
    note changed = composed.moved_effects(2)[OF assms(1) t(1,2,4)]
    then have u: "u = u'" "step_no u = step_no s" "step_next (step_state s) ev = Inr (step_state u)"
      using assms(3,4) by (auto simp: step_changed_def set_put same_plan_def)
    then have "ev = Ev_VERIFY" using assms(5) by (simp add: step_next_into)
    with plan_fires(4)[OF t(2)] obtain x where x: "step_state s = Step_REVIEWING" compliant "r = Some x" "clean_report x"
      by auto
    with t(3) obtain g y y' where g: "cline_report (disk w) (step_no s, step_attempt s) = Inr (Some x)"
      "realization_gate (adapter_check (sys_adapter S)) (sys_canonical S) (step_no s) (step_attempt s) y = (Inr g, y')"
      "gate_compliant g" "live y = live w" "tree y = tree w"
      by (auto simp: observed_def)
    obtain v where "filter av_is_current (db_versions (live w)) = [v]" "av_version v = canonical_version (sys_canonical S)"
      using gate_closed[of y "sys_canonical S"] g(2,4) by (metis Inl_Inr_False prod.inject)
    with gate_verdict[OF g(2)] g t(1) x u(2) show ?thesis by auto
  qed
qed

theorem verified_only_through_gate_witness:
  "\<exists>r. cline_report reported_channel (1, 1) = Inr (Some r) \<and> clean_report r"
proof -
  let ?w = "sample_world [sample_step 1 Step_REVIEWING 1] reported_channel"
  have "map (\<lambda>s. (step_no s, step_state s)) (db_steps (live (snd (run_once (sys_ports sample_system) ?w)))) = [(1, Step_VERIFIED)]"
    by code_simp
  then obtain u where u: "u \<in> set (db_steps (live (snd (run_once (sys_ports sample_system) ?w))))"
    "step_no u = 1" "step_state u = Step_VERIFIED"
    by (rule states_of_member) auto
  have "u \<notin> set (db_steps (live ?w))" using u(3) by auto
  then obtain s r where "current_of [sample_step 1 Step_REVIEWING 1] = Some s" "clean_report r"
    "cline_report reported_channel (step_no s, step_attempt s) = Inr (Some r)"
    using verified_only_through_gate[OF idle_sample_world prod.collapse[symmetric] u(1) _ u(3)]
    by auto
  moreover have "current_of [sample_step 1 Step_REVIEWING 1] = Some (sample_step 1 Step_REVIEWING 1)"
    by (simp add: current_of_def)
  ultimately show ?thesis by auto
qed

section \<open>Human commands\<close>

text \<open>
  C10: Human commands are signed and atomic: a command that succeeds had an actor and a reason, added exactly
  one audit entry naming both, and changed something; one that raises left the database as it was; and no
  command verifies a Step.
\<close>

theorem human_commands_signed:
  assumes "idle w" and "run_command S c actor reason w = (res, w')"
  shows "idle w' \<and>
    (case res of
       Inl e \<Rightarrow> live w' = live w
     | Inr _ \<Rightarrow> \<not> is_blank actor \<and> \<not> is_blank reason \<and> \<not> unchanged (live w) (live w') \<and>
         (\<exists>e. db_audit (live w') = db_audit (live w) @ [e] \<and> signed e actor reason)) \<and>
    (\<forall>u\<in>set (db_steps (live w')). step_state u = Step_VERIFIED \<longrightarrow> u \<in> set (db_steps (live w)))"
proof -
  have c: "commanded actor reason res w w'" using run_command_effects assms by blast
  then have eff: "effects cline_published human_allowed w w'" by (simp add: commanded_def)
  have "u \<in> set (db_steps (live w))"
    if "u \<in> set (db_steps (live w'))" "step_state u = Step_VERIFIED" for u
  proof (rule ccontr)
    assume new: "u \<notin> set (db_steps (live w))"
    have "db_step human_allowed (live w) (live w')" using eff by (simp add: effects_def)
    with new that(1) obtain s ev u' where s: "step_changed s ev u' (live w) (live w')" "human_allowed (live w) s ev"
      by (auto simp: db_step_def unchanged_def project_changed_def)
    with new that(1) have "u = u'" by (auto simp: step_changed_def set_put)
    with s that(2) show False
      by (auto simp: step_changed_def step_next_into human_allowed_def human_events_def)
  qed
  with c eff show ?thesis by (auto simp: commanded_def effects_def split: sum.splits)
qed

theorem human_commands_signed_witness:
  "\<exists>w' e. run_command sample_system (Abort 1) ''ann'' ''obsolete'' (sample_world [sample_step 1 Step_BLOCKED 1] empty_channel)
     = (Inr (), w') \<and> db_audit (live w') = [e] \<and> signed e ''ann'' ''obsolete''"
proof -
  let ?run = "run_command sample_system (Abort 1) ''ann'' ''obsolete'' (sample_world [sample_step 1 Step_BLOCKED 1] empty_channel)"
  have "fst ?run = Inr ()" by code_simp
  then obtain w' where w': "?run = (Inr (), w')" by (metis prod.collapse)
  with human_commands_signed[OF idle_sample_world w'] show ?thesis by auto
qed

section \<open>The scheduler\<close>

text \<open>
  C9: The scheduler stops by itself: if the bound exceeds the remaining work of the plan, the run is the
  same for every larger bound, and if it returns, it has not hit the bound, all ticks but the last are
  transitions, the last is not, every transition has its audit entry, and their number is at most the work.
\<close>

theorem scheduler_stops:
  assumes "idle w" and "distinct (map step_no (db_steps (live w)))" and "work (live w) < n" and "n \<le> m"
  shows "run_until_idle (sys_ports S) m w = run_until_idle (sys_ports S) n w \<and>
    (\<forall>r w'. run_until_idle (sys_ports S) n w = (Inr r, w') \<longrightarrow>
       \<not> limit_reached r \<and> run_ticks r \<noteq> [] \<and>
       list_all transitioned (butlast (run_ticks r)) \<and> \<not> transitioned (last (run_ticks r)) \<and>
       transition_count r \<le> work (live w) \<and>
       length (db_audit (live w')) = length (db_audit (live w)) + transition_count r)"
proof (intro conjI allI impI)
  show "run_until_idle (sys_ports S) m w = run_until_idle (sys_ports S) n w"
    unfolding run_until_idle_def sys_ports_def
    using assms by (intro composed.chain_bound_irrelevant) auto
next
  fix r w'
  assume "run_until_idle (sys_ports S) n w = (Inr r, w')"
  then obtain new where new: "run_ticks r = new" "length (filter transitioned new) \<le> work (live w)"
    "length (db_audit (live w')) = length (db_audit (live w)) + length (filter transitioned new)"
    "if limit_reached r then list_all transitioned new \<and> length new = n
     else new \<noteq> [] \<and> list_all transitioned (butlast new) \<and> \<not> transitioned (last new)"
    using composed.chain_run[OF assms(1,2)] unfolding run_until_idle_def sys_ports_def by fastforce
  have open_end: "\<not> limit_reached r"
  proof
    assume "limit_reached r"
    with new(4) have "filter transitioned new = new" "length new = n" by (auto simp: filter_id_conv list_all_iff)
    with new(2) assms(3) show False by simp
  qed
  with new show "\<not> limit_reached r" "run_ticks r \<noteq> []" "list_all transitioned (butlast (run_ticks r))"
    "\<not> transitioned (last (run_ticks r))" "transition_count r \<le> work (live w)"
    "length (db_audit (live w')) = length (db_audit (live w)) + transition_count r"
    by (auto simp: transition_count_def run_transitions_def)
qed

theorem scheduler_stops_witness:
  "run_until_idle (sys_ports sample_system) 1000 (sample_world [sample_step 1 Step_PENDING 0] reported_channel)
     = run_until_idle (sys_ports sample_system) DEFAULT_MAX_ITERATIONS (sample_world [sample_step 1 Step_PENDING 0] reported_channel)"
  using scheduler_stops[OF idle_sample_world, of "[sample_step 1 Step_PENDING 0]" reported_channel 64 1000 sample_system]
  by (simp add: work_def step_work_def DEFAULT_MAX_ITERATIONS_def)

end
