(* ===== verification/Invariants.thy ===== *)
theory Invariants
  imports System
begin

text \<open>
  What holds in every reachable world of the workflow, whatever humans do, wherever the process crashes
  and whatever the worker writes: published dispatches, permanent outcomes, the plan's order, the bounds
  of attempts, and an audit trail that replays through the Step machine to the state of every Step.
\<close>

section \<open>Publication and outcomes\<close>

text \<open>
  C3: A recorded dispatch is a published one: in every reachable world, also after a crash at any point of
  any operation, each Step the database records as \<open>DISPATCHED\<close> has the task file of its attempt in the
  worker's channel, if this was so at the start.
\<close>

theorem dispatch_implies_published:
  assumes "reach S w0 w" and "idle w0"
    and "\<forall>s\<in>set (db_steps (live w0)). step_state s = Step_DISPATCHED \<longrightarrow>
      to_cline (disk w0) (task_file (step_no s) (step_attempt s)) \<noteq> None"
  shows "\<forall>s\<in>set (db_steps (durable w)). step_state s = Step_DISPATCHED \<longrightarrow>
    to_cline (disk w) (task_file (step_no s) (step_attempt s)) \<noteq> None"
  using reach_tasks_out[OF assms(1,2)] reach_idle[OF assms(1,2)] assms(3)
  by (simp add: tasks_out_def cline_published_def idle_def)

theorem dispatch_implies_published_witness:
  "\<exists>s\<in>set (db_steps (durable after_dispatch)). step_state s = Step_DISPATCHED \<and>
     to_cline (disk after_dispatch) (task_file (step_no s) (step_attempt s)) \<noteq> None"
proof -
  let ?w0 = "sample_world [sample_step 1 Step_VERIFIED 1, sample_step 2 Step_READY 1] empty_channel"
  have r: "reach sample_system ?w0 after_dispatch" unfolding after_dispatch_def by (rule reach_perform)
  then have "durable after_dispatch = live after_dispatch"
    using reach_idle by (metis idle_def idle_sample_world)
  moreover obtain s where "s \<in> set (db_steps (live after_dispatch))" "step_state s = Step_DISPATCHED"
    by (rule states_of_member[OF after_dispatch_states, of 2 Step_DISPATCHED]) simp_all
  ultimately show ?thesis using dispatch_implies_published[OF r] by auto
qed

lemma allowed_not_verified:
  "step_changed s ev u d d' \<Longrightarrow> step_state s \<noteq> Step_VERIFIED \<and> step_state s \<noteq> Step_ABORTED"
  by (auto simp: step_changed_def step_next_iff STEP_TRANSITIONS_def)

lemma finished_step:
  assumes "keyed d \<and> t \<in> set (db_steps d)" and "step_state t \<in> {Step_VERIFIED, Step_ABORTED}"
    and "db_step any_allowed d d'"
  shows "keyed d' \<and> t \<in> set (db_steps d')"
proof -
  have "t \<in> set (db_steps d')"
  proof (cases "unchanged d d' \<or> project_changed d d'")
    case True
    with assms(1) show ?thesis by (auto simp: unchanged_def project_changed_def)
  next
    case False
    then obtain s ev u where c: "step_changed s ev u d d'" using assms(3) by (auto simp: db_step_def)
    have "step_no t \<noteq> step_no s"
      using step_changedD(1)[OF c] allowed_not_verified[OF c] assms(1,2)
      by (auto simp: keyed_def distinct_map inj_on_def)
    with step_changedD(7)[OF c] assms(1) show ?thesis by simp
  qed
  with keyed_step assms(1,3) show ?thesis by blast
qed

text \<open>
  C6: Outcomes are permanent: a Step that is \<open>VERIFIED\<close> or \<open>ABORTED\<close> in one world is in the database,
  unchanged in every field, in all worlds reachable from there; no command, tick, crash or worker undoes it.
\<close>

theorem outcomes_permanent:
  assumes "reach S w0 w" and "idle w0" and "distinct (map step_no (db_steps (live w0)))"
    and "t \<in> set (db_steps (live w0))" and "step_state t \<in> {Step_VERIFIED, Step_ABORTED}"
  shows "t \<in> set (db_steps (live w))"
proof -
  have "keyed (live w) \<and> t \<in> set (db_steps (live w))"
  proof (rule reach_invariant[OF assms(1,2), where I = "\<lambda>d. keyed d \<and> t \<in> set (db_steps d)"])
    show "keyed (live w0) \<and> t \<in> set (db_steps (live w0))" using assms(3,4) by (simp add: keyed_def)
  qed (rule finished_step[OF _ assms(5)])
  then show ?thesis by simp
qed

theorem outcomes_permanent_witness: "sample_step 1 Step_VERIFIED 1 \<in> set (db_steps (live after_dispatch))"
  unfolding after_dispatch_def by (rule outcomes_permanent[OF reach_perform]) simp_all

section \<open>The order of the plan\<close>

definition in_order :: "db \<Rightarrow> bool" where
  "in_order d \<longleftrightarrow> (\<forall>s\<in>set (db_steps d). \<forall>t\<in>set (db_steps d).
     step_no s < step_no t \<and> step_state t \<noteq> Step_PENDING \<longrightarrow> step_state s = Step_VERIFIED)"

lemma lower_verified:
  assumes "in_order d" and "step_changed s ev u d d'" and "any_allowed d s ev"
    and "t \<in> set (db_steps d)" and "step_no t < step_no s"
  shows "step_state t = Step_VERIFIED"
  using assms(3) unfolding any_allowed_def
proof
  assume "loop_allowed d s ev"
  then have "current_of (db_steps d) = Some s" by (simp add: loop_allowed_def)
  then show ?thesis using assms(4,5) by (rule current_of_Some(3))
next
  assume "human_allowed d s ev"
  then have "step_state s \<noteq> Step_PENDING"
    using assms(2) by (auto simp: human_allowed_def human_events_def step_changed_def step_next_iff STEP_TRANSITIONS_def)
  then show ?thesis using assms(1,4,5) step_changedD(1)[OF assms(2)] by (auto simp: in_order_def)
qed

lemma in_order_step:
  assumes "keyed d \<and> in_order d" and "db_step any_allowed d d'"
  shows "keyed d' \<and> in_order d'"
proof -
  have "in_order d'"
  proof (cases "unchanged d d' \<or> project_changed d d'")
    case True
    then have "db_steps d' = db_steps d" by (auto simp: unchanged_def project_changed_def)
    with assms(1) show ?thesis by (simp add: in_order_def)
  next
    case False
    then obtain s ev u where c: "step_changed s ev u d d'" "any_allowed d s ev"
      using assms(2) by (auto simp: db_step_def)
    note d = step_changedD[OF c(1)]
    have "step_state s \<noteq> Step_VERIFIED" using allowed_not_verified[OF c(1)] by simp
    then have above: "step_state t = Step_PENDING" if "t \<in> set (db_steps d)" "step_no s < step_no t" for t
      using that assms(1) d(1) by (auto simp: in_order_def)
    show ?thesis
      unfolding in_order_def
    proof (intro ballI impI)
      fix a b
      assume ab: "a \<in> set (db_steps d')" "b \<in> set (db_steps d')"
        "step_no a < step_no b \<and> step_state b \<noteq> Step_PENDING"
      consider "a = u" "b \<in> set (db_steps d)" | "b = u" "a \<in> set (db_steps d)"
        | "a \<in> set (db_steps d)" "b \<in> set (db_steps d)"
        using ab d(7) by auto
      then show "step_state a = Step_VERIFIED"
      proof cases
        case 1
        with above[of b] ab(3) d(6) show ?thesis by simp
      next
        case 2
        with lower_verified[OF _ c, of a] assms(1) ab(3) d(6) show ?thesis by simp
      next
        case 3
        with assms(1) ab(3) show ?thesis by (simp add: in_order_def) blast
      qed
    qed
  qed
  with keyed_step assms show ?thesis by blast
qed

text \<open>
  C7: The plan is worked in order: in every reachable world each Step below one that has left \<open>PENDING\<close> is
  \<open>VERIFIED\<close>, so at most one Step is in work and a later Step never starts before the earlier ones are done.
\<close>

theorem plan_in_order:
  assumes "reach S w0 w" and "idle w0" and "distinct (map step_no (db_steps (live w0)))"
    and "in_order (live w0)" and "s \<in> set (db_steps (live w))" and "t \<in> set (db_steps (live w))"
    and "step_no s < step_no t" and "step_state t \<noteq> Step_PENDING"
  shows "step_state s = Step_VERIFIED"
proof -
  have "keyed (live w) \<and> in_order (live w)"
  proof (rule reach_invariant[OF assms(1,2), where I = "\<lambda>d. keyed d \<and> in_order d"])
    show "keyed (live w0) \<and> in_order (live w0)" using assms(3,4) by (simp add: keyed_def)
  qed (rule in_order_step)
  with assms(5-8) show ?thesis by (auto simp: in_order_def)
qed

theorem plan_in_order_witness:
  "\<exists>s t. s \<in> set (db_steps (live after_dispatch)) \<and> t \<in> set (db_steps (live after_dispatch)) \<and>
     step_no s < step_no t \<and> step_state t = Step_DISPATCHED \<and> step_state s = Step_VERIFIED"
proof -
  obtain s where s: "s \<in> set (db_steps (live after_dispatch))" "step_no s = 1"
    by (rule states_of_member[OF after_dispatch_states, of 1 Step_VERIFIED]) simp_all
  obtain t where t: "t \<in> set (db_steps (live after_dispatch))" "step_no t = 2" "step_state t = Step_DISPATCHED"
    by (rule states_of_member[OF after_dispatch_states, of 2 Step_DISPATCHED]) simp_all
  have "step_state s = Step_VERIFIED"
    by (rule plan_in_order[OF reach_perform _ _ _ s(1)[unfolded after_dispatch_def] t(1)[unfolded after_dispatch_def]])
      (simp_all add: s t in_order_def)
  with s t show ?thesis by (intro exI[of _ s] exI[of _ t]) simp
qed

section \<open>Attempts\<close>

definition attempts_ok :: "step \<Rightarrow> bool" where
  "attempts_ok s \<longleftrightarrow> valid_step s \<and> (step_state s \<noteq> Step_PENDING \<longrightarrow> 1 \<le> step_attempt s) \<and>
     (step_state s = Step_REVISE \<longrightarrow> step_attempt s < step_max_attempts s)"

lemma attempts_step:
  assumes "attempts_ok s" and c: "step_changed s ev u d d'" and "any_allowed d s ev"
  shows "attempts_ok u"
proof -
  note d = step_changedD[OF c]
  have "step_attempt s < step_max_attempts s" if "step_state u = Step_REVISE"
    using that d(5) assms(3)
    by (auto simp: step_next_into any_allowed_def loop_allowed_def human_allowed_def human_events_def)
  moreover have "ev = Ev_REQUEST_REVISE" if "step_state u = Step_REVISE"
    using that d(5) by (auto simp: step_next_into)
  moreover have "1 \<le> step_attempt u"
  proof (cases "step_state s = Step_PENDING")
    case True
    then have "ev = Ev_PREPARE" using d(5) by (auto simp: step_next_iff STEP_TRANSITIONS_def)
    then show ?thesis using d(4) by (simp add: attempt_moves_def)
  next
    case False
    then show ?thesis using d(4) assms(1) by (auto simp: attempt_moves_def attempts_ok_def split: if_splits)
  qed
  ultimately show ?thesis
    using d(2-4) by (auto simp: attempts_ok_def attempt_moves_def same_plan_def)
qed

text \<open>
  C8: Attempts stay in bounds: in every reachable world the attempt of a Step that has started lies between
  1 and its maximum, and a Step in \<open>REVISE\<close> can always be retried, so the loop never waits in \<open>REVISE\<close>.
\<close>

theorem attempts_bounded:
  assumes "reach S w0 w" and "idle w0" and "\<forall>s\<in>set (db_steps (live w0)). attempts_ok s"
    and "s \<in> set (db_steps (live w))"
  shows "step_attempt s \<le> step_max_attempts s \<and> (step_state s \<noteq> Step_PENDING \<longrightarrow> 1 \<le> step_attempt s) \<and>
    (step_state s = Step_REVISE \<longrightarrow> can_retry s)"
proof -
  have "\<forall>s\<in>set (db_steps (live w)). attempts_ok s"
  proof (rule reach_invariant[OF assms(1,2), where I = "\<lambda>d. \<forall>s\<in>set (db_steps d). attempts_ok s"])
    show "\<forall>s\<in>set (db_steps d'). attempts_ok s"
      if "\<forall>s\<in>set (db_steps d). attempts_ok s" "db_step any_allowed d d'" for d d'
      using that(2,1) by (rule step_invariant) (use attempts_step in blast)
  qed (rule assms(3))
  then show ?thesis
    using assms(4) by (auto simp: attempts_ok_def valid_step_def can_retry_def)
qed

theorem attempts_bounded_witness:
  "\<exists>s\<in>set (db_steps (live after_prepare)). step_state s = Step_READY \<and> 1 \<le> step_attempt s \<and> step_attempt s \<le> step_max_attempts s"
proof -
  obtain s where s: "s \<in> set (db_steps (live after_prepare))" "step_state s = Step_READY"
    by (rule states_of_member[OF after_prepare_states, of 1 Step_READY]) simp_all
  have "attempts_ok (sample_step 1 Step_PENDING 0)" by code_simp
  then show ?thesis
    using attempts_bounded[OF reach_perform _ _ s(1)[unfolded after_prepare_def]] s by auto
qed

section \<open>The audit trail\<close>

text \<open>The events the audit trail records for a Step, as the texts its details hold.\<close>

definition event_text :: "audit_entry \<Rightarrow> string" where
  "event_text e = (case map_of (entry_detail e) ''event'' of Some (JStr x) \<Rightarrow> x | _ \<Rightarrow> '''')"

definition audit_events :: "int \<Rightarrow> audit_entry list \<Rightarrow> string list" where
  "audit_events n es = map event_text
     (filter (\<lambda>e. entry_entity_type e = Entity_STEP \<and> entry_entity_id e = show_int n) es)"

definition replays :: "db \<Rightarrow> step \<Rightarrow> bool" where
  "replays d s \<longleftrightarrow> apply_many StepStateMachine (map Text (audit_events (step_no s) (db_audit d))) Step_PENDING
     = (Inr (step_state s), step_state s)"

lemma audit_events_snoc:
  "audit_events n (es @ [e]) = audit_events n es @
     (if entry_entity_type e = Entity_STEP \<and> entry_entity_id e = show_int n then [event_text e] else [])"
  by (simp add: audit_events_def)

lemma records_event: "records e s ev u \<Longrightarrow> event_text e = step_event_value ev"
  by (simp add: records_def event_text_def)

lemma next_event_text: "next_state StepStateMachine v (Text (step_event_value ev)) = step_next v ev"
  using step_fsm.next_text[of v ev] by (simp add: step_next_eq StepStateMachine_def)

lemma replays_step:
  assumes "\<forall>s\<in>set (db_steps d). replays d s" and "db_step any_allowed d d'"
  shows "\<forall>s\<in>set (db_steps d'). replays d' s"
proof -
  consider "unchanged d d'" | "project_changed d d'" | s ev u where "step_changed s ev u d d'"
    using assms(2) by (auto simp: db_step_def)
  then show ?thesis
  proof cases
    case 1
    with assms(1) show ?thesis by (simp add: unchanged_def replays_def)
  next
    case 2
    then have "db_steps d' = db_steps d" "audit_events n (db_audit d') = audit_events n (db_audit d)" for n
      by (auto simp: project_changed_def audit_events_snoc)
    with assms(1) show ?thesis by (simp add: replays_def)
  next
    case (3 s ev u)
    note c = step_changedD[OF 3]
    obtain e where e: "db_audit d' = db_audit d @ [e]" "records e s ev u"
      using 3 by (auto simp: step_changed_def)
    have events: "audit_events n (db_audit d') = audit_events n (db_audit d) @
        (if n = step_no s then [step_event_value ev] else [])" for n
      using e(2) records_event[OF e(2)] by (auto simp: e(1) audit_events_snoc records_def)
    have "replays d s" using assms(1) c(1) by blast
    then have "replays d' u"
      using c(5,6) by (simp add: replays_def events apply_many_append apply_many_Cons next_event_text)
    moreover have "replays d' t" if "t \<in> set (db_steps d)" "step_no t \<noteq> step_no s" for t
      using that assms(1) by (simp add: replays_def events)
    ultimately show ?thesis using c(7) by auto
  qed
qed

text \<open>
  C4: The audit trail is a complete account of the workflow: if the Steps start as \<open>PENDING\<close> with no Step
  entries, then in every reachable world the events the trail records for a Step, replayed in order through
  the Step machine from \<open>PENDING\<close>, are all legal and end in exactly the state the database holds.
\<close>

theorem audit_trail_replays:
  assumes "reach S w0 w" and "idle w0" and "\<forall>s\<in>set (db_steps (live w0)). step_state s = Step_PENDING"
    and "\<forall>e\<in>set (db_audit (live w0)). entry_entity_type e \<noteq> Entity_STEP"
    and "s \<in> set (db_steps (live w))"
  shows "apply_many StepStateMachine (map Text (audit_events (step_no s) (db_audit (live w)))) Step_PENDING
    = (Inr (step_state s), step_state s)"
proof -
  have "\<forall>s\<in>set (db_steps (live w)). replays (live w) s"
  proof (rule reach_invariant[OF assms(1,2), where I = "\<lambda>d. \<forall>s\<in>set (db_steps d). replays d s"])
    have "audit_events n (db_audit (live w0)) = []" for n
      using assms(4) by (auto simp: audit_events_def filter_empty_conv)
    then show "\<forall>s\<in>set (db_steps (live w0)). replays (live w0) s"
      using assms(3) by (simp add: replays_def)
  qed (rule replays_step)
  with assms(5) show ?thesis by (simp add: replays_def)
qed

theorem audit_trail_replays_witness:
  "\<exists>s\<in>set (db_steps (live after_prepare)).
     apply_many StepStateMachine (map Text (audit_events (step_no s) (db_audit (live after_prepare)))) Step_PENDING
       = (Inr Step_READY, Step_READY)"
proof -
  obtain s where s: "s \<in> set (db_steps (live after_prepare))" "step_state s = Step_READY"
    by (rule states_of_member[OF after_prepare_states, of 1 Step_READY]) simp_all
  have "apply_many StepStateMachine (map Text (audit_events (step_no s) (db_audit (live after_prepare)))) Step_PENDING
      = (Inr (step_state s), step_state s)"
    using s(1) unfolding after_prepare_def by (intro audit_trail_replays[OF reach_perform]) simp_all
  with s show ?thesis by auto
qed

text \<open>What a database keeps: its Steps with their plan, and every audit entry.\<close>

definition extends :: "db \<Rightarrow> db \<Rightarrow> bool" where
  "extends d d' \<longleftrightarrow> keyed d' \<and> map step_no (db_steps d') = map step_no (db_steps d) \<and>
     map project_name (db_projects d') = map project_name (db_projects d) \<and>
     (\<forall>u\<in>set (db_steps d'). \<exists>s\<in>set (db_steps d). same_plan s u \<and> step_attempt s \<le> step_attempt u) \<and>
     (\<exists>es. db_audit d' = db_audit d @ es)"

lemma same_plan_trans: "same_plan a b \<Longrightarrow> same_plan b c \<Longrightarrow> same_plan a c"
  by (simp add: same_plan_def)

lemma attempt_grows: "attempt_moves s ev u \<Longrightarrow> step_attempt s \<le> step_attempt u"
  by (auto simp: attempt_moves_def)

lemma extends_step:
  assumes "extends d0 d" and step: "db_step any_allowed d d'"
  shows "extends d0 d'"
proof -
  have keyed: "keyed d" "keyed d'" using assms keyed_step by (auto simp: extends_def)
  consider "unchanged d d' \<or> project_changed d d'" | s ev u where "step_changed s ev u d d'"
    using step by (auto simp: db_step_def)
  then show ?thesis
  proof cases
    case 1
    then have "db_steps d' = db_steps d" "map project_name (db_projects d') = map project_name (db_projects d)"
      "\<exists>es. db_audit d' = db_audit d @ es"
      by (auto simp: unchanged_def project_changed_def)
    with assms(1) keyed show ?thesis by (auto simp: extends_def)
  next
    case (2 s ev u)
    note c = step_changedD[OF 2]
    obtain s0 where "s0 \<in> set (db_steps d0)" "same_plan s0 s" "step_attempt s0 \<le> step_attempt s"
      using assms(1) c(1) by (auto simp: extends_def)
    then have "\<exists>s0\<in>set (db_steps d0). same_plan s0 u \<and> step_attempt s0 \<le> step_attempt u"
      using c(3) attempt_grows[OF c(4)] same_plan_trans by (intro bexI[of _ s0]) auto
    then show ?thesis
      using assms(1) keyed c(7) c(9)[OF keyed(1)] 2 by (auto simp: extends_def step_changed_def)
  qed
qed

text \<open>
  Nothing is lost: in every reachable world the audit trail extends the earlier one, the Steps are the
  same with everything the plan says about them, attempts have not gone down, and the project is the same.
\<close>

theorem history_only_grows:
  assumes "reach S w0 w" and "idle w0" and "distinct (map step_no (db_steps (live w0)))"
  shows "(\<exists>es. db_audit (live w) = db_audit (live w0) @ es) \<and>
    map step_no (db_steps (live w)) = map step_no (db_steps (live w0)) \<and>
    map project_name (db_projects (live w)) = map project_name (db_projects (live w0)) \<and>
    (\<forall>u\<in>set (db_steps (live w)). \<exists>s\<in>set (db_steps (live w0)). step_no s = step_no u \<and>
       step_max_attempts s = step_max_attempts u \<and> step_risk s = step_risk u \<and>
       step_requires_human s = step_requires_human u \<and> step_attempt s \<le> step_attempt u)"
proof -
  have "extends (live w0) (live w)"
  proof (rule reach_invariant[OF assms(1,2), where I = "extends (live w0)"])
    show "extends (live w0) (live w0)"
      using assms(3) by (auto simp: extends_def keyed_def same_plan_def intro!: bexI)
  qed (rule extends_step)
  then show ?thesis by (fastforce simp: extends_def same_plan_def)
qed

theorem history_only_grows_witness:
  "map step_no (db_steps (live after_dispatch)) = [1, 2] \<and>
   map project_name (db_projects (live after_dispatch)) = [''demo'']"
  using history_only_grows[OF reach_perform, of "sample_world [sample_step 1 Step_VERIFIED 1, sample_step 2 Step_READY 1] empty_channel"
    sample_system Tick]
  by (simp add: after_dispatch_def sample_projects)

end
