(* ===== verification/ADR_Manager.thy ===== *)
theory ADR_Manager
  imports Storage
begin

text \<open>
  The lifecycle of ADRs (\<open>application/adr_manager.py\<close>). Every operation reads, checks its guards, and then
  writes the ADRs it changes together with exactly one audit entry in one transaction.
\<close>

section \<open>The manager\<close>

definition ADR_TRANSITIONS :: "adr_status \<Rightarrow> adr_status list" where
  "ADR_TRANSITIONS st =
     (case st of
        Adr_PROPOSED \<Rightarrow> [Adr_ACCEPTED, Adr_REJECTED]
      | Adr_ACCEPTED \<Rightarrow> [Adr_DEPRECATED, Adr_SUPERSEDED]
      | Adr_DEPRECATED \<Rightarrow> [Adr_SUPERSEDED]
      | Adr_REJECTED \<Rightarrow> []
      | Adr_SUPERSEDED \<Rightarrow> [])"

definition adr_require :: "string \<Rightarrow> adr io" where
  "adr_require k =
     bindM (get_adr k) (\<lambda>found. case found of None \<Rightarrow> raiseM AdrNotFoundError | Some a \<Rightarrow> returnM a)"

definition adr_ensure_transition :: "adr \<Rightarrow> adr_status \<Rightarrow> exn + unit" where
  "adr_ensure_transition a target =
     requireE (target \<in> set (ADR_TRANSITIONS (adr_status a))) InvalidAdrStatusTransitionError"

definition adr_commit :: "adr list \<Rightarrow> string \<Rightarrow> audit_action \<Rightarrow> mapping \<Rightarrow> datetime \<Rightarrow> unit io" where
  "adr_commit adrs entity action detail now =
     bindM (liftE (mk_audit_entry
       \<lparr>entry_entity_type = Entity_ADR, entry_entity_id = entity, entry_action = action,
        entry_detail = detail, entry_created_at = now\<rparr>)) (\<lambda>e.
     transactionM (thenM (forM adrs upsert_adr) (append_audit e)))"

definition adr_propose ::
  "(nat \<Rightarrow> datetime) \<Rightarrow> string \<Rightarrow> string \<Rightarrow> string \<Rightarrow> string \<Rightarrow> string list \<Rightarrow> string list \<Rightarrow> adr io" where
  "adr_propose clk k title context decision consequences related =
     bindM (get_adr k) (\<lambda>found.
     if found \<noteq> None then raiseM AdrManagerError
     else
       bindM (clockM clk) (\<lambda>now.
       bindM (liftE (mk_adr
         \<lparr>adr_id = k, adr_title = title, adr_status = Adr_PROPOSED, adr_context = context,
          adr_decision = decision, adr_consequences = consequences, adr_version = 1,
          adr_superseded_by = None, adr_related = related, adr_created_at = now,
          adr_updated_at = Some now\<rparr>)) (\<lambda>a.
       thenM (adr_commit [a] (adr_id a) Act_CREATE
         [(''id'', JStr (adr_id a)), (''title'', JStr (adr_title a)),
          (''version'', JInt (adr_version a)), (''status'', JStr (adr_status_value (adr_status a)))] now)
       (returnM a))))"

definition adr_change_status ::
  "(nat \<Rightarrow> datetime) \<Rightarrow> string \<Rightarrow> adr_status \<Rightarrow> audit_action \<Rightarrow> adr io" where
  "adr_change_status clk k target action =
     bindM (adr_require k) (\<lambda>a.
     thenM (liftE (adr_ensure_transition a target))
     (bindM (clockM clk) (\<lambda>now.
      bindM (liftE (mk_adr (a\<lparr>adr_status := target, adr_updated_at := Some now\<rparr>))) (\<lambda>u.
      thenM (adr_commit [u] (adr_id u) action
        [(''adr_id'', JStr (adr_id u)), (''from'', JStr (adr_status_value (adr_status a))),
         (''to'', JStr (adr_status_value target))] now)
      (returnM u)))))"

definition adr_accept :: "(nat \<Rightarrow> datetime) \<Rightarrow> string \<Rightarrow> adr io" where
  "adr_accept clk k = adr_change_status clk k Adr_ACCEPTED Act_ACCEPT"

definition adr_reject :: "(nat \<Rightarrow> datetime) \<Rightarrow> string \<Rightarrow> adr io" where
  "adr_reject clk k = adr_change_status clk k Adr_REJECTED Act_REJECT"

definition adr_deprecate :: "(nat \<Rightarrow> datetime) \<Rightarrow> string \<Rightarrow> adr io" where
  "adr_deprecate clk k = adr_change_status clk k Adr_DEPRECATED Act_DEPRECATE"

text \<open>The optional arguments of \<open>amend\<close>; \<open>changed_fields\<close> lists the given ones by name.\<close>

record adr_changes =
  new_title :: "string option"
  new_context :: "string option"
  new_decision :: "string option"
  new_consequences :: "string list option"
  new_related :: "string list option"

definition or_else :: "'a option \<Rightarrow> 'a \<Rightarrow> 'a" where
  "or_else v d = (case v of None \<Rightarrow> d | Some a \<Rightarrow> a)"

definition changed_adr_fields :: "adr_changes \<Rightarrow> string list" where
  "changed_adr_fields c = map snd (filter fst
     [(new_consequences c \<noteq> None, ''consequences''), (new_context c \<noteq> None, ''context''),
      (new_decision c \<noteq> None, ''decision''), (new_related c \<noteq> None, ''related''),
      (new_title c \<noteq> None, ''title'')])"

definition adr_amend :: "(nat \<Rightarrow> datetime) \<Rightarrow> string \<Rightarrow> adr_changes \<Rightarrow> adr io" where
  "adr_amend clk k c =
     bindM (adr_require k) (\<lambda>a.
     if changed_adr_fields c = [] then raiseM AdrManagerError
     else
       bindM (clockM clk) (\<lambda>now.
       bindM (liftE (mk_adr (a\<lparr>adr_version := adr_version a + 1, adr_updated_at := Some now,
         adr_title := or_else (new_title c) (adr_title a),
         adr_context := or_else (new_context c) (adr_context a),
         adr_decision := or_else (new_decision c) (adr_decision a),
         adr_consequences := or_else (new_consequences c) (adr_consequences a),
         adr_related := or_else (new_related c) (adr_related a)\<rparr>))) (\<lambda>u.
       thenM (adr_commit [u] (adr_id a) Act_AMEND
         [(''adr_id'', JStr (adr_id a)), (''previous_version'', JInt (adr_version a)),
          (''new_version'', JInt (adr_version u)), (''changed_fields'', json_texts (changed_adr_fields c))] now)
       (returnM u))))"

definition adr_supersede :: "(nat \<Rightarrow> datetime) \<Rightarrow> string \<Rightarrow> string \<Rightarrow> (adr \<times> adr) io" where
  "adr_supersede clk k successor_id =
     bindM (adr_require k) (\<lambda>old.
     bindM (adr_require successor_id) (\<lambda>successor.
     if adr_id old = adr_id successor then raiseM InvalidSupersessionError
     else if adr_superseded_by old \<noteq> None then raiseM InvalidSupersessionError
     else
       thenM (liftE (adr_ensure_transition old Adr_SUPERSEDED))
       (if adr_status successor \<noteq> Adr_PROPOSED \<and> adr_status successor \<noteq> Adr_ACCEPTED
        then raiseM InvalidSupersessionError
        else
          bindM (clockM clk) (\<lambda>now.
          bindM (liftE (mk_adr (old\<lparr>adr_status := Adr_SUPERSEDED, adr_superseded_by := Some (adr_id successor),
                   adr_updated_at := Some now\<rparr>))) (\<lambda>old'.
          bindM (liftE (if adr_status successor = Adr_PROPOSED
                        then mk_adr (successor\<lparr>adr_status := Adr_ACCEPTED, adr_updated_at := Some now\<rparr>)
                        else Inr successor)) (\<lambda>successor'.
          thenM (adr_commit [old', successor'] (adr_id old') Act_SUPERSEDE
            [(''old_id'', JStr (adr_id old')), (''successor_id'', JStr (adr_id successor')),
             (''old_status'', JStr (adr_status_value (adr_status old))),
             (''old_status_after'', JStr (adr_status_value (adr_status old'))),
             (''successor_status'', JStr (adr_status_value (adr_status successor')))] now)
          (returnM (old', successor'))))))))"

section \<open>Runs\<close>

definition valid_adr :: "adr \<Rightarrow> bool" where
  "valid_adr a \<longleftrightarrow> \<not> is_blank (adr_id a) \<and> \<not> is_blank (adr_title a) \<and> 1 \<le> adr_version a \<and>
     (case adr_superseded_by a of None \<Rightarrow> adr_status a \<noteq> Adr_SUPERSEDED | Some t \<Rightarrow> \<not> is_blank t)"

lemma mk_adr_iff: "mk_adr a = Inr b \<longleftrightarrow> b = a \<and> valid_adr a"
  by (cases "adr_superseded_by a") (auto simp: mk_adr_def valid_adr_def)

lemma mk_adr_valid: "valid_adr a \<Longrightarrow> mk_adr a = Inr a"
  by (simp add: mk_adr_iff)

lemma get_adr_run [exec]: "get_adr k w = (Inr (lookup adr_id k (db_adrs (live w))), w)"
  by (simp add: get_adr_def exec)

lemma adr_require_run [exec]:
  "adr_require k w = (case lookup adr_id k (db_adrs (live w)) of
     None \<Rightarrow> (Inl AdrNotFoundError, w) | Some a \<Rightarrow> (Inr a, w))"
  by (simp add: adr_require_def exec split: option.split)

lemma upsert_adrs_run:
  "0 < depth w \<Longrightarrow> forM as upsert_adr w
     = (Inr (), w\<lparr>live := (live w)\<lparr>db_adrs := fold (put adr_id) as (db_adrs (live w))\<rparr>\<rparr>)"
  by (induction as arbitrary: w) (simp_all add: exec upsert_adr_def)

definition adr_entry :: "string \<Rightarrow> audit_action \<Rightarrow> mapping \<Rightarrow> datetime \<Rightarrow> audit_entry" where
  "adr_entry k action detail now =
     \<lparr>entry_entity_type = Entity_ADR, entry_entity_id = k, entry_action = action, entry_detail = detail,
      entry_created_at = now\<rparr>"

definition adrs_written :: "adr list \<Rightarrow> audit_entry \<Rightarrow> db \<Rightarrow> db" where
  "adrs_written as e d = d\<lparr>db_adrs := fold (put adr_id) as (db_adrs d), db_audit := db_audit d @ [e]\<rparr>"

lemma adr_commit_run [exec]:
  "adr_commit as k action detail now w =
     (if is_blank k then (Inl ValueError, w)
      else (Inr (), settle (w\<lparr>live := adrs_written as (adr_entry k action detail now) (live w)\<rparr>)))"
proof (cases "depth w = 0")
  case True
  then show ?thesis
    by (simp add: adr_commit_def transactionM_def exec append_audit_def adrs_written_def adr_entry_def
        settle_def mk_audit_entry_def upsert_adrs_run)
next
  case False
  then show ?thesis
    by (simp add: adr_commit_def transactionM_def exec append_audit_def adrs_written_def adr_entry_def
        settle_def mk_audit_entry_def upsert_adrs_run)
qed

section \<open>The lifecycle\<close>

datatype adr_op =
    Adr_Propose string string string string "string list" "string list"
  | Adr_Accept string
  | Adr_Reject string
  | Adr_Deprecate string
  | Adr_Amend string adr_changes
  | Adr_Supersede string string

fun perform_adr :: "(nat \<Rightarrow> datetime) \<Rightarrow> adr_op \<Rightarrow> unit io" where
  "perform_adr clk (Adr_Propose k title context decision cs rel) =
     forget (adr_propose clk k title context decision cs rel)"
| "perform_adr clk (Adr_Accept k) = forget (adr_accept clk k)"
| "perform_adr clk (Adr_Reject k) = forget (adr_reject clk k)"
| "perform_adr clk (Adr_Deprecate k) = forget (adr_deprecate clk k)"
| "perform_adr clk (Adr_Amend k c) = forget (adr_amend clk k c)"
| "perform_adr clk (Adr_Supersede k k') = forget (adr_supersede clk k k')"

text \<open>How one ADR may change; and what an operation may do to the database.\<close>

definition adr_moves :: "adr \<Rightarrow> adr \<Rightarrow> bool" where
  "adr_moves a b \<longleftrightarrow> adr_id b = adr_id a \<and> adr_created_at b = adr_created_at a \<and>
     (if adr_status b = adr_status a then adr_superseded_by b = adr_superseded_by a
      else adr_status b \<in> set (ADR_TRANSITIONS (adr_status a)) \<and> adr_version b = adr_version a \<and>
        (adr_status b = Adr_SUPERSEDED \<longrightarrow> adr_superseded_by b \<noteq> None)) \<and>
     adr_version a \<le> adr_version b"

definition adr_written :: "db \<Rightarrow> adr \<Rightarrow> bool" where
  "adr_written d b \<longleftrightarrow>
     (case lookup adr_id (adr_id b) (db_adrs d) of
        None \<Rightarrow> adr_status b = Adr_PROPOSED \<and> adr_version b = 1
      | Some a \<Rightarrow> adr_moves a b)"

definition adr_legal :: "db \<Rightarrow> db \<Rightarrow> bool" where
  "adr_legal d d' \<longleftrightarrow> (\<exists>as e. d' = adrs_written as e d \<and> entry_entity_type e = Entity_ADR \<and>
     distinct (map adr_id as) \<and> (\<forall>b\<in>set as. adr_written d b))"

lemma adr_written_moves:
  "lookup adr_id k (db_adrs d) = Some a \<Longrightarrow> adr_moves a b \<Longrightarrow> adr_written d b"
  using lookup_Some[of adr_id k "db_adrs d" a] by (auto simp: adr_written_def adr_moves_def)

lemma adr_legalI:
  "distinct (map adr_id as) \<Longrightarrow> (\<And>b. b \<in> set as \<Longrightarrow> adr_written d b) \<Longrightarrow>
     adr_legal d (adrs_written as (adr_entry k action detail now) d)"
  unfolding adr_legal_def
  by (intro exI[of _ as] exI[of _ "adr_entry k action detail now"]) (simp add: adr_entry_def)

definition adr_outcome :: "exn + unit \<Rightarrow> world \<Rightarrow> world \<Rightarrow> bool" where
  "adr_outcome res w w' \<longleftrightarrow> depth w' = depth w \<and> disk w' = disk w \<and>
     (case res of Inl e \<Rightarrow> live w' = live w \<and> trail w' = trail w \<and> durable w' = durable w
                | Inr _ \<Rightarrow> adr_legal (live w) (live w') \<and> (depth w = 0 \<longrightarrow> durable w' = live w'))"

lemma outcome_failed: "adr_outcome (Inl e) w w" "adr_outcome (Inl e) w (w\<lparr>clock_reads := n\<rparr>)"
  by (simp_all add: adr_outcome_def)

lemma outcome_written:
  "distinct (map adr_id as) \<Longrightarrow> (\<And>b. b \<in> set as \<Longrightarrow> adr_written (live w) b) \<Longrightarrow>
     adr_outcome (Inr ()) w
       (settle (w\<lparr>clock_reads := n, live := adrs_written as (adr_entry k action detail now) (live w)\<rparr>))"
  by (simp add: adr_outcome_def adr_legalI settle_durable)

lemma outcome_one:
  "adr_written (live w) b \<Longrightarrow> adr_outcome (Inr ()) w
       (settle (w\<lparr>clock_reads := n, live := adrs_written [b] (adr_entry k action detail now) (live w)\<rparr>))"
  by (rule outcome_written) simp_all

lemma moves_status:
  "st \<in> set (ADR_TRANSITIONS (adr_status a)) \<Longrightarrow> st \<noteq> Adr_SUPERSEDED \<Longrightarrow>
     adr_moves a (a\<lparr>adr_status := st, adr_updated_at := now\<rparr>)"
  by (auto simp: adr_moves_def)

lemma change_status_outcome:
  assumes "forget (adr_change_status clk k target action) w = (res, w')" "target \<noteq> Adr_SUPERSEDED"
  shows "adr_outcome res w w'"
proof (cases "lookup adr_id k (db_adrs (live w))")
  case None
  then show ?thesis
    using assms(1) by (auto simp: adr_change_status_def forget_run exec outcome_failed)
next
  case (Some a)
  show ?thesis
    using assms Some
    by (auto simp: adr_change_status_def forget_run exec adr_ensure_transition_def requireE_def outcome_failed
        dest!: mk_returns_argument(6) intro!: outcome_one adr_written_moves[OF Some] moves_status
        split: sum.splits if_splits)
qed

lemma propose_outcome:
  assumes "forget (adr_propose clk k title context decision cs rel) w = (res, w')"
  shows "adr_outcome res w w'"
proof (cases "lookup adr_id k (db_adrs (live w))")
  case None
  then show ?thesis
    using assms
    by (auto simp: adr_propose_def forget_run exec outcome_failed adr_written_def
        dest!: mk_returns_argument(6) intro!: outcome_one split: sum.splits if_splits)
next
  case (Some a)
  then show ?thesis
    using assms by (auto simp: adr_propose_def forget_run exec outcome_failed)
qed

lemma moves_content:
  "adr_status b = adr_status a \<Longrightarrow> adr_superseded_by b = adr_superseded_by a \<Longrightarrow> adr_id b = adr_id a \<Longrightarrow>
     adr_created_at b = adr_created_at a \<Longrightarrow> adr_version a \<le> adr_version b \<Longrightarrow> adr_moves a b"
  by (simp add: adr_moves_def)

lemma amend_outcome:
  assumes "forget (adr_amend clk k c) w = (res, w')"
  shows "adr_outcome res w w'"
proof (cases "lookup adr_id k (db_adrs (live w))")
  case None
  then show ?thesis
    using assms by (auto simp: adr_amend_def forget_run exec outcome_failed)
next
  case (Some a)
  show ?thesis
    using assms Some
    by (auto simp: adr_amend_def forget_run exec outcome_failed
        dest!: mk_returns_argument(6) intro!: outcome_one adr_written_moves[OF Some] moves_content
        split: sum.splits if_splits)
qed

lemma supersede_outcome:
  assumes "forget (adr_supersede clk k k') w = (res, w')"
  shows "adr_outcome res w w'"
proof (cases "lookup adr_id k (db_adrs (live w))")
  case None
  then show ?thesis
    using assms by (auto simp: adr_supersede_def forget_run exec outcome_failed)
next
  case old: (Some a)
  show ?thesis
  proof (cases "lookup adr_id k' (db_adrs (live w))")
    case None
    with old show ?thesis
      using assms by (auto simp: adr_supersede_def forget_run exec outcome_failed)
  next
    case (Some b)
    have leaving: "adr_written (live w) (a\<lparr>adr_status := Adr_SUPERSEDED, adr_superseded_by := Some c,
        adr_updated_at := t\<rparr>)" if "Adr_SUPERSEDED \<in> set (ADR_TRANSITIONS (adr_status a))" for c t
      by (rule adr_written_moves[OF old])
        (use that in \<open>auto simp: adr_moves_def ADR_TRANSITIONS_def split: adr_status.splits\<close>)
    have taking: "adr_written (live w) (b\<lparr>adr_status := Adr_ACCEPTED, adr_updated_at := t\<rparr>)"
      if "adr_status b = Adr_PROPOSED" for t
      by (rule adr_written_moves[OF Some], rule moves_status) (simp_all add: that ADR_TRANSITIONS_def)
    have same: "adr_written (live w) b"
      by (rule adr_written_moves[OF Some], rule moves_content) simp_all
    show ?thesis
      using assms old Some
      by (auto simp: adr_supersede_def forget_run exec adr_ensure_transition_def requireE_def outcome_failed
          dest!: mk_returns_argument(6) intro!: outcome_written split: sum.splits if_splits
          intro: leaving taking same)
  qed
qed

lemma perform_adr_outcome:
  assumes "perform_adr clk p w = (res, w')"
  shows "adr_outcome res w w'"
  using assms
  by (cases p) (auto simp: adr_accept_def adr_reject_def adr_deprecate_def
      intro: change_status_outcome propose_outcome amend_outcome supersede_outcome)

section \<open>Histories\<close>

fun adr_run :: "(nat \<Rightarrow> datetime) \<Rightarrow> adr_op list \<Rightarrow> world \<Rightarrow> world" where
  "adr_run clk [] w = w"
| "adr_run clk (p # ps) w = adr_run clk ps (snd (perform_adr clk p w))"

text \<open>What a history of operations keeps of an ADR.\<close>

definition adr_later :: "adr \<Rightarrow> adr \<Rightarrow> bool" where
  "adr_later a b \<longleftrightarrow> adr_created_at b = adr_created_at a \<and> adr_version a \<le> adr_version b \<and>
     (adr_status a = Adr_REJECTED \<longrightarrow> adr_status b = Adr_REJECTED) \<and>
     (adr_status a = Adr_SUPERSEDED \<longrightarrow> adr_status b = Adr_SUPERSEDED \<and> adr_superseded_by b = adr_superseded_by a) \<and>
     (adr_status b = Adr_PROPOSED \<longrightarrow> adr_status a = Adr_PROPOSED)"

lemma adr_later_refl: "adr_later a a"
  by (simp add: adr_later_def)

lemma adr_later_trans: "adr_later a b \<Longrightarrow> adr_later b c \<Longrightarrow> adr_later a c"
  unfolding adr_later_def by (elim conjE, intro conjI) (metis order_trans)+

lemma moves_later: "adr_moves a b \<Longrightarrow> adr_later a b"
  unfolding adr_moves_def adr_later_def
  by (cases "adr_status a"; cases "adr_status b") (simp_all add: ADR_TRANSITIONS_def)

lemma written_later:
  assumes "distinct (map adr_id as)" "\<forall>b\<in>set as. adr_written d b" "lookup adr_id k (db_adrs d) = Some a"
  shows "\<exists>b. lookup adr_id k (db_adrs (adrs_written as e d)) = Some b \<and> adr_later a b"
proof (cases "\<exists>b\<in>set as. adr_id b = k")
  case True
  then obtain b where b: "b \<in> set as" "adr_id b = k" by blast
  then have "adr_moves a b" using assms(2,3) by (auto simp: adr_written_def)
  with b assms(1) show ?thesis
    by (auto simp: adrs_written_def lookup_fold_put_in moves_later)
next
  case False
  then show ?thesis
    using assms(3) by (auto simp: adrs_written_def lookup_fold_put_out adr_later_refl)
qed

lemma perform_adr_later:
  assumes "lookup adr_id k (db_adrs (live w)) = Some a"
  shows "\<exists>b. lookup adr_id k (db_adrs (live (snd (perform_adr clk p w)))) = Some b \<and> adr_later a b"
proof -
  obtain res w' where run: "perform_adr clk p w = (res, w')" by (cases "perform_adr clk p w")
  have "adr_outcome res w w'" by (rule perform_adr_outcome[OF run])
  then show ?thesis
    using assms written_later[OF _ _ assms]
    by (cases res) (auto simp: run adr_outcome_def adr_later_refl adr_legal_def)
qed

text \<open>
  C31: ADRs live by their lifecycle: whatever sequence of manager operations runs, failed ones included, a
  stored ADR stays stored, keeps its creation time, never loses a version, never returns to PROPOSED, and
  once REJECTED or SUPERSEDED stays so, with the same successor.
\<close>

theorem adr_lifecycle:
  assumes "lookup adr_id k (db_adrs (live w)) = Some a"
  shows "\<exists>b. lookup adr_id k (db_adrs (live (adr_run clk ps w))) = Some b \<and>
    adr_created_at b = adr_created_at a \<and> adr_version a \<le> adr_version b \<and>
    (adr_status a = Adr_REJECTED \<longrightarrow> adr_status b = Adr_REJECTED) \<and>
    (adr_status a = Adr_SUPERSEDED \<longrightarrow> adr_status b = Adr_SUPERSEDED \<and> adr_superseded_by b = adr_superseded_by a) \<and>
    (adr_status b = Adr_PROPOSED \<longrightarrow> adr_status a = Adr_PROPOSED)"
proof -
  have "\<exists>b. lookup adr_id k (db_adrs (live (adr_run clk ps w))) = Some b \<and> adr_later a b"
    using assms
  proof (induction ps arbitrary: w a)
    case (Cons p ps)
    from perform_adr_later[OF Cons.prems] Cons.IH show ?case
      by (fastforce intro: adr_later_trans)
  qed (simp add: adr_later_refl)
  then show ?thesis by (simp add: adr_later_def)
qed

theorem adr_lifecycle_witness:
  "let w = adr_run (\<lambda>_. 0) [Adr_Propose ''A'' ''a'' '''' '''' [] [], Adr_Accept ''A'', Adr_Propose ''B'' ''b'' '''' '''' [] [],
             Adr_Supersede ''A'' ''B''] (world_with empty_db empty_channel []) in
   map (\<lambda>a. (adr_id a, adr_status a, adr_superseded_by a)) (db_adrs (live w))
     = [(''A'', Adr_SUPERSEDED, Some ''B''), (''B'', Adr_ACCEPTED, None)] \<and>
   (\<exists>b. lookup adr_id ''A'' (db_adrs (live (adr_run (\<lambda>_. 0) [Adr_Accept ''A'', Adr_Reject ''A''] w))) = Some b \<and>
     adr_status b = Adr_SUPERSEDED \<and> adr_superseded_by b = Some ''B'')"
proof -
  let ?w = "adr_run (\<lambda>_. 0) [Adr_Propose ''A'' ''a'' '''' '''' [] [], Adr_Accept ''A'', Adr_Propose ''B'' ''b'' '''' '''' [] [],
      Adr_Supersede ''A'' ''B''] (world_with empty_db empty_channel [])"
  have run: "map (\<lambda>a. (adr_id a, adr_status a, adr_superseded_by a)) (db_adrs (live ?w))
     = [(''A'', Adr_SUPERSEDED, Some ''B''), (''B'', Adr_ACCEPTED, None)]"
    by (simp add: forget_run adr_propose_def adr_accept_def adr_change_status_def adr_supersede_def exec world_with_def
        empty_db_def mk_adr_valid valid_adr_def is_space_def adrs_written_def put_def lookup_def adr_ensure_transition_def ADR_TRANSITIONS_def)
  then obtain a where "lookup adr_id ''A'' (db_adrs (live ?w)) = Some a" "adr_status a = Adr_SUPERSEDED"
      "adr_superseded_by a = Some ''B''"
    by (auto simp: lookup_def)
  with adr_lifecycle[of "''A''" ?w a "\<lambda>_. 0" "[Adr_Accept ''A'', Adr_Reject ''A'']"] run show ?thesis
    unfolding Let_def by auto
qed

text \<open>
  A manager operation either raises and leaves the live and the durable database as they were, or
  commits its ADRs together with exactly one audit entry about an ADR, touching no Step and no risk.
\<close>

theorem adr_operation_atomic:
  assumes "perform_adr clk p w = (res, w')" "depth w = 0"
  shows "case res of
      Inl _ \<Rightarrow> live w' = live w \<and> durable w' = durable w
    | Inr _ \<Rightarrow> durable w' = live w' \<and> (\<exists>e. db_audit (live w') = db_audit (live w) @ [e] \<and> entry_entity_type e = Entity_ADR) \<and>
        db_steps (live w') = db_steps (live w) \<and> db_risks (live w') = db_risks (live w)"
  using perform_adr_outcome[OF assms(1)] assms(2)
  by (cases res) (auto simp: adr_outcome_def adr_legal_def adrs_written_def)


theorem adr_operation_atomic_witness:
  "let w' = snd (perform_adr (\<lambda>_. 0) (Adr_Propose ''A'' ''a'' '''' '''' [] []) (world_with empty_db empty_channel [])) in
   durable w' = live w' \<and> length (db_audit (live w')) = 1"
proof -
  obtain w' where run: "perform_adr (\<lambda>_. 0) (Adr_Propose ''A'' ''a'' '''' '''' [] []) (world_with empty_db empty_channel []) = (Inr (), w')"
    by (simp add: forget_run adr_propose_def exec world_with_def empty_db_def mk_adr_valid valid_adr_def is_space_def lookup_def)
  from adr_operation_atomic[OF this] have "durable w' = live w' \<and> length (db_audit (live w')) = 1"
    by (auto simp: world_with_def empty_db_def)
  then show ?thesis by (simp only: run Let_def snd_conv)
qed

end
