(* ===== verification/Risk_Manager.thy ===== *)
theory Risk_Manager
  imports Storage ADR_Manager
begin

text \<open>
  The lifecycle of risks (\<open>application/risk_manager.py\<close>): the same discipline as for ADRs, one risk and
  one audit entry per operation, in one transaction.
\<close>

section \<open>The manager\<close>

definition RISK_TRANSITIONS :: "risk_status \<Rightarrow> risk_status list" where
  "RISK_TRANSITIONS st =
     (case st of
        Risk_OPEN \<Rightarrow> [Risk_MITIGATED, Risk_ACCEPTED, Risk_CLOSED]
      | Risk_MITIGATED \<Rightarrow> [Risk_CLOSED]
      | Risk_ACCEPTED \<Rightarrow> [Risk_CLOSED]
      | Risk_CLOSED \<Rightarrow> [Risk_OPEN])"

definition risk_require :: "string \<Rightarrow> risk io" where
  "risk_require k =
     bindM (get_risk k) (\<lambda>found. case found of None \<Rightarrow> raiseM RiskNotFoundError | Some r \<Rightarrow> returnM r)"

definition risk_ensure_transition :: "risk \<Rightarrow> risk_status \<Rightarrow> exn + unit" where
  "risk_ensure_transition r target =
     requireE (target \<in> set (RISK_TRANSITIONS (risk_status r))) InvalidRiskStatusTransitionError"

definition risk_commit :: "risk \<Rightarrow> audit_action \<Rightarrow> mapping \<Rightarrow> datetime \<Rightarrow> unit io" where
  "risk_commit r action detail now =
     bindM (liftE (mk_audit_entry
       \<lparr>entry_entity_type = Entity_RISK, entry_entity_id = risk_id r, entry_action = action,
        entry_detail = detail, entry_created_at = now\<rparr>)) (\<lambda>e.
     transactionM (thenM (upsert_risk r) (append_audit e)))"

definition risk_register ::
  "(nat \<Rightarrow> datetime) \<Rightarrow> string \<Rightarrow> string \<Rightarrow> severity \<Rightarrow> rat \<Rightarrow> severity \<Rightarrow> string \<Rightarrow> string \<Rightarrow> risk io" where
  "risk_register clk k description sev probability impact owner mitigation =
     bindM (get_risk k) (\<lambda>found.
     if found \<noteq> None then raiseM RiskManagerError
     else
       bindM (clockM clk) (\<lambda>now.
       bindM (liftE (mk_risk
         \<lparr>risk_id = k, risk_description = description, risk_severity = sev, risk_probability = probability,
          risk_impact = impact, risk_owner = owner, risk_mitigation = mitigation, risk_status = Risk_OPEN,
          risk_created_at = now, risk_updated_at = Some now\<rparr>)) (\<lambda>r.
       thenM (risk_commit r Act_CREATE
         [(''id'', JStr (risk_id r)), (''severity'', JStr (severity_value (risk_severity r))),
          (''probability'', JReal (risk_probability r)), (''impact'', JStr (severity_value (risk_impact r))),
          (''owner'', JStr (risk_owner r)), (''status'', JStr (risk_status_value (risk_status r)))] now)
       (returnM r))))"

definition risk_change_status :: "(nat \<Rightarrow> datetime) \<Rightarrow> string \<Rightarrow> risk_status \<Rightarrow> audit_action \<Rightarrow> risk io" where
  "risk_change_status clk k target action =
     bindM (risk_require k) (\<lambda>r.
     thenM (liftE (risk_ensure_transition r target))
     (bindM (clockM clk) (\<lambda>now.
      bindM (liftE (mk_risk (r\<lparr>risk_status := target, risk_updated_at := Some now\<rparr>))) (\<lambda>u.
      thenM (risk_commit u action
        [(''risk_id'', JStr (risk_id u)), (''from'', JStr (risk_status_value (risk_status r))),
         (''to'', JStr (risk_status_value target))] now)
      (returnM u)))))"

definition risk_mitigate :: "(nat \<Rightarrow> datetime) \<Rightarrow> string \<Rightarrow> risk io" where
  "risk_mitigate clk k = risk_change_status clk k Risk_MITIGATED Act_MITIGATE"

definition risk_accept :: "(nat \<Rightarrow> datetime) \<Rightarrow> string \<Rightarrow> risk io" where
  "risk_accept clk k = risk_change_status clk k Risk_ACCEPTED Act_ACCEPT"

definition risk_close :: "(nat \<Rightarrow> datetime) \<Rightarrow> string \<Rightarrow> risk io" where
  "risk_close clk k = risk_change_status clk k Risk_CLOSED Act_CLOSE"

definition risk_reopen :: "(nat \<Rightarrow> datetime) \<Rightarrow> string \<Rightarrow> risk io" where
  "risk_reopen clk k = risk_change_status clk k Risk_OPEN Act_REOPEN"

text \<open>The optional arguments of \<open>update\<close>.\<close>

record risk_changes =
  upd_description :: "string option"
  upd_severity :: "severity option"
  upd_probability :: "rat option"
  upd_impact :: "severity option"
  upd_owner :: "string option"
  upd_mitigation :: "string option"

definition changed_risk_fields :: "risk_changes \<Rightarrow> string list" where
  "changed_risk_fields c = map snd (filter fst
     [(upd_description c \<noteq> None, ''description''), (upd_impact c \<noteq> None, ''impact''),
      (upd_mitigation c \<noteq> None, ''mitigation''), (upd_owner c \<noteq> None, ''owner''),
      (upd_probability c \<noteq> None, ''probability''), (upd_severity c \<noteq> None, ''severity'')])"

definition risk_update :: "(nat \<Rightarrow> datetime) \<Rightarrow> string \<Rightarrow> risk_changes \<Rightarrow> risk io" where
  "risk_update clk k c =
     bindM (risk_require k) (\<lambda>r.
     if changed_risk_fields c = [] then raiseM RiskManagerError
     else
       bindM (clockM clk) (\<lambda>now.
       bindM (liftE (mk_risk (r\<lparr>risk_updated_at := Some now,
         risk_description := or_else (upd_description c) (risk_description r),
         risk_severity := or_else (upd_severity c) (risk_severity r),
         risk_probability := or_else (upd_probability c) (risk_probability r),
         risk_impact := or_else (upd_impact c) (risk_impact r),
         risk_owner := or_else (upd_owner c) (risk_owner r),
         risk_mitigation := or_else (upd_mitigation c) (risk_mitigation r)\<rparr>))) (\<lambda>u.
       thenM (risk_commit u Act_UPDATE
         [(''risk_id'', JStr (risk_id r)), (''changed_fields'', json_texts (changed_risk_fields c))] now)
       (returnM u))))"

section \<open>Runs\<close>

lemma get_risk_run [exec]: "get_risk k w = (Inr (lookup risk_id k (db_risks (live w))), w)"
  by (simp add: get_risk_def exec)

lemma risk_require_run [exec]:
  "risk_require k w = (case lookup risk_id k (db_risks (live w)) of
     None \<Rightarrow> (Inl RiskNotFoundError, w) | Some r \<Rightarrow> (Inr r, w))"
  by (simp add: risk_require_def exec split: option.split)

definition risk_entry :: "risk \<Rightarrow> audit_action \<Rightarrow> mapping \<Rightarrow> datetime \<Rightarrow> audit_entry" where
  "risk_entry r action detail now =
     \<lparr>entry_entity_type = Entity_RISK, entry_entity_id = risk_id r, entry_action = action,
      entry_detail = detail, entry_created_at = now\<rparr>"

definition risk_put :: "risk \<Rightarrow> audit_entry \<Rightarrow> db \<Rightarrow> db" where
  "risk_put r e d = d\<lparr>db_risks := put risk_id r (db_risks d), db_audit := db_audit d @ [e]\<rparr>"

lemma risk_commit_run [exec]:
  "risk_commit r action detail now w =
     (if is_blank (risk_id r) then (Inl ValueError, w)
      else (Inr (), settle (w\<lparr>live := risk_put r (risk_entry r action detail now) (live w)\<rparr>)))"
  by (cases "depth w = 0")
    (simp_all add: risk_commit_def transactionM_def exec append_audit_def upsert_risk_def risk_put_def
      risk_entry_def settle_def mk_audit_entry_def)

section \<open>The lifecycle\<close>

datatype risk_op =
    Risk_Register string string severity rat severity string string
  | Risk_Update string risk_changes
  | Risk_Mitigate string
  | Risk_Accept string
  | Risk_Close string
  | Risk_Reopen string

fun perform_risk :: "(nat \<Rightarrow> datetime) \<Rightarrow> risk_op \<Rightarrow> unit io" where
  "perform_risk clk (Risk_Register k description sev probability impact owner mitigation) =
     forget (risk_register clk k description sev probability impact owner mitigation)"
| "perform_risk clk (Risk_Update k c) = forget (risk_update clk k c)"
| "perform_risk clk (Risk_Mitigate k) = forget (risk_mitigate clk k)"
| "perform_risk clk (Risk_Accept k) = forget (risk_accept clk k)"
| "perform_risk clk (Risk_Close k) = forget (risk_close clk k)"
| "perform_risk clk (Risk_Reopen k) = forget (risk_reopen clk k)"

text \<open>The action that records each status, and what a stored risk may become, with the entry that records it.\<close>

definition risk_action :: "risk_status \<Rightarrow> audit_action" where
  "risk_action st =
     (case st of Risk_OPEN \<Rightarrow> Act_REOPEN | Risk_MITIGATED \<Rightarrow> Act_MITIGATE | Risk_ACCEPTED \<Rightarrow> Act_ACCEPT
               | Risk_CLOSED \<Rightarrow> Act_CLOSE)"

definition risk_written :: "db \<Rightarrow> risk \<Rightarrow> audit_action \<Rightarrow> bool" where
  "risk_written d s action \<longleftrightarrow> 0 \<le> risk_probability s \<and> risk_probability s \<le> 1 \<and>
     (case lookup risk_id (risk_id s) (db_risks d) of
        None \<Rightarrow> risk_status s = Risk_OPEN \<and> action = Act_CREATE
      | Some r \<Rightarrow> risk_created_at s = risk_created_at r \<and>
          (risk_status s = risk_status r \<and> action = Act_UPDATE \<or>
           risk_status s \<in> set (RISK_TRANSITIONS (risk_status r)) \<and> action = risk_action (risk_status s)))"

definition risk_stored :: "db \<Rightarrow> db \<Rightarrow> bool" where
  "risk_stored d d' \<longleftrightarrow> (\<exists>s e. d' = risk_put s e d \<and> entry_entity_type e = Entity_RISK \<and>
     entry_entity_id e = risk_id s \<and> risk_written d s (entry_action e))"

definition risk_outcome :: "exn + unit \<Rightarrow> world \<Rightarrow> world \<Rightarrow> bool" where
  "risk_outcome res w w' \<longleftrightarrow> depth w' = depth w \<and> disk w' = disk w \<and>
     (case res of Inl e \<Rightarrow> live w' = live w \<and> trail w' = trail w \<and> durable w' = durable w
                | Inr _ \<Rightarrow> risk_stored (live w) (live w') \<and> (depth w = 0 \<longrightarrow> durable w' = live w'))"

lemma risk_failed: "risk_outcome (Inl e) w w" "risk_outcome (Inl e) w (w\<lparr>clock_reads := n\<rparr>)"
  by (simp_all add: risk_outcome_def)

lemma risk_stores:
  assumes "risk_written (live w) s action"
  shows "risk_outcome (Inr ()) w
     (settle (w\<lparr>clock_reads := n, live := risk_put s (risk_entry s action detail now) (live w)\<rparr>))"
proof -
  have "risk_stored (live w) (risk_put s (risk_entry s action detail now) (live w))"
    unfolding risk_stored_def
    by (intro exI[of _ s] exI[of _ "risk_entry s action detail now"]) (simp add: assms risk_entry_def)
  then show ?thesis by (simp add: risk_outcome_def settle_durable)
qed

lemma mk_risk_iff: "mk_risk r = Inr s \<longleftrightarrow> s = r \<and> \<not> is_blank (risk_id r) \<and>
    \<not> is_blank (risk_description r) \<and> 0 \<le> risk_probability r \<and> risk_probability r \<le> 1"
  by (auto simp: mk_risk_def)

lemma mk_risk_valid: "\<not> is_blank (risk_id r) \<and> \<not> is_blank (risk_description r) \<and> 0 \<le> risk_probability r \<and>
    risk_probability r \<le> 1 \<Longrightarrow> mk_risk r = Inr r"
  by (simp add: mk_risk_iff)

lemma risk_written_moves:
  "lookup risk_id k (db_risks d) = Some r \<Longrightarrow> risk_id s = risk_id r \<Longrightarrow> risk_created_at s = risk_created_at r \<Longrightarrow>
     risk_status s = risk_status r \<and> action = Act_UPDATE \<or>
     risk_status s \<in> set (RISK_TRANSITIONS (risk_status r)) \<and> action = risk_action (risk_status s) \<Longrightarrow>
     0 \<le> risk_probability s \<Longrightarrow> risk_probability s \<le> 1 \<Longrightarrow> risk_written d s action"
  using lookup_Some[of risk_id k "db_risks d" r] by (auto simp: risk_written_def)

lemma risk_status_outcome:
  assumes "forget (risk_change_status clk k target (risk_action target)) w = (res, w')"
  shows "risk_outcome res w w'"
proof (cases "lookup risk_id k (db_risks (live w))")
  case None
  then show ?thesis
    using assms by (auto simp: risk_change_status_def forget_run exec risk_failed)
next
  case (Some r)
  show ?thesis
    using assms Some
    by (auto simp: risk_change_status_def forget_run exec risk_ensure_transition_def requireE_def risk_failed
        mk_risk_iff intro!: risk_stores risk_written_moves[OF Some] split: sum.splits if_splits)
qed

lemma risk_update_outcome:
  assumes "forget (risk_update clk k c) w = (res, w')"
  shows "risk_outcome res w w'"
proof (cases "lookup risk_id k (db_risks (live w))")
  case None
  then show ?thesis
    using assms by (auto simp: risk_update_def forget_run exec risk_failed)
next
  case (Some r)
  show ?thesis
    using assms Some
    by (auto simp: risk_update_def forget_run exec risk_failed
        mk_risk_iff intro!: risk_stores risk_written_moves[OF Some] split: sum.splits if_splits)
qed

lemma risk_register_outcome:
  assumes "forget (risk_register clk k description sev probability impact owner mitigation) w = (res, w')"
  shows "risk_outcome res w w'"
proof (cases "lookup risk_id k (db_risks (live w))")
  case None
  then show ?thesis
    using assms
    by (auto simp: risk_register_def forget_run exec risk_failed risk_written_def mk_risk_iff
        intro!: risk_stores split: sum.splits if_splits)
next
  case (Some r)
  then show ?thesis
    using assms by (auto simp: risk_register_def forget_run exec risk_failed)
qed

lemma perform_risk_outcome:
  assumes "perform_risk clk p w = (res, w')"
  shows "risk_outcome res w w'"
  using assms risk_status_outcome[of clk _ Risk_MITIGATED w res w'] risk_status_outcome[of clk _ Risk_ACCEPTED w res w']
    risk_status_outcome[of clk _ Risk_CLOSED w res w'] risk_status_outcome[of clk _ Risk_OPEN w res w']
  by (cases p) (auto simp: risk_mitigate_def risk_accept_def risk_close_def risk_reopen_def risk_action_def
      intro: risk_update_outcome risk_register_outcome)

section \<open>Histories\<close>

fun risk_run :: "(nat \<Rightarrow> datetime) \<Rightarrow> risk_op list \<Rightarrow> world \<Rightarrow> world" where
  "risk_run clk [] w = w"
| "risk_run clk (p # ps) w = risk_run clk ps (snd (perform_risk clk p w))"

text \<open>The status the audit trail tells for a risk: the last recorded one.\<close>

definition told_status :: "risk_status option \<Rightarrow> audit_action \<Rightarrow> risk_status option" where
  "told_status st action =
     (case action of
        Act_CREATE \<Rightarrow> Some Risk_OPEN | Act_MITIGATE \<Rightarrow> Some Risk_MITIGATED | Act_ACCEPT \<Rightarrow> Some Risk_ACCEPTED
      | Act_CLOSE \<Rightarrow> Some Risk_CLOSED | Act_REOPEN \<Rightarrow> Some Risk_OPEN | _ \<Rightarrow> st)"

definition replay_risk :: "audit_entry list \<Rightarrow> string \<Rightarrow> risk_status option" where
  "replay_risk es k = foldl (\<lambda>st e.
     if entry_entity_type e = Entity_RISK \<and> entry_entity_id e = k then told_status st (entry_action e) else st)
     None es"

lemma replay_risk_nil [simp]: "replay_risk [] k = None"
  by (simp add: replay_risk_def)

lemma replay_risk_snoc: "replay_risk (es @ [e]) k =
    (if entry_entity_type e = Entity_RISK \<and> entry_entity_id e = k
     then told_status (replay_risk es k) (entry_action e) else replay_risk es k)"
  by (simp add: replay_risk_def)

definition risks_told :: "db \<Rightarrow> bool" where
  "risks_told d \<longleftrightarrow> (\<forall>k. map_option risk_status (lookup risk_id k (db_risks d)) = replay_risk (db_audit d) k)"

lemma told_written:
  "risk_written d s action \<Longrightarrow>
     told_status (map_option risk_status (lookup risk_id (risk_id s) (db_risks d))) action = Some (risk_status s)"
  by (auto simp: risk_written_def told_status_def risk_action_def split: option.splits risk_status.split)

lemma risks_told_stored: "risks_told d \<Longrightarrow> risk_stored d d' \<Longrightarrow> risks_told d'"
  unfolding risks_told_def risk_stored_def
  by (auto simp: risk_put_def replay_risk_snoc lookup_put dest!: told_written)

lemma risks_told_run: "risks_told (live w) \<Longrightarrow> risks_told (live (risk_run clk ps w))"
proof (induction ps arbitrary: w)
  case (Cons p ps)
  obtain res w' where run: "perform_risk clk p w = (res, w')" by (cases "perform_risk clk p w")
  then have "risk_outcome res w w'" by (rule perform_risk_outcome)
  with Cons.prems have "risks_told (live w')"
    by (cases res) (auto simp: risk_outcome_def dest: risks_told_stored)
  with Cons.IH run show ?case by simp
qed simp

text \<open>
  The audit trail tells the state of the risk register: starting from a database without risks and
  audit entries, after any sequence of operations, failed ones included, replaying the trail gives for
  every key the status of the stored risk, and no status for a key without a risk.
\<close>

theorem risk_register_replays:
  assumes "db_risks (live w) = []" "db_audit (live w) = []"
  shows "replay_risk (db_audit (live (risk_run clk ps w))) k
    = map_option risk_status (lookup risk_id k (db_risks (live (risk_run clk ps w))))"
proof -
  have "risks_told (live w)" using assms by (simp add: risks_told_def lookup_def)
  then show ?thesis using risks_told_run[of w clk ps] by (simp add: risks_told_def)
qed

theorem risk_register_replays_witness:
  "replay_risk (db_audit (live (risk_run (\<lambda>_. 0) [Risk_Register ''R'' ''r'' Sev_HIGH (1/2) Sev_LOW '''' '''',
       Risk_Accept ''R'', Risk_Mitigate ''R'', Risk_Close ''R''] (world_with empty_db empty_channel [])))) ''R''
   = Some Risk_CLOSED"
  by (subst risk_register_replays)
    (simp_all add: forget_run risk_register_def risk_accept_def risk_mitigate_def risk_close_def risk_change_status_def
      exec world_with_def empty_db_def mk_risk_valid is_space_def risk_put_def put_def lookup_def risk_ensure_transition_def
      RISK_TRANSITIONS_def)

text \<open>
  An operation on the risk register either raises and leaves the live and the durable database as
  they were, or commits exactly one risk with exactly one audit entry: a new open risk, a field update,
  or a status move the lifecycle allows, its probability between 0 and 1.
\<close>

theorem risk_operation_atomic:
  assumes "perform_risk clk p w = (res, w')" "depth w = 0"
  shows "case res of
      Inl _ \<Rightarrow> live w' = live w \<and> durable w' = durable w
    | Inr _ \<Rightarrow> durable w' = live w' \<and>
        (\<exists>s e. live w' = (live w)\<lparr>db_risks := put risk_id s (db_risks (live w)), db_audit := db_audit (live w) @ [e]\<rparr> \<and>
          entry_entity_id e = risk_id s \<and> 0 \<le> risk_probability s \<and> risk_probability s \<le> 1 \<and>
          (case lookup risk_id (risk_id s) (db_risks (live w)) of
             None \<Rightarrow> risk_status s = Risk_OPEN
           | Some r \<Rightarrow> risk_status s = risk_status r \<or> risk_status s \<in> set (RISK_TRANSITIONS (risk_status r))))"
proof (cases res)
  case (Inl e)
  then show ?thesis using perform_risk_outcome[OF assms(1)] by (simp add: risk_outcome_def)
next
  case (Inr u)
  then obtain s e where "live w' = risk_put s e (live w)" "entry_entity_id e = risk_id s"
      "risk_written (live w) s (entry_action e)" "durable w' = live w'"
    using perform_risk_outcome[OF assms(1)] assms(2) by (auto simp: risk_outcome_def risk_stored_def)
  then show ?thesis using Inr
    by (auto simp: risk_put_def risk_written_def intro!: exI[of _ s] exI[of _ e] split: option.splits)
qed

theorem risk_operation_atomic_witness:
  "let w' = snd (perform_risk (\<lambda>_. 0) (Risk_Register ''R'' ''r'' Sev_HIGH (1/2) Sev_LOW '''' '''')
              (world_with empty_db empty_channel [])) in
   durable w' = live w' \<and> map risk_status (db_risks (live w')) = [Risk_OPEN]"
proof -
  obtain w' where run: "perform_risk (\<lambda>_. 0) (Risk_Register ''R'' ''r'' Sev_HIGH (1/2) Sev_LOW '''' '''')
      (world_with empty_db empty_channel []) = (Inr (), w')"
    by (simp add: forget_run risk_register_def exec world_with_def empty_db_def mk_risk_valid is_space_def lookup_def)
  from risk_operation_atomic[OF this] have "durable w' = live w' \<and> map risk_status (db_risks (live w')) = [Risk_OPEN]"
    by (auto simp: world_with_def empty_db_def put_def lookup_def)
  then show ?thesis by (simp only: run Let_def snd_conv)
qed

end
