(* ===== verification/Bootstrap.thy ===== *)
theory Bootstrap
  imports Risk_Manager
begin

text \<open>
  The bootstrap reconciliation (\<open>application/architecture_bootstrap.py\<close>): every item of the canonical
  specification is created, found already present and identical, or a conflict that rolls everything back.
  The specification is injected, as in the code.
\<close>

section \<open>Specifications\<close>

datatype bootstrap_outcome = Created | Already_Present

definition bootstrap_outcome_value :: "bootstrap_outcome \<Rightarrow> string" where
  "bootstrap_outcome_value b = (case b of Created \<Rightarrow> ''created'' | Already_Present \<Rightarrow> ''already-present'')"

record adr_spec =
  spec_id :: string
  spec_title :: string
  spec_rationale :: string
  spec_decision :: string
  spec_consequences :: "string list"
  spec_related :: "string list"
  spec_provenance :: string

definition spec_context :: "adr_spec \<Rightarrow> string" where
  "spec_context s = spec_provenance s @ '' '' @ spec_rationale s"

record risk_spec =
  rspec_id :: string
  rspec_description :: string
  rspec_severity :: severity
  rspec_probability :: rat
  rspec_impact :: severity
  rspec_owner :: string
  rspec_mitigation :: string

definition version_content_matches_spec :: "architecture_version \<Rightarrow> architecture_version \<Rightarrow> bool" where
  "version_content_matches_spec v s \<longleftrightarrow>
     av_version v = av_version s \<and> av_baseline v = av_baseline s \<and> av_rules v = av_rules s"

definition version_matches_spec :: "architecture_version \<Rightarrow> architecture_version \<Rightarrow> bool" where
  "version_matches_spec v s \<longleftrightarrow> version_content_matches_spec v s \<and>
     av_superseded_by v = av_superseded_by s \<and> av_is_current v = av_is_current s"

definition adr_matches_spec :: "adr \<Rightarrow> adr_spec \<Rightarrow> bool" where
  "adr_matches_spec a s \<longleftrightarrow> adr_title a = spec_title s \<and> adr_status a = Adr_ACCEPTED \<and>
     adr_context a = spec_context s \<and> adr_decision a = spec_decision s \<and>
     adr_consequences a = spec_consequences s \<and> adr_related a = spec_related s"

definition risk_matches_spec :: "risk \<Rightarrow> risk_spec \<Rightarrow> bool" where
  "risk_matches_spec r s \<longleftrightarrow> risk_description r = rspec_description s \<and> risk_severity r = rspec_severity s \<and>
     risk_probability r = rspec_probability s \<and> risk_impact r = rspec_impact s \<and> risk_owner r = rspec_owner s \<and>
     risk_mitigation r = rspec_mitigation s \<and> risk_status r = Risk_OPEN"

section \<open>Reconciliation\<close>

text \<open>
  The loop over the ADR specifications, with the error a differing ADR raises; the bootstrap and the
  versioning service run the same loop with their own error. It tells the created and the present keys.
\<close>

definition ensure_adr :: "exn \<Rightarrow> (nat \<Rightarrow> datetime) \<Rightarrow> adr_spec \<Rightarrow> bool io" where
  "ensure_adr conflict clk s =
     bindM (get_adr (spec_id s)) (\<lambda>found. case found of
       None \<Rightarrow>
         thenM (adr_propose clk (spec_id s) (spec_title s) (spec_context s) (spec_decision s)
                  (spec_consequences s) (spec_related s))
         (thenM (adr_accept clk (spec_id s)) (returnM True))
     | Some a \<Rightarrow> if adr_matches_spec a s then returnM False else raiseM conflict)"

fun ensure_adrs :: "exn \<Rightarrow> (nat \<Rightarrow> datetime) \<Rightarrow> adr_spec list \<Rightarrow> (string list \<times> string list) io" where
  "ensure_adrs conflict clk [] = returnM ([], [])"
| "ensure_adrs conflict clk (s # ss) =
     bindM (ensure_adr conflict clk s) (\<lambda>new.
     bindM (ensure_adrs conflict clk ss) (\<lambda>(created, present).
     returnM (if new then (spec_id s # created, present) else (created, spec_id s # present))))"

definition reconcile_adrs :: "(nat \<Rightarrow> datetime) \<Rightarrow> adr_spec list \<Rightarrow> (string list \<times> string list) io" where
  "reconcile_adrs = ensure_adrs BootstrapConflictError"

definition ensure_risk :: "exn \<Rightarrow> (nat \<Rightarrow> datetime) \<Rightarrow> risk_spec \<Rightarrow> bool io" where
  "ensure_risk conflict clk s =
     bindM (get_risk (rspec_id s)) (\<lambda>found. case found of
       None \<Rightarrow>
         thenM (risk_register clk (rspec_id s) (rspec_description s) (rspec_severity s) (rspec_probability s)
                  (rspec_impact s) (rspec_owner s) (rspec_mitigation s))
         (returnM True)
     | Some r \<Rightarrow> if risk_matches_spec r s then returnM False else raiseM conflict)"

fun ensure_risks :: "exn \<Rightarrow> (nat \<Rightarrow> datetime) \<Rightarrow> risk_spec list \<Rightarrow> (string list \<times> string list) io" where
  "ensure_risks conflict clk [] = returnM ([], [])"
| "ensure_risks conflict clk (s # ss) =
     bindM (ensure_risk conflict clk s) (\<lambda>new.
     bindM (ensure_risks conflict clk ss) (\<lambda>(created, present).
     returnM (if new then (rspec_id s # created, present) else (created, rspec_id s # present))))"

definition reconcile_risks :: "(nat \<Rightarrow> datetime) \<Rightarrow> risk_spec list \<Rightarrow> (string list \<times> string list) io" where
  "reconcile_risks = ensure_risks BootstrapConflictError"

text \<open>The project factory is given by what calling it does: a project, or the error of its validation.\<close>

definition reconcile_project :: "exn + project \<Rightarrow> bootstrap_outcome io" where
  "reconcile_project factory =
     bindM list_projects (\<lambda>ps.
     bindM (liftE factory) (\<lambda>spec.
     case ps of
       [] \<Rightarrow> thenM (upsert_project spec) (returnM Created)
     | [p] \<Rightarrow> if project_name p \<noteq> project_name spec then raiseM BootstrapConflictError else returnM Already_Present
     | _ \<Rightarrow> raiseM BootstrapConflictError))"

definition reconcile_version :: "architecture_version \<Rightarrow> bootstrap_outcome io" where
  "reconcile_version spec =
     bindM list_versions (\<lambda>vs.
     bindM (get_version (av_version spec)) (\<lambda>found.
     case found of
       None \<Rightarrow>
         if filter av_is_current vs \<noteq> [] then raiseM BootstrapConflictError
         else thenM (upsert_version spec) (returnM Created)
     | Some v \<Rightarrow>
         if \<not> version_content_matches_spec v spec then raiseM BootstrapConflictError
         else if av_is_current v then
           (if filter (\<lambda>u. av_is_current u \<and> av_version u \<noteq> av_version spec) vs \<noteq> []
            then raiseM BootstrapConflictError else returnM Already_Present)
         else
           bindM (get_version (or_else (av_superseded_by v) '''')) (\<lambda>successor.
           if (case successor of None \<Rightarrow> True | Some u \<Rightarrow> \<not> av_is_current u)
           then raiseM BootstrapConflictError else returnM Already_Present)))"

record bootstrap =
  boot_version :: "exn + architecture_version"
  boot_project :: "exn + project"
  boot_adrs :: "adr_spec list"
  boot_risks :: "risk_spec list"
  boot_clock :: "nat \<Rightarrow> datetime"

record bootstrap_summary =
  sum_project :: bootstrap_outcome
  sum_version :: bootstrap_outcome
  sum_adrs_created :: "string list"
  sum_adrs_present :: "string list"
  sum_risks_created :: "string list"
  sum_risks_present :: "string list"

definition created_count :: "bootstrap_summary \<Rightarrow> nat" where
  "created_count s = (if sum_project s = Created then 1 else 0) + (if sum_version s = Created then 1 else 0)
     + length (sum_adrs_created s) + length (sum_risks_created s)"

definition bootstrap_summary_to_dict :: "bootstrap_summary \<Rightarrow> json" where
  "bootstrap_summary_to_dict s = JObj
     [(''project'', JStr (bootstrap_outcome_value (sum_project s))),
      (''architecture_version'', JStr (bootstrap_outcome_value (sum_version s))),
      (''adrs_created'', json_texts (sum_adrs_created s)),
      (''adrs_already_present'', json_texts (sum_adrs_present s)),
      (''risks_created'', json_texts (sum_risks_created s)),
      (''risks_already_present'', json_texts (sum_risks_present s)),
      (''created_count'', JInt (int (created_count s)))]"

definition seed :: "bootstrap \<Rightarrow> bootstrap_summary io" where
  "seed B =
     bindM (liftE (boot_version B)) (\<lambda>spec.
     transactionM
       (bindM (reconcile_project (boot_project B)) (\<lambda>p.
        bindM (reconcile_version spec) (\<lambda>v.
        bindM (reconcile_adrs (boot_clock B) (boot_adrs B)) (\<lambda>(ac, ap).
        bindM (reconcile_risks (boot_clock B) (boot_risks B)) (\<lambda>(rc, rp).
        returnM \<lparr>sum_project = p, sum_version = v, sum_adrs_created = ac, sum_adrs_present = ap,
                 sum_risks_created = rc, sum_risks_present = rp\<rparr>))))))"

section \<open>Runs\<close>

text \<open>Nothing stored is lost or changed; records may have been added.\<close>

definition only_adds :: "db \<Rightarrow> db \<Rightarrow> bool" where
  "only_adds d d' \<longleftrightarrow> db_projects d' = db_projects d \<and> db_versions d' = db_versions d \<and>
     db_change_requests d' = db_change_requests d \<and>
     (\<forall>k a. lookup adr_id k (db_adrs d) = Some a \<longrightarrow> lookup adr_id k (db_adrs d') = Some a) \<and>
     (\<forall>k r. lookup risk_id k (db_risks d) = Some r \<longrightarrow> lookup risk_id k (db_risks d') = Some r)"

lemma only_adds_refl [simp]: "only_adds d d"
  by (simp add: only_adds_def)

lemma only_adds_trans: "only_adds d d' \<Longrightarrow> only_adds d' d'' \<Longrightarrow> only_adds d d''"
  by (simp add: only_adds_def)

definition adrs_ready :: "adr_spec list \<Rightarrow> db \<Rightarrow> bool" where
  "adrs_ready ss d \<longleftrightarrow>
     (\<forall>s\<in>set ss. \<exists>a. lookup adr_id (spec_id s) (db_adrs d) = Some a \<and> adr_matches_spec a s)"

definition risks_ready :: "risk_spec list \<Rightarrow> db \<Rightarrow> bool" where
  "risks_ready ss d \<longleftrightarrow>
     (\<forall>s\<in>set ss. \<exists>r. lookup risk_id (rspec_id s) (db_risks d) = Some r \<and> risk_matches_spec r s)"

lemma adrs_ready_adds: "adrs_ready ss d \<Longrightarrow> only_adds d d' \<Longrightarrow> adrs_ready ss d'"
  unfolding adrs_ready_def only_adds_def by blast

lemma risks_ready_adds: "risks_ready ss d \<Longrightarrow> only_adds d d' \<Longrightarrow> risks_ready ss d'"
  unfolding risks_ready_def only_adds_def by blast

lemma adrs_ready_Cons: "adrs_ready (s # ss) d \<longleftrightarrow> adrs_ready [s] d \<and> adrs_ready ss d"
  by (simp add: adrs_ready_def)

lemma risks_ready_Cons: "risks_ready (s # ss) d \<longleftrightarrow> risks_ready [s] d \<and> risks_ready ss d"
  by (simp add: risks_ready_def)

lemma ensure_adrs_ready: "adrs_ready ss (live w) \<Longrightarrow> ensure_adrs c clk ss w = (Inr ([], map spec_id ss), w)"
proof (induction ss)
  case (Cons s ss)
  then obtain a where "lookup adr_id (spec_id s) (db_adrs (live w)) = Some a" "adr_matches_spec a s"
    by (auto simp: adrs_ready_def)
  then show ?case
    using Cons by (simp add: exec ensure_adr_def adrs_ready_Cons[of s ss])
qed (simp add: exec)

lemma ensure_risks_ready: "risks_ready ss (live w) \<Longrightarrow> ensure_risks c clk ss w = (Inr ([], map rspec_id ss), w)"
proof (induction ss)
  case (Cons s ss)
  then obtain r where "lookup risk_id (rspec_id s) (db_risks (live w)) = Some r" "risk_matches_spec r s"
    by (auto simp: risks_ready_def)
  then show ?case
    using Cons by (simp add: exec ensure_risk_def risks_ready_Cons[of s ss])
qed (simp add: exec)

lemma settle_open [simp]: "0 < depth w \<Longrightarrow> settle w = w"
  by (simp add: settle_def)

text \<open>A created ADR, inside a transaction.\<close>

definition adr_of_spec :: "adr_spec \<Rightarrow> adr_status \<Rightarrow> datetime \<Rightarrow> datetime \<Rightarrow> adr" where
  "adr_of_spec s st t u = \<lparr>adr_id = spec_id s, adr_title = spec_title s, adr_status = st, adr_context = spec_context s,
     adr_decision = spec_decision s, adr_consequences = spec_consequences s, adr_version = 1, adr_superseded_by = None,
     adr_related = spec_related s, adr_created_at = t, adr_updated_at = Some u\<rparr>"

lemma adr_of_spec_matches [simp]: "adr_matches_spec (adr_of_spec s Adr_ACCEPTED t u) s"
  by (simp add: adr_matches_spec_def adr_of_spec_def)

lemma adr_of_spec_id [simp]: "adr_id (adr_of_spec s st t u) = spec_id s"
  by (simp add: adr_of_spec_def)

lemma propose_spec_run:
  assumes "lookup adr_id (spec_id s) (db_adrs (live w)) = None" "0 < depth w"
  shows "adr_propose clk (spec_id s) (spec_title s) (spec_context s) (spec_decision s) (spec_consequences s)
      (spec_related s) w =
    (if is_blank (spec_id s) \<or> is_blank (spec_title s) then (Inl ValueError, w\<lparr>clock_reads := clock_reads w + 1\<rparr>)
     else let a = adr_of_spec s Adr_PROPOSED (clk (clock_reads w)) (clk (clock_reads w)) in
       (Inr a, w\<lparr>clock_reads := clock_reads w + 1, live := adrs_written [a] (adr_entry (spec_id s) Act_CREATE
          [(''id'', JStr (spec_id s)), (''title'', JStr (spec_title s)), (''version'', JInt 1),
           (''status'', JStr (adr_status_value Adr_PROPOSED))] (clk (clock_reads w))) (live w)\<rparr>))"
  using assms
  by (simp add: adr_propose_def exec mk_adr_def require_text_def requireE_def require_int_def require_optional_def
      adr_of_spec_def Let_def)

lemma accept_spec_run:
  assumes "lookup adr_id (spec_id s) (db_adrs (live w)) = Some (adr_of_spec s Adr_PROPOSED t u)" "0 < depth w"
    "\<not> is_blank (spec_id s)" "\<not> is_blank (spec_title s)"
  shows "adr_accept clk (spec_id s) w =
    (let a = adr_of_spec s Adr_ACCEPTED t (clk (clock_reads w)) in
       (Inr a, w\<lparr>clock_reads := clock_reads w + 1, live := adrs_written [a] (adr_entry (spec_id s) Act_ACCEPT
          [(''adr_id'', JStr (spec_id s)), (''from'', JStr (adr_status_value Adr_PROPOSED)),
           (''to'', JStr (adr_status_value Adr_ACCEPTED))] (clk (clock_reads w))) (live w)\<rparr>))"
  using assms
  by (simp add: adr_accept_def adr_change_status_def exec adr_ensure_transition_def ADR_TRANSITIONS_def mk_adr_def
      require_text_def requireE_def require_int_def require_optional_def adr_of_spec_def Let_def)


lemma only_adds_adr:
  "lookup adr_id (adr_id a) (db_adrs d) = None \<Longrightarrow> adr_id b = adr_id a \<Longrightarrow>
     only_adds d (adrs_written [b] f (adrs_written [a] e d))"
  by (auto simp: only_adds_def adrs_written_def lookup_put)

lemma ensure_adr_cases:
  assumes "ensure_adr c clk s w = (res, w')" "0 < depth w"
  shows "depth w' = depth w \<and> (case res of
      Inl e \<Rightarrow> e = c \<or> e = ValueError
    | Inr new \<Rightarrow> only_adds (live w) (live w') \<and> adrs_ready [s] (live w') \<and>
        (new \<longleftrightarrow> lookup adr_id (spec_id s) (db_adrs (live w)) = None))"
proof (cases "lookup adr_id (spec_id s) (db_adrs (live w))")
  case None
  then show ?thesis
    using assms accept_spec_run[where s = s]
    by (auto simp: ensure_adr_def exec propose_spec_run Let_def adrs_written_def lookup_put adrs_ready_def only_adds_def
        split: if_splits)
next
  case (Some a)
  then show ?thesis
    using assms by (auto simp: ensure_adr_def exec adrs_ready_def split: if_splits)
qed

lemma ensure_adrs_cases:
  assumes "ensure_adrs c clk ss w = (res, w')" "0 < depth w"
  shows "depth w' = depth w \<and> (case res of
      Inl e \<Rightarrow> e = c \<or> e = ValueError
    | Inr r \<Rightarrow> only_adds (live w) (live w') \<and> adrs_ready ss (live w'))"
  using assms
proof (induction ss arbitrary: w res w')
  case (Cons s ss)
  obtain r1 w1 where one: "ensure_adr c clk s w = (r1, w1)" by (cases "ensure_adr c clk s w")
  note c1 = ensure_adr_cases[OF one Cons.prems(2)]
  obtain r2 w2 where two: "ensure_adrs c clk ss w1 = (r2, w2)" by (cases "ensure_adrs c clk ss w1")
  note c2 = Cons.IH[OF two]
  show ?case
    using Cons.prems one two c1 c2 only_adds_trans[of "live w" "live w1" "live w2"]
      adrs_ready_adds[of "[s]" "live w1" "live w2"]
    by (cases r1; cases r2) (auto simp: exec adrs_ready_Cons[of s ss] split: if_splits)
qed (auto simp: exec adrs_ready_def)

lemma ensure_risk_cases:
  assumes "ensure_risk c clk s w = (res, w')" "0 < depth w"
  shows "depth w' = depth w \<and> (case res of
      Inl e \<Rightarrow> e = c \<or> e = ValueError
    | Inr new \<Rightarrow> only_adds (live w) (live w') \<and> risks_ready [s] (live w') \<and>
        (new \<longleftrightarrow> lookup risk_id (rspec_id s) (db_risks (live w)) = None))"
proof (cases "lookup risk_id (rspec_id s) (db_risks (live w))")
  case None
  then show ?thesis
    using assms
    by (auto simp: ensure_risk_def risk_register_def exec mk_risk_def require_text_def requireE_def require_score_def
        risks_ready_def only_adds_def risk_put_def lookup_put risk_matches_spec_def split: if_splits)
next
  case (Some a)
  then show ?thesis
    using assms by (auto simp: ensure_risk_def exec risks_ready_def split: if_splits)
qed

lemma ensure_risks_cases:
  assumes "ensure_risks c clk ss w = (res, w')" "0 < depth w"
  shows "depth w' = depth w \<and> (case res of
      Inl e \<Rightarrow> e = c \<or> e = ValueError
    | Inr r \<Rightarrow> only_adds (live w) (live w') \<and> risks_ready ss (live w'))"
  using assms
proof (induction ss arbitrary: w res w')
  case (Cons s ss)
  obtain r1 w1 where one: "ensure_risk c clk s w = (r1, w1)" by (cases "ensure_risk c clk s w")
  note c1 = ensure_risk_cases[OF one Cons.prems(2)]
  obtain r2 w2 where two: "ensure_risks c clk ss w1 = (r2, w2)" by (cases "ensure_risks c clk ss w1")
  note c2 = Cons.IH[OF two]
  show ?case
    using Cons.prems one two c1 c2 only_adds_trans[of "live w" "live w1" "live w2"]
      risks_ready_adds[of "[s]" "live w1" "live w2"]
    by (cases r1; cases r2) (auto simp: exec risks_ready_Cons[of s ss] split: if_splits)
qed (auto simp: exec risks_ready_def)


section \<open>The whole reconciliation\<close>

definition project_ready :: "exn + project \<Rightarrow> db \<Rightarrow> bool" where
  "project_ready f d \<longleftrightarrow> (\<exists>p q. f = Inr q \<and> db_projects d = [p] \<and> project_name p = project_name q)"

definition version_ready :: "architecture_version \<Rightarrow> db \<Rightarrow> bool" where
  "version_ready spec d \<longleftrightarrow> (\<exists>v. lookup av_version (av_version spec) (db_versions d) = Some v \<and>
     version_content_matches_spec v spec \<and>
     (if av_is_current v then \<forall>u\<in>set (db_versions d). av_is_current u \<longrightarrow> av_version u = av_version spec
      else \<exists>u. lookup av_version (or_else (av_superseded_by v) '''') (db_versions d) = Some u \<and> av_is_current u))"

definition seed_ready :: "bootstrap \<Rightarrow> db \<Rightarrow> bool" where
  "seed_ready B d \<longleftrightarrow> project_ready (boot_project B) d \<and>
     (\<exists>spec. boot_version B = Inr spec \<and> version_ready spec d) \<and> adrs_ready (boot_adrs B) d \<and> risks_ready (boot_risks B) d"

lemma list_projects_run [exec]: "list_projects w = (Inr (sort_key project_name (db_projects (live w))), w)"
  by (simp add: list_projects_def exec)

lemma list_versions_run [exec]: "list_versions w = (Inr (sort_key av_version (db_versions (live w))), w)"
  by (simp add: list_versions_def exec)

lemma get_version_run [exec]: "get_version k w = (Inr (lookup av_version k (db_versions (live w))), w)"
  by (simp add: get_version_def exec)

lemma filter_sort_empty: "filter P (sort_key f xs) = [] \<longleftrightarrow> (\<forall>x\<in>set xs. \<not> P x)"
  by (simp add: filter_empty_conv)

lemma project_ready_run: "project_ready f (live w) \<Longrightarrow> reconcile_project f w = (Inr Already_Present, w)"
  by (auto simp: project_ready_def reconcile_project_def exec)

lemma version_ready_run: "version_ready spec (live w) \<Longrightarrow> reconcile_version spec w = (Inr Already_Present, w)"
  by (auto simp: version_ready_def reconcile_version_def exec filter_sort_empty split: if_splits)

lemma reconcile_project_cases:
  assumes "reconcile_project f w = (res, w')" "0 < depth w"
  shows "depth w' = depth w \<and> (case res of
      Inl e \<Rightarrow> e = BootstrapConflictError \<or> f = Inl e
    | Inr _ \<Rightarrow> project_ready f (live w') \<and> (db_projects (live w) \<noteq> [] \<longrightarrow> live w' = live w) \<and>
        (\<exists>ps. live w' = (live w)\<lparr>db_projects := ps\<rparr>))"
proof (cases f)
  case (Inl e)
  then show ?thesis using assms by (auto simp: reconcile_project_def exec)
next
  case (Inr q)
  show ?thesis
  proof (cases "sort_key project_name (db_projects (live w))")
    case Nil
    then have "db_projects (live w) = []" by (metis length_0_conv length_sort)
    then show ?thesis
      using assms Inr by (auto simp: reconcile_project_def exec upsert_project_def project_ready_def put_def)
  next
    case (Cons p ps)
    then have n: "length (db_projects (live w)) = Suc (length ps)" by (metis length_Cons length_sort)
    show ?thesis
    proof (cases ps)
      case Nil
      then obtain p' where p': "db_projects (live w) = [p']" using n by (auto simp: length_Suc_conv)
      then show ?thesis
        using assms Inr by (auto simp: reconcile_project_def exec project_ready_def
            intro!: exI[of _ "db_projects (live w)"] split: if_splits)
    next
      case (Cons q' qs)
      then show ?thesis
        using assms Inr \<open>sort_key _ _ = p # ps\<close> by (auto simp: reconcile_project_def exec)
    qed
  qed
qed

lemma reconcile_version_cases:
  assumes "reconcile_version spec w = (res, w')" "0 < depth w"
  shows "depth w' = depth w \<and> (case res of
      Inl e \<Rightarrow> e = BootstrapConflictError
    | Inr _ \<Rightarrow> (av_is_current spec \<longrightarrow> version_ready spec (live w')) \<and>
        (\<exists>vs. live w' = (live w)\<lparr>db_versions := vs\<rparr> \<and>
          (vs = db_versions (live w) \<or> vs = put av_version spec (db_versions (live w)) \<and>
            lookup av_version (av_version spec) (db_versions (live w)) = None \<and>
            (\<forall>v\<in>set (db_versions (live w)). \<not> av_is_current v))))"
proof (cases "lookup av_version (av_version spec) (db_versions (live w))")
  case None
  then show ?thesis
    using assms
    by (auto simp: reconcile_version_def exec upsert_version_def version_ready_def filter_sort_empty
        version_content_matches_spec_def lookup_put set_put split: if_splits)
next
  case (Some v)
  then show ?thesis
    using assms
    by (auto simp: reconcile_version_def exec version_ready_def filter_sort_empty
        intro!: exI[of _ "db_versions (live w)"] split: if_splits option.splits)
qed


lemma scoped_case [intro]: "(\<And>a. scoped (f a)) \<Longrightarrow> scoped n \<Longrightarrow> scoped (case x of None \<Rightarrow> n | Some a \<Rightarrow> f a)"
  by (cases x) auto

lemma scoped_pair [intro]: "(\<And>a b. scoped (f a b)) \<Longrightarrow> scoped (case p of (a, b) \<Rightarrow> f a b)"
  by (cases p) auto

lemma scoped_adr_commit [intro, simp]: "scoped (adr_commit as k action detail now)"
  unfolding adr_commit_def by (intro scoped_bind scoped_transaction scoped_then scoped_for) auto

lemma scoped_adr_ops [intro, simp]:
  "scoped (adr_require k)" "scoped (adr_propose clk k title context decision cs rel)"
  "scoped (adr_change_status clk k target action)" "scoped (adr_accept clk k)" "scoped (adr_reject clk k)"
proof -
  show req: "scoped (adr_require k)" for k
    unfolding adr_require_def by (intro scoped_bind scoped_case) auto
  show "scoped (adr_propose clk k title context decision cs rel)"
    unfolding adr_propose_def by (intro scoped_bind scoped_then scoped_if) auto
  have "scoped (adr_change_status clk k target action)" for target action
    unfolding adr_change_status_def using req by (intro scoped_bind scoped_then) auto
  then show "scoped (adr_change_status clk k target action)" "scoped (adr_accept clk k)" "scoped (adr_reject clk k)"
    by (simp_all add: adr_accept_def adr_reject_def)
qed

lemma scoped_risk_ops [intro, simp]:
  "scoped (risk_commit r action detail now)"
  "scoped (risk_register clk k description sev probability impact owner mitigation)"
proof -
  show commit: "scoped (risk_commit r action detail now)" for r detail now
    unfolding risk_commit_def by (intro scoped_bind scoped_transaction scoped_then) auto
  have "scoped (risk_commit r Act_CREATE detail now)" for r detail now
    unfolding risk_commit_def by (intro scoped_bind scoped_transaction scoped_then) auto
  then show "scoped (risk_register clk k description sev probability impact owner mitigation)"
    unfolding risk_register_def by (intro scoped_bind scoped_then scoped_if) auto
qed

lemma scoped_ensure_adrs [intro, simp]: "scoped (ensure_adrs c clk ss)"
proof (induction ss)
  case (Cons s ss)
  have "scoped (ensure_adr c clk s)"
    unfolding ensure_adr_def by (intro scoped_bind scoped_case scoped_then scoped_if) auto
  with Cons show ?case by (auto intro!: scoped_bind scoped_pair)
qed simp

lemma scoped_ensure_risks [intro, simp]: "scoped (ensure_risks c clk ss)"
proof (induction ss)
  case (Cons s ss)
  have "scoped (ensure_risk c clk s)"
    unfolding ensure_risk_def by (intro scoped_bind scoped_case scoped_then scoped_if) auto
  with Cons show ?case by (auto intro!: scoped_bind scoped_pair)
qed simp

lemma scoped_reconcile [intro, simp]:
  "scoped (reconcile_project f)" "scoped (reconcile_version spec)" "scoped (reconcile_adrs clk ss)"
  "scoped (reconcile_risks clk rs)"
  unfolding reconcile_project_def reconcile_version_def reconcile_adrs_def reconcile_risks_def
  by (auto intro!: scoped_bind scoped_case scoped_then scoped_if split: list.split)

text \<open>The body of the transaction; what it establishes and what it keeps.\<close>

definition seed_body :: "bootstrap \<Rightarrow> architecture_version \<Rightarrow> bootstrap_summary io" where
  "seed_body B spec =
     bindM (reconcile_project (boot_project B)) (\<lambda>p.
     bindM (reconcile_version spec) (\<lambda>v.
     bindM (reconcile_adrs (boot_clock B) (boot_adrs B)) (\<lambda>(ac, ap).
     bindM (reconcile_risks (boot_clock B) (boot_risks B)) (\<lambda>(rc, rp).
     returnM \<lparr>sum_project = p, sum_version = v, sum_adrs_created = ac, sum_adrs_present = ap,
              sum_risks_created = rc, sum_risks_present = rp\<rparr>))))"

lemma seed_unfold: "seed B = bindM (liftE (boot_version B)) (\<lambda>spec. transactionM (seed_body B spec))"
  by (simp add: seed_def seed_body_def)

lemma scoped_seed_body [intro, simp]: "scoped (seed_body B spec)"
  unfolding seed_body_def by (intro scoped_bind scoped_pair) auto

definition overwrites_nothing :: "db \<Rightarrow> db \<Rightarrow> bool" where
  "overwrites_nothing d d' \<longleftrightarrow> (db_projects d \<noteq> [] \<longrightarrow> db_projects d' = db_projects d) \<and>
     (\<forall>k v. lookup av_version k (db_versions d) = Some v \<longrightarrow> lookup av_version k (db_versions d') = Some v) \<and>
     (\<forall>k a. lookup adr_id k (db_adrs d) = Some a \<longrightarrow> lookup adr_id k (db_adrs d') = Some a) \<and>
     (\<forall>k r. lookup risk_id k (db_risks d) = Some r \<longrightarrow> lookup risk_id k (db_risks d') = Some r)"

lemma version_ready_cong: "db_versions d' = db_versions d \<Longrightarrow> version_ready spec d' = version_ready spec d"
  by (simp only: version_ready_def)

lemma project_ready_cong: "db_projects d' = db_projects d \<Longrightarrow> project_ready f d' = project_ready f d"
  by (simp only: project_ready_def)

lemma seed_body_success:
  assumes "seed_body B spec w = (Inr s, w')" "0 < depth w"
  shows "overwrites_nothing (live w) (live w')" "project_ready (boot_project B) (live w')"
    "av_is_current spec \<Longrightarrow> version_ready spec (live w')"
    "adrs_ready (boot_adrs B) (live w')" "risks_ready (boot_risks B) (live w')"
proof -
  from assms(1) obtain p w1 v w2 a w3 r where runs: "reconcile_project (boot_project B) w = (Inr p, w1)"
      "reconcile_version spec w1 = (Inr v, w2)"
      "ensure_adrs BootstrapConflictError (boot_clock B) (boot_adrs B) w2 = (Inr a, w3)"
      "ensure_risks BootstrapConflictError (boot_clock B) (boot_risks B) w3 = (Inr r, w')"
    by (auto simp: seed_body_def bindM_Inr_iff reconcile_adrs_def reconcile_risks_def returnM_def split: prod.splits)
  note c1 = reconcile_project_cases[OF runs(1) assms(2)]
  have d1: "0 < depth w1" using c1 assms(2) by simp
  note c2 = reconcile_version_cases[OF runs(2) d1]
  have d2: "0 < depth w2" using c2 d1 by simp
  note c3 = ensure_adrs_cases[OF runs(3) d2]
  have d3: "0 < depth w3" using c3 d2 by simp
  note c4 = ensure_risks_cases[OF runs(4) d3]
  have k: "only_adds (live w2) (live w')" using c3 c4 by (auto intro: only_adds_trans[of "live w2" "live w3"])
  have ps: "db_projects (live w') = db_projects (live w1)" using c2 k by (auto simp: only_adds_def)
  have old: "db_projects (live w) \<noteq> [] \<Longrightarrow> db_projects (live w') = db_projects (live w)" using c1 ps by simp
  from c1 have rest: "db_versions (live w1) = db_versions (live w)" "db_adrs (live w1) = db_adrs (live w)"
      "db_risks (live w1) = db_risks (live w)"
    by auto
  show "overwrites_nothing (live w) (live w')"
    using old k c2 rest by (auto simp: overwrites_nothing_def only_adds_def lookup_put)
  show "project_ready (boot_project B) (live w')" using c1 ps by (simp add: project_ready_cong[of "live w'" "live w1"])
  show "version_ready spec (live w')" if "av_is_current spec"
    using c2 k that version_ready_cong[of "live w'" "live w2"] by (auto simp: only_adds_def)
  show "adrs_ready (boot_adrs B) (live w')" using c3 c4 by (auto intro: adrs_ready_adds[of _ "live w3"])
  show "risks_ready (boot_risks B) (live w')" using c4 by simp
qed

lemma seed_body_ready:
  assumes "project_ready (boot_project B) (live w)" "version_ready spec (live w)"
    "adrs_ready (boot_adrs B) (live w)" "risks_ready (boot_risks B) (live w)"
  shows "\<exists>s. seed_body B spec w = (Inr s, w) \<and> created_count s = 0"
  by (simp add: seed_body_def exec project_ready_run[OF assms(1)] version_ready_run[OF assms(2)] reconcile_adrs_def
      ensure_adrs_ready[OF assms(3)] reconcile_risks_def ensure_risks_ready[OF assms(4)] created_count_def)

lemma kept_iff: "(\<forall>a. x = Some a \<longrightarrow> y = Some a) \<longleftrightarrow> x = None \<or> x = y"
  by (cases x) auto

text \<open>A run of \<open>seed\<close> from rest, by the outcome of its body.\<close>

lemma seed_idle_cases:
  assumes "idle w" "seed B w = (res, w')"
  obtains (failed) e where "res = Inl e" "live w' = durable w" "durable w' = durable w" "depth w' = 0"
    | (finished) s spec u where "res = Inr s" "boot_version B = Inr spec" "seed_body B spec (w\<lparr>depth := 1\<rparr>) = (Inr s, u)"
        "w' = commit (u\<lparr>depth := 0\<rparr>)"
proof (cases "boot_version B")
  case (Inl e)
  then show thesis using assms by (intro failed[of e]) (auto simp: seed_unfold exec idle_def)
next
  case (Inr spec)
  obtain r u where u: "seed_body B spec (w\<lparr>depth := 1\<rparr>) = (r, u)" "durable u = durable w"
      "transactionM (seed_body B spec) w = (r, case r of Inl e \<Rightarrow> u\<lparr>live := durable w, depth := 0\<rparr>
                                                      | Inr a \<Rightarrow> commit (u\<lparr>depth := 0\<rparr>))"
    by (rule transaction_idle[OF assms(1) scoped_seed_body])
  show thesis
  proof (cases r)
    case (Inl e)
    then show thesis using assms Inr u by (intro failed[of e]) (auto simp: seed_unfold exec)
  next
    case (Inr s)
    then show thesis using assms \<open>boot_version B = Inr spec\<close> u
      by (intro finished[of s spec u]) (auto simp: seed_unfold exec)
  qed
qed

lemma seed_all_or_nothing_idle: "idle w \<Longrightarrow> seed B w = (res, w') \<Longrightarrow> idle w'"
  by (erule (1) seed_idle_cases) (auto simp: idle_def)

definition demo_bootstrap :: bootstrap where
  "demo_bootstrap = \<lparr>
     boot_version = Inr \<lparr>av_version = ''1'', av_baseline = ''b'', av_rules = [''r''], av_superseded_by = None,
       av_is_current = True, av_created_at = 0\<rparr>,
     boot_project = Inr \<lparr>project_name = ''p'', project_plan_version = ''0'', project_plan_hash = '''', project_mode = Mode_MANUAL,
       project_paused = False, project_current_step_no_snapshot = None, project_created_at = 0, project_updated_at = 0\<rparr>,
     boot_adrs = [\<lparr>spec_id = ''A'', spec_title = ''t'', spec_rationale = '''', spec_decision = '''', spec_consequences = [],
       spec_related = [], spec_provenance = ''''\<rparr>],
     boot_risks = [\<lparr>rspec_id = ''R'', rspec_description = ''d'', rspec_severity = Sev_LOW, rspec_probability = 1 / 2,
       rspec_impact = Sev_LOW, rspec_owner = '''', rspec_mitigation = ''''\<rparr>],
     boot_clock = (\<lambda>_. 0)\<rparr>"

text \<open>
  The bootstrap is all or nothing: started at rest it ends at rest, and if it raises, the database is
  the one it found; if it returns, everything it wrote is committed, and no stored project, baseline, ADR or
  risk has been changed.
\<close>

theorem seed_all_or_nothing:
  assumes "idle w" "seed B w = (res, w')"
  shows "idle w' \<and> (case res of
      Inl _ \<Rightarrow> durable w' = durable w
    | Inr _ \<Rightarrow> (db_projects (durable w) = [] \<or> db_projects (durable w') = db_projects (durable w)) \<and>
        (\<forall>k. lookup av_version k (db_versions (durable w)) \<in> {None, lookup av_version k (db_versions (durable w'))}) \<and>
        (\<forall>k. lookup adr_id k (db_adrs (durable w)) \<in> {None, lookup adr_id k (db_adrs (durable w'))}) \<and>
        (\<forall>k. lookup risk_id k (db_risks (durable w)) \<in> {None, lookup risk_id k (db_risks (durable w'))}))"
  using assms
proof (cases rule: seed_idle_cases)
  case (failed e)
  then show ?thesis by (simp add: idle_def)
next
  case (finished s spec u)
  have "overwrites_nothing (live w) (live u)" using seed_body_success(1)[OF finished(3)] by simp
  then show ?thesis
    using finished assms(1) by (simp add: idle_def overwrites_nothing_def kept_iff) blast
qed

theorem seed_all_or_nothing_witness:
  "idle (snd (seed demo_bootstrap (world_with empty_db empty_channel []))) \<and>
   durable (snd (seed (demo_bootstrap\<lparr>boot_project := Inl ValueError\<rparr>) (world_with empty_db empty_channel []))) = empty_db"
proof -
  let ?w = "world_with empty_db empty_channel []"
  have idle: "idle ?w" by (simp add: idle_def world_with_def)
  obtain r w' where good: "seed demo_bootstrap ?w = (r, w')" by fastforce
  obtain w'' where bad: "seed (demo_bootstrap\<lparr>boot_project := Inl ValueError\<rparr>) ?w = (Inl ValueError, w'')"
    by (simp add: seed_unfold seed_body_def exec transactionM_def reconcile_project_def demo_bootstrap_def world_with_def)
  from seed_all_or_nothing[OF idle good] seed_all_or_nothing[OF idle bad] show ?thesis
    by (simp add: good bad) (simp add: world_with_def)
qed

text \<open>
  C29: The bootstrap is idempotent: once it has succeeded with a current canonical baseline, running it
  again, after a restart too, succeeds, creates nothing and leaves the committed database as it is.
\<close>

theorem seed_idempotent:
  assumes "idle w" "seed B w = (Inr s, w')" "boot_version B = Inr spec" "av_is_current spec"
    and "idle v" "durable v = durable w'"
  shows "\<exists>s' v'. seed B v = (Inr s', v') \<and> created_count s' = 0 \<and> durable v' = durable w' \<and> idle v'"
  using assms(1,2)
proof (cases rule: seed_idle_cases)
  case (finished s0 spec0 u)
  then have spec: "spec0 = spec" using assms(3) by simp
  note ready = seed_body_success(2-)[OF finished(3)[unfolded spec]]
  have live: "live (v\<lparr>depth := 1\<rparr>) = live u" using assms(5,6) finished(4) by (simp add: idle_def)
  obtain s' where "seed_body B spec (v\<lparr>depth := 1\<rparr>) = (Inr s', v\<lparr>depth := 1\<rparr>)" "created_count s' = 0"
    using seed_body_ready[of B "v\<lparr>depth := 1\<rparr>" spec, unfolded live] ready assms(4) by auto
  then show ?thesis
    using assms(3,5,6) finished(4) live by (simp add: seed_unfold exec transactionM_def idle_def)
qed simp

theorem seed_idempotent_witness:
  "let w' = snd (seed demo_bootstrap (world_with empty_db empty_channel [])) in
   length (db_adrs (durable w')) = 1 \<and> (\<exists>s' v'. seed demo_bootstrap w' = (Inr s', v') \<and> created_count s' = 0 \<and> durable v' = durable w')"
proof -
  let ?w = "world_with empty_db empty_channel []"
  have idle: "idle ?w" by (simp add: idle_def world_with_def)
  have "(case fst (seed demo_bootstrap ?w) of Inl _ \<Rightarrow> False | Inr _ \<Rightarrow> True) \<and>
      length (db_adrs (durable (snd (seed demo_bootstrap ?w)))) = 1"
    by code_simp
  moreover obtain r w' where run: "seed demo_bootstrap ?w = (r, w')" by fastforce
  ultimately obtain s where s: "r = Inr s" "length (db_adrs (durable w')) = 1" by (auto split: sum.splits)
  have "idle w'" using seed_all_or_nothing_idle[OF idle run] by simp
  from seed_idempotent[OF idle run[unfolded s] _ _ this] show ?thesis
    using s run by (auto simp: demo_bootstrap_def Let_def)
qed

end
