(* ===== verification/Evolution.thy ===== *)
theory Evolution
  imports Bootstrap
begin

text \<open>
  Versioned baselines (\<open>application/architecture_versioning.py\<close>) and the change-request lifecycle that
  drives them (\<open>application/architecture_evolution.py\<close>): propose, approve, reject and apply, each in one
  transaction, over the canonical baselines the composition root declares.
\<close>

section \<open>Introducing a baseline\<close>

record versioning =
  vs_clock :: "nat \<Rightarrow> datetime"
  vs_adrs :: "adr_spec list"

record versioning_summary =
  vsum_outcome :: bootstrap_outcome
  vsum_version :: string
  vsum_superseded :: "string option"
  vsum_adrs_created :: "string list"
  vsum_adrs_present :: "string list"

definition versioning_summary_to_dict :: "versioning_summary \<Rightarrow> json" where
  "versioning_summary_to_dict s = JObj
     [(''version_outcome'', JStr (bootstrap_outcome_value (vsum_outcome s))),
      (''version'', JStr (vsum_version s)),
      (''superseded'', json_opt JStr (vsum_superseded s)),
      (''adrs_created'', json_texts (vsum_adrs_created s)),
      (''adrs_already_present'', json_texts (vsum_adrs_present s))]"

definition validate_introduction :: "architecture_version \<Rightarrow> string option \<Rightarrow> exn + unit" where
  "validate_introduction spec supersedes =
     bindE (requireE (av_is_current spec) ValueError) (\<lambda>_.
     requireE (supersedes \<noteq> Some (av_version spec)) ValueError)"

definition already_present ::
  "architecture_version \<Rightarrow> architecture_version \<Rightarrow> string option \<Rightarrow> bootstrap_outcome io" where
  "already_present v spec supersedes =
     (if \<not> version_matches_spec v spec then raiseM ArchitectureVersioningConflictError
      else case supersedes of
        None \<Rightarrow> returnM Already_Present
      | Some old \<Rightarrow>
          bindM (get_version old) (\<lambda>found. case found of
            None \<Rightarrow> raiseM ArchitectureVersioningConflictError
          | Some p \<Rightarrow>
              if av_superseded_by p \<noteq> Some (av_version spec) \<or> av_is_current p
              then raiseM ArchitectureVersioningConflictError else returnM Already_Present))"

definition roll_over :: "architecture_version \<Rightarrow> string option \<Rightarrow> bootstrap_outcome io" where
  "roll_over spec supersedes =
     bindM (get_version (av_version spec)) (\<lambda>found. case found of
       Some v \<Rightarrow> already_present v spec supersedes
     | None \<Rightarrow>
         (case supersedes of
            None \<Rightarrow>
              bindM list_versions (\<lambda>vs.
              if filter av_is_current vs \<noteq> [] then raiseM ArchitectureVersioningConflictError
              else thenM (upsert_version spec) (returnM Created))
          | Some old \<Rightarrow>
              bindM (get_version old) (\<lambda>pred. case pred of
                None \<Rightarrow> raiseM ArchitectureVersioningConflictError
              | Some p \<Rightarrow>
                  if av_superseded_by p \<noteq> None then raiseM ArchitectureVersioningConflictError
                  else if \<not> av_is_current p then raiseM ArchitectureVersioningConflictError
                  else
                    bindM (liftE (mk_architecture_version
                      (p\<lparr>av_is_current := False, av_superseded_by := Some (av_version spec)\<rparr>))) (\<lambda>retired.
                    thenM (upsert_version retired) (thenM (upsert_version spec) (returnM Created))))))"

definition versioning_ensure_adrs :: "versioning \<Rightarrow> (string list \<times> string list) io" where
  "versioning_ensure_adrs V = ensure_adrs ArchitectureVersioningConflictError (vs_clock V) (vs_adrs V)"

definition introduce :: "versioning \<Rightarrow> architecture_version \<Rightarrow> string option \<Rightarrow> versioning_summary io" where
  "introduce V spec supersedes =
     thenM (liftE (validate_introduction spec supersedes))
     (bindM (transactionM
        (bindM (roll_over spec supersedes) (\<lambda>out.
         bindM (versioning_ensure_adrs V) (\<lambda>adrs. returnM (out, adrs))))) (\<lambda>(out, created, present).
      returnM \<lparr>vsum_outcome = out, vsum_version = av_version spec, vsum_superseded = supersedes,
               vsum_adrs_created = created, vsum_adrs_present = present\<rparr>))"

section \<open>The change-request lifecycle\<close>

record evolution =
  ev_canonical :: "string \<Rightarrow> architecture_version option"
  ev_risks :: "string \<Rightarrow> risk_spec list"
  ev_clock :: "nat \<Rightarrow> datetime"
  ev_versioning :: versioning

record evolution_summary =
  esum_request :: change_request
  esum_outcome :: bootstrap_outcome
  esum_version_outcome :: "bootstrap_outcome option"
  esum_risks_created :: "string list"
  esum_version_summary :: "versioning_summary option"

text \<open>The summary holds six fields of the request; the record holds the request.\<close>

definition evolution_summary_to_dict :: "evolution_summary \<Rightarrow> json" where
  "evolution_summary_to_dict s = JObj
     [(''request_id'', JStr (acr_request_id (esum_request s))),
      (''status'', JStr (acr_status_value (acr_status (esum_request s)))),
      (''source_version'', JStr (acr_source_version (esum_request s))),
      (''target_version'', JStr (acr_target_version (esum_request s))),
      (''adr_id'', JStr (acr_adr_id (esum_request s))),
      (''outcome'', JStr (bootstrap_outcome_value (esum_outcome s))),
      (''version_outcome'', json_opt (\<lambda>b. JStr (bootstrap_outcome_value b)) (esum_version_outcome s)),
      (''risks_created'', json_texts (esum_risks_created s)),
      (''roadmap_impact'', json_texts (acr_roadmap_impact (esum_request s))),
      (''version_summary'', json_opt versioning_summary_to_dict (esum_version_summary s))]"

definition summary_applied :: "evolution_summary \<Rightarrow> bool" where
  "summary_applied s \<longleftrightarrow> acr_status (esum_request s) = Acr_APPLIED"

definition plain_summary :: "change_request \<Rightarrow> bootstrap_outcome \<Rightarrow> evolution_summary" where
  "plain_summary r out = \<lparr>esum_request = r, esum_outcome = out, esum_version_outcome = None,
     esum_risks_created = [], esum_version_summary = None\<rparr>"

definition request_content_matches :: "change_request \<Rightarrow> change_request \<Rightarrow> bool" where
  "request_content_matches r s \<longleftrightarrow> acr_request_id r = acr_request_id s \<and> acr_title r = acr_title s \<and>
     acr_rationale r = acr_rationale s \<and> acr_source_version r = acr_source_version s \<and>
     acr_target_version r = acr_target_version s \<and> acr_rule_ids r = acr_rule_ids s \<and>
     acr_adr_id r = acr_adr_id s \<and> acr_roadmap_impact r = acr_roadmap_impact s"

definition adr_content_matches :: "adr \<Rightarrow> adr_spec \<Rightarrow> bool" where
  "adr_content_matches a s \<longleftrightarrow> adr_title a = spec_title s \<and> adr_context a = spec_context s \<and>
     adr_decision a = spec_decision s \<and> adr_consequences a = spec_consequences s \<and> adr_related a = spec_related s"

definition require_request :: "string \<Rightarrow> change_request io" where
  "require_request k =
     (if is_blank k then raiseM ValueError
      else bindM (get_request k) (\<lambda>found. case found of
        None \<Rightarrow> raiseM ArchitectureEvolutionNotFoundError | Some r \<Rightarrow> returnM r))"

definition evolution_audit :: "evolution \<Rightarrow> change_request \<Rightarrow> audit_action \<Rightarrow> mapping \<Rightarrow> unit io" where
  "evolution_audit E r action detail =
     bindM (clockM (ev_clock E)) (\<lambda>now.
     bindM (liftE (mk_audit_entry \<lparr>entry_entity_type = Entity_ACR, entry_entity_id = acr_request_id r,
       entry_action = action, entry_detail = detail, entry_created_at = now\<rparr>)) append_audit)"

definition require_linked_adr :: "string \<Rightarrow> adr io" where
  "require_linked_adr k =
     bindM (get_adr k) (\<lambda>found. case found of
       None \<Rightarrow> raiseM ArchitectureEvolutionConflictError | Some a \<Rightarrow> returnM a)"

definition verify_linked_adr :: "string \<Rightarrow> adr_spec \<Rightarrow> adr io" where
  "verify_linked_adr k s =
     bindM (require_linked_adr k) (\<lambda>a.
     if \<not> adr_content_matches a s then raiseM ArchitectureEvolutionConflictError
     else if adr_status a = Adr_REJECTED \<or> adr_status a = Adr_SUPERSEDED then raiseM ArchitectureEvolutionConflictError
     else returnM a)"

definition ensure_adr_proposed :: "evolution \<Rightarrow> adr_spec \<Rightarrow> unit io" where
  "ensure_adr_proposed E s =
     bindM (get_adr (spec_id s)) (\<lambda>found.
     if found = None
     then forget (adr_propose (ev_clock E) (spec_id s) (spec_title s) (spec_context s) (spec_decision s)
                    (spec_consequences s) (spec_related s))
     else forget (verify_linked_adr (spec_id s) s))"

definition accept_linked_adr :: "evolution \<Rightarrow> string \<Rightarrow> unit io" where
  "accept_linked_adr E k =
     bindM (require_linked_adr k) (\<lambda>a.
     if adr_status a = Adr_PROPOSED then forget (adr_accept (ev_clock E) k)
     else if adr_status a \<noteq> Adr_ACCEPTED then raiseM ArchitectureEvolutionConflictError
     else returnM ())"

definition reject_linked_adr :: "evolution \<Rightarrow> string \<Rightarrow> unit io" where
  "reject_linked_adr E k =
     bindM (require_linked_adr k) (\<lambda>a.
     if adr_status a = Adr_REJECTED then returnM ()
     else if adr_status a \<noteq> Adr_PROPOSED then raiseM ArchitectureEvolutionConflictError
     else forget (adr_reject (ev_clock E) k))"

definition require_accepted_adr :: "string \<Rightarrow> adr io" where
  "require_accepted_adr k =
     bindM (require_linked_adr k) (\<lambda>a.
     if adr_status a \<noteq> Adr_ACCEPTED then raiseM ArchitectureEvolutionNotApprovedError else returnM a)"

definition require_single_current :: "architecture_version io" where
  "require_single_current =
     bindM list_versions (\<lambda>vs.
     case filter av_is_current vs of
       [v] \<Rightarrow> returnM v
     | _ \<Rightarrow> raiseM ArchitectureEvolutionConflictError)"

definition assert_single_current :: "string \<Rightarrow> unit io" where
  "assert_single_current expected =
     bindM require_single_current (\<lambda>v.
     if av_version v \<noteq> expected then raiseM ArchitectureEvolutionConflictError else returnM ())"

definition evolution_introduce :: "evolution \<Rightarrow> architecture_version \<Rightarrow> string \<Rightarrow> versioning_summary io" where
  "evolution_introduce E spec source =
     catchM (introduce (ev_versioning E) spec (Some source)) (\<lambda>e.
       if e = ArchitectureVersioningConflictError then raiseM ArchitectureEvolutionConflictError else raiseM e)"

definition verify_applied :: "evolution \<Rightarrow> change_request \<Rightarrow> architecture_version \<Rightarrow> versioning_summary io" where
  "verify_applied E r spec =
     thenM (assert_single_current (acr_target_version r))
     (bindM (get_version (acr_source_version r)) (\<lambda>source.
      if (case source of None \<Rightarrow> True | Some v \<Rightarrow> av_superseded_by v \<noteq> Some (acr_target_version r))
      then raiseM ArchitectureEvolutionConflictError
      else
        bindM (evolution_introduce E spec (acr_source_version r)) (\<lambda>version.
        if vsum_outcome version \<noteq> Already_Present then raiseM ArchitectureEvolutionConflictError
        else returnM version)))"

definition register_declared_risks :: "evolution \<Rightarrow> string \<Rightarrow> string list io" where
  "register_declared_risks E k =
     bindM (ensure_risks ArchitectureEvolutionConflictError (ev_clock E) (ev_risks E k)) (\<lambda>(created, present).
     returnM created)"

definition list_requests :: "change_request list io" where
  "list_requests = getsM (\<lambda>w. sort_key (\<lambda>r. (acr_created_at r, acr_request_id r)) (db_change_requests (live w)))"

definition list_requests_by_status :: "acr_status \<Rightarrow> change_request list io" where
  "list_requests_by_status st =
     getsM (\<lambda>w. sort_key (\<lambda>r. (acr_created_at r, acr_request_id r)) (filter (\<lambda>r. acr_status r = st) (db_change_requests (live w))))"

definition evolution_pending :: "change_request list io" where
  "evolution_pending = list_requests_by_status Acr_PROPOSED"

definition evolution_approved :: "change_request list io" where
  "evolution_approved = list_requests_by_status Acr_APPROVED"

definition evolution_applied :: "change_request list io" where
  "evolution_applied = list_requests_by_status Acr_APPLIED"

definition evolution_rejected :: "change_request list io" where
  "evolution_rejected = list_requests_by_status Acr_REJECTED"

definition evolution_history :: "change_request list io" where
  "evolution_history = list_requests"

definition evolution_linked :: "string \<Rightarrow> (change_request \<times> adr option \<times> architecture_version option) io" where
  "evolution_linked k =
     bindM (require_request k) (\<lambda>r.
     bindM (get_adr (acr_adr_id r)) (\<lambda>a.
     bindM (get_version (acr_target_version r)) (\<lambda>v.
     returnM (r, a, v))))"

definition evolution_propose :: "evolution \<Rightarrow> change_request \<Rightarrow> adr_spec \<Rightarrow> evolution_summary io" where
  "evolution_propose E r s =
     (if acr_status r \<noteq> Acr_PROPOSED then raiseM ValueError
      else if acr_adr_id r \<noteq> spec_id s then raiseM ArchitectureEvolutionConflictError
      else
        bindM (get_request (acr_request_id r)) (\<lambda>found. case found of
          Some q \<Rightarrow>
            if \<not> request_content_matches q r then raiseM ArchitectureEvolutionConflictError
            else thenM (verify_linked_adr (acr_adr_id q) s) (returnM (plain_summary q Already_Present))
        | None \<Rightarrow>
            thenM (transactionM
              (thenM (upsert_request r)
              (thenM (evolution_audit E r Act_CREATE
                [(''status_from'', JNull), (''status_to'', JStr (acr_status_value (acr_status r))),
                 (''source_version'', JStr (acr_source_version r)), (''target_version'', JStr (acr_target_version r)),
                 (''adr_id'', JStr (acr_adr_id r)), (''rule_ids'', json_texts (acr_rule_ids r)),
                 (''roadmap_impact'', json_texts (acr_roadmap_impact r))])
              (ensure_adr_proposed E s))))
            (returnM (plain_summary r Created))))"

definition evolution_approve :: "evolution \<Rightarrow> string \<Rightarrow> string \<Rightarrow> evolution_summary io" where
  "evolution_approve E k approved_by =
     (if is_blank approved_by then raiseM ValueError
      else
        bindM (require_request k) (\<lambda>r.
        if acr_status r = Acr_APPLIED then returnM (plain_summary r Already_Present)
        else if acr_status r = Acr_REJECTED then raiseM ArchitectureEvolutionConflictError
        else if acr_status r = Acr_APPROVED then
          (if acr_approved_by r = Some approved_by then returnM (plain_summary r Already_Present)
           else raiseM ArchitectureEvolutionConflictError)
        else
          bindM (clockM (ev_clock E)) (\<lambda>now.
          bindM (liftE (mk_change_request (r\<lparr>acr_status := Acr_APPROVED, acr_approved_by := Some approved_by,
                   acr_approved_at := Some now\<rparr>))) (\<lambda>a.
          thenM (transactionM
            (thenM (upsert_request a)
            (thenM (accept_linked_adr E (acr_adr_id r))
            (evolution_audit E a Act_UPDATE
              [(''status_from'', JStr (acr_status_value (acr_status r))),
               (''status_to'', JStr (acr_status_value (acr_status a))), (''adr_id'', JStr (acr_adr_id r)),
               (''approved_by'', JStr approved_by), (''approved_at'', JTime now)]))))
          (returnM (plain_summary a Created))))))"

definition evolution_reject :: "evolution \<Rightarrow> string \<Rightarrow> string \<Rightarrow> evolution_summary io" where
  "evolution_reject E k reason =
     (if is_blank reason then raiseM ValueError
      else
        bindM (require_request k) (\<lambda>r.
        if acr_status r = Acr_REJECTED then returnM (plain_summary r Already_Present)
        else if acr_status r \<noteq> Acr_PROPOSED then raiseM ArchitectureEvolutionConflictError
        else
          bindM (liftE (mk_change_request (r\<lparr>acr_status := Acr_REJECTED\<rparr>))) (\<lambda>j.
          thenM (transactionM
            (thenM (upsert_request j)
            (thenM (reject_linked_adr E (acr_adr_id r))
            (evolution_audit E j Act_UPDATE
              [(''status_from'', JStr (acr_status_value (acr_status r))),
               (''status_to'', JStr (acr_status_value (acr_status j))), (''adr_id'', JStr (acr_adr_id r)),
               (''reason'', JStr reason)]))))
          (returnM (plain_summary j Created)))))"

text \<open>The transaction of \<open>apply\<close>, run for an approved request only.\<close>

definition apply_approved ::
  "evolution \<Rightarrow> change_request \<Rightarrow> architecture_version \<Rightarrow> datetime \<Rightarrow> evolution_summary io" where
  "apply_approved E r spec now =
     transactionM
       (thenM require_single_current
       (bindM (evolution_introduce E spec (acr_source_version r)) (\<lambda>version.
        bindM (register_declared_risks E (acr_request_id r)) (\<lambda>risks.
        bindM (liftE (mk_change_request (r\<lparr>acr_status := Acr_APPLIED, acr_applied_at := Some now\<rparr>))) (\<lambda>a.
        thenM (upsert_request a)
        (thenM (evolution_audit E a Act_UPDATE
          [(''status_from'', JStr (acr_status_value (acr_status r))),
           (''status_to'', JStr (acr_status_value (acr_status a))), (''adr_id'', JStr (acr_adr_id r)),
           (''applied_at'', JTime now), (''source_version'', JStr (acr_source_version r)),
           (''target_version'', JStr (acr_target_version r)), (''rules'', json_texts (acr_rule_ids r)),
           (''risks_created'', json_texts risks)])
        (thenM (assert_single_current (acr_target_version r))
        (returnM \<lparr>esum_request = a, esum_outcome = Created, esum_version_outcome = Some (vsum_outcome version),
                  esum_risks_created = risks, esum_version_summary = Some version\<rparr>))))))))"

definition evolution_apply :: "evolution \<Rightarrow> string \<Rightarrow> evolution_summary io" where
  "evolution_apply E k =
     bindM (require_request k) (\<lambda>r.
     if acr_status r = Acr_REJECTED then raiseM ArchitectureEvolutionNotApprovedError
     else if acr_status r \<noteq> Acr_APPROVED \<and> acr_status r \<noteq> Acr_APPLIED then raiseM ArchitectureEvolutionNotApprovedError
     else
       (case ev_canonical E (acr_target_version r) of
          None \<Rightarrow> raiseM ArchitectureEvolutionConflictError
        | Some canonical \<Rightarrow>
            if acr_rule_ids r \<noteq> av_rules canonical then raiseM ArchitectureEvolutionConflictError
            else
              thenM (require_accepted_adr (acr_adr_id r))
              (bindM (clockM (ev_clock E)) (\<lambda>now.
               bindM (liftE (mk_architecture_version
                 \<lparr>av_version = acr_target_version r, av_baseline = av_baseline canonical, av_rules = av_rules canonical,
                  av_superseded_by = None, av_is_current = True, av_created_at = now\<rparr>)) (\<lambda>spec.
               if acr_status r = Acr_APPLIED then
                 bindM (verify_applied E r spec) (\<lambda>version.
                 returnM \<lparr>esum_request = r, esum_outcome = Already_Present,
                          esum_version_outcome = Some (vsum_outcome version), esum_risks_created = [],
                          esum_version_summary = Some version\<rparr>)
               else apply_approved E r spec now)))))"


section \<open>What the parts of an operation may write\<close>

text \<open>
  Only ADRs, risks and audit entries, and of these no risk that is stored and no ADR that has left PROPOSED:
  the frame of every call of the two managers inside a transaction.
\<close>

definition settled_kept :: "db \<Rightarrow> db \<Rightarrow> bool" where
  "settled_kept d d' \<longleftrightarrow>
     (\<forall>k a. lookup adr_id k (db_adrs d) = Some a \<longrightarrow> adr_status a \<noteq> Adr_PROPOSED \<longrightarrow>
        lookup adr_id k (db_adrs d') = Some a) \<and>
     (\<forall>k r. lookup risk_id k (db_risks d) = Some r \<longrightarrow> lookup risk_id k (db_risks d') = Some r)"

lemma settled_kept_refl: "db_adrs d' = db_adrs d \<Longrightarrow> db_risks d' = db_risks d \<Longrightarrow> settled_kept d d'"
  by (simp add: settled_kept_def)

lemma settled_kept_trans: "settled_kept d d' \<Longrightarrow> settled_kept d' d'' \<Longrightarrow> settled_kept d d''"
  unfolding settled_kept_def by metis

lemma adds_settled: "only_adds d d' \<Longrightarrow> settled_kept d d'"
  by (simp add: only_adds_def settled_kept_def)

definition records_only :: "db \<Rightarrow> db \<Rightarrow> bool" where
  "records_only d d' \<longleftrightarrow> db_projects d' = db_projects d \<and> db_steps d' = db_steps d \<and> db_tasks d' = db_tasks d \<and>
     db_versions d' = db_versions d \<and> db_change_requests d' = db_change_requests d \<and>
     db_findings d' = db_findings d \<and> db_decisions d' = db_decisions d \<and> settled_kept d d'"

lemma records_only_refl [simp]: "records_only d d"
  by (simp add: records_only_def settled_kept_refl)

lemma records_only_trans: "records_only d d' \<Longrightarrow> records_only d' d'' \<Longrightarrow> records_only d d''"
  using settled_kept_trans[of d d' d''] by (simp add: records_only_def)

lemma records_onlyD: "records_only d d' \<Longrightarrow> db_versions d' = db_versions d \<and>
    db_change_requests d' = db_change_requests d \<and> db_projects d' = db_projects d \<and> db_steps d' = db_steps d"
  by (simp add: records_only_def)

definition recording :: "world \<Rightarrow> world \<Rightarrow> bool" where
  "recording w w' \<longleftrightarrow> (0 < depth w \<longrightarrow> depth w' = depth w \<and> durable w' = durable w \<and> records_only (live w) (live w'))"

lemma recording_write:
  "(\<And>d. records_only d (f d)) \<Longrightarrow> follows recording (execute_write f)"
  by (simp add: follows_def recording_def exec)

interpretation rec: progress_relation recording
  by unfold_locales (auto simp: recording_def intro: records_only_trans)

lemma recording_basic:
  "follows recording (clockM clk)" "follows recording (append_audit e)" "follows recording (get_adr k)" "follows recording (get_risk i)"
  "follows recording list_versions" "follows recording (get_version k)"
  unfolding append_audit_def
  by (simp_all add: recording_write records_only_def settled_kept_refl) (simp_all add: follows_def recording_def exec)

lemma recording_scoped: "follows recording m \<Longrightarrow> scoped m"
  by (auto simp: follows_def recording_def scoped_def)

lemma recording_transaction:
  assumes "follows recording m"
  shows "follows recording (transactionM m)"
proof (rule followsI)
  fix w
  obtain r w' where m: "m (w\<lparr>depth := depth w + 1\<rparr>) = (r, w')" by fastforce
  then show "recording w (snd (transactionM m w))"
    using followsD[OF assms m] by (simp add: transactionM_def recording_def)
qed

text \<open>How the calls follow the frame.\<close>

named_theorems recorded "computations that only write ADRs, risks and audit entries"

declare recording_basic [recorded]

lemma recording_adr_write:
  assumes "0 < depth w" "case lookup adr_id (adr_id b) (db_adrs (live w)) of None \<Rightarrow> True | Some a \<Rightarrow> adr_status a = Adr_PROPOSED"
  shows "recording w (w\<lparr>clock_reads := n, live := adrs_written [b] e (live w)\<rparr>)"
  using assms
  by (auto simp: recording_def records_only_def adrs_written_def settled_kept_def lookup_put split: option.splits)

lemma recording_reads [simp]: "recording w w" "recording w (w\<lparr>clock_reads := n\<rparr>)"
  by (simp_all add: recording_def)

lemma recording_status:
  assumes "target \<in> {Adr_ACCEPTED, Adr_REJECTED}"
  shows "follows recording (adr_change_status clk k target action)"
proof (rule followsI)
  fix w
  show "recording w (snd (adr_change_status clk k target action w))"
  proof (cases "lookup adr_id k (db_adrs (live w))")
    case None
    then show ?thesis by (simp add: adr_change_status_def exec)
  next
    case (Some a)
    have id: "adr_id a = k" using Some by (auto dest: lookup_Some)
    show ?thesis
    proof (cases "adr_status a = Adr_PROPOSED \<and> 0 < depth w")
      case True
      then show ?thesis
        using Some id assms
        by (auto simp: adr_change_status_def exec adr_ensure_transition_def requireE_def mk_adr_iff
            dest!: mk_returns_argument(6) intro!: recording_adr_write split: sum.split)
    next
      case False
      then have "depth w = 0 \<or> target \<notin> set (ADR_TRANSITIONS (adr_status a))"
        using assms by (cases "adr_status a") (auto simp: ADR_TRANSITIONS_def)
      then show ?thesis
        using Some by (auto simp: adr_change_status_def exec adr_ensure_transition_def requireE_def recording_def)
    qed
  qed
qed

lemma recording_propose: "follows recording (adr_propose clk k title context decision cs rel)"
proof (rule followsI)
  fix w
  show "recording w (snd (adr_propose clk k title context decision cs rel w))"
  proof (cases "lookup adr_id k (db_adrs (live w)) = None \<and> 0 < depth w")
    case True
    then show ?thesis
      by (auto simp: adr_propose_def exec dest!: mk_returns_argument(6) intro!: recording_adr_write split: sum.split)
  next
    case False
    then show ?thesis by (auto simp: adr_propose_def exec recording_def)
  qed
qed

lemma recording_adr_ops [recorded]:
  "follows recording (adr_propose clk k title context decision cs rel)"
  "follows recording (adr_accept clk k)" "follows recording (adr_reject clk k)"
  by (simp_all add: recording_propose adr_accept_def adr_reject_def recording_status)

lemma recording_risk_ops [recorded]:
  "follows recording (risk_register clk k description sev probability impact owner mitigation)"
proof (rule followsI)
  fix w
  show "recording w (snd (risk_register clk k description sev probability impact owner mitigation w))"
  proof (cases "lookup risk_id k (db_risks (live w)) = None \<and> 0 < depth w")
    case True
    then show ?thesis
      by (auto simp: risk_register_def exec recording_def records_only_def settled_kept_def risk_put_def lookup_put
          dest!: mk_returns_argument(7) split: sum.split)
  next
    case False
    then show ?thesis by (auto simp: risk_register_def exec recording_def)
  qed
qed

lemma recording_ensure_adrs [recorded]: "follows recording (ensure_adrs c clk ss)"
proof (induction ss)
  case (Cons s ss)
  have "follows recording (ensure_adr c clk s)"
    unfolding ensure_adr_def by (intro rec.follows_rules recorded)
  with Cons show ?case by (auto intro!: rec.follows_rules split: prod.split)
qed (simp add: rec.return_follows)

lemma recording_ensure_risks [recorded]: "follows recording (ensure_risks c clk ss)"
proof (induction ss)
  case (Cons s ss)
  have "follows recording (ensure_risk c clk s)"
    unfolding ensure_risk_def by (intro rec.follows_rules recorded)
  with Cons show ?case by (auto intro!: rec.follows_rules split: prod.split)
qed (simp add: rec.return_follows)

lemma recording_forget: "follows recording m \<Longrightarrow> follows recording (forget m)"
  unfolding forget_def by (intro rec.follows_rules)

lemma recording_parts [recorded]:
  "follows recording (evolution_audit E r action detail)" "follows recording (ensure_adr_proposed E s)"
  "follows recording (accept_linked_adr E k)" "follows recording (reject_linked_adr E k)"
  "follows recording (require_linked_adr k)" "follows recording (register_declared_risks E k)"
  unfolding evolution_audit_def ensure_adr_proposed_def accept_linked_adr_def reject_linked_adr_def
    require_linked_adr_def verify_linked_adr_def register_declared_risks_def
  by (intro rec.follows_rules recording_forget recorded | simp add: rec.return_follows split: prod.split)+

section \<open>Rolling a baseline over\<close>

definition single_current :: "db \<Rightarrow> string \<Rightarrow> bool" where
  "single_current d k \<longleftrightarrow> (\<exists>v. filter av_is_current (db_versions d) = [v] \<and> av_version v = k)"

lemma sort_singleton: "(case sort_key f xs of [v] \<Rightarrow> g v | _ \<Rightarrow> z) = (case xs of [v] \<Rightarrow> g v | _ \<Rightarrow> z)"
proof (cases "\<exists>v. xs = [v]")
  case False
  have other: "(case ys of [v] \<Rightarrow> g v | _ \<Rightarrow> z) = z" if "length ys \<noteq> 1" for ys
    using that by (auto split: list.split)
  have "length xs \<noteq> 1" using False by (auto simp: length_Suc_conv)
  then show ?thesis using other[of xs] other[of "sort_key f xs"] by simp
qed auto

lemma require_single_current_run [exec]:
  "require_single_current w =
     ((case filter av_is_current (db_versions (live w)) of [v] \<Rightarrow> Inr v | _ \<Rightarrow> Inl ArchitectureEvolutionConflictError), w)"
proof -
  have "require_single_current w = (case sort_key av_version (filter av_is_current (db_versions (live w))) of
      [v] \<Rightarrow> (Inr v, w) | _ \<Rightarrow> (Inl ArchitectureEvolutionConflictError, w))"
    by (simp add: require_single_current_def exec filter_sort split: list.split)
  then show ?thesis by (simp add: sort_singleton split: list.split)
qed

lemma assert_single_current_run [exec]:
  "assert_single_current k w = (if single_current (live w) k then Inr () else Inl ArchitectureEvolutionConflictError, w)"
  by (auto simp: assert_single_current_def exec single_current_def split: list.split)

lemma current_stored: "single_current d k \<Longrightarrow> lookup av_version k (db_versions d) \<noteq> None"
proof -
  assume "single_current d k"
  then obtain v where v: "filter av_is_current (db_versions d) = [v]" "av_version v = k" by (auto simp: single_current_def)
  then have "v \<in> set (filter av_is_current (db_versions d))" by simp
  with v(2) show ?thesis by (auto simp: lookup_None)
qed

text \<open>Stored baselines stay stored with their text, rules and creation time.\<close>

definition versions_kept :: "db \<Rightarrow> db \<Rightarrow> bool" where
  "versions_kept d d' \<longleftrightarrow> (\<forall>k v. lookup av_version k (db_versions d) = Some v \<longrightarrow>
     (\<exists>v'. lookup av_version k (db_versions d') = Some v' \<and> av_baseline v' = av_baseline v \<and> av_rules v' = av_rules v \<and>
       av_created_at v' = av_created_at v))"

lemma versions_kept_refl: "db_versions d' = db_versions d \<Longrightarrow> versions_kept d d'"
  by (simp add: versions_kept_def)

lemma versions_kept_trans: "versions_kept d d' \<Longrightarrow> versions_kept d' d'' \<Longrightarrow> versions_kept d d''"
  unfolding versions_kept_def by metis

text \<open>The new baseline \<open>spec\<close> takes over from the current \<open>old\<close>.\<close>

definition rolled :: "architecture_version \<Rightarrow> string \<Rightarrow> db \<Rightarrow> db \<Rightarrow> bool" where
  "rolled spec old d d' \<longleftrightarrow> (\<exists>p. lookup av_version old (db_versions d) = Some p \<and> av_is_current p \<and> av_superseded_by p = None \<and>
     lookup av_version (av_version spec) (db_versions d) = None \<and>
     db_versions d' = put av_version spec (put av_version
       (p\<lparr>av_is_current := False, av_superseded_by := Some (av_version spec)\<rparr>) (db_versions d)))"

lemma rolled_kept:
  assumes "rolled spec old d d'"
  shows "versions_kept d d'"
proof -
  from assms obtain p where p: "lookup av_version old (db_versions d) = Some p"
      "lookup av_version (av_version spec) (db_versions d) = None"
      "db_versions d' = put av_version spec (put av_version
         (p\<lparr>av_is_current := False, av_superseded_by := Some (av_version spec)\<rparr>) (db_versions d))"
    by (auto simp: rolled_def)
  then have "av_version p = old" by (auto dest: lookup_Some)
  with p show ?thesis by (auto simp: versions_kept_def lookup_put)
qed

lemma roll_over_success:
  assumes "roll_over spec (Some old) w = (Inr out, w')" "0 < depth w"
  shows "depth w' = depth w \<and> db_change_requests (live w') = db_change_requests (live w) \<and>
    settled_kept (live w) (live w') \<and> (out = Already_Present \<and> w' = w \<or> out = Created \<and> rolled spec old (live w) (live w'))"
  using assms
  by (auto simp: roll_over_def already_present_def exec get_version_def upsert_version_def rolled_def
      settled_kept_refl dest!: mk_returns_argument(4) split: option.splits if_splits sum.splits)

lemma recording_run:
  assumes "follows recording m" "m w = (r, w')" "0 < depth w"
  shows "depth w' = depth w" "durable w' = durable w" "records_only (live w) (live w')"
  using followsD[OF assms(1,2)] assms(3) by (simp_all add: recording_def)

lemma introduce_success:
  assumes "introduce V spec (Some old) w = (Inr s, w')" "0 < depth w"
  shows "depth w' = depth w" "db_change_requests (live w') = db_change_requests (live w)"
    "vsum_outcome s = Already_Present \<and> db_versions (live w') = db_versions (live w) \<or>
     vsum_outcome s = Created \<and> rolled spec old (live w) (live w')"
    "settled_kept (live w) (live w')"
proof -
  let ?w = "w\<lparr>depth := Suc (depth w)\<rparr>"
  from assms obtain out u adrs u' where runs: "roll_over spec (Some old) ?w = (Inr out, u)"
      "versioning_ensure_adrs V u = (Inr adrs, u')" "w' = u'\<lparr>depth := depth u' - 1\<rparr>" "vsum_outcome s = out"
    by (auto simp: introduce_def thenM_Inr_iff bindM_Inr_iff transactionM_def returnM_def liftE_def
        split: prod.splits)
  from roll_over_success[OF runs(1)] have r: "depth u = Suc (depth w)"
      "db_change_requests (live u) = db_change_requests (live w)"
      "out = Already_Present \<and> db_versions (live u) = db_versions (live w) \<or> out = Created \<and> rolled spec old (live w) (live u)"
      "settled_kept (live w) (live u)"
    by auto
  have f: "follows recording (versioning_ensure_adrs V)"
    unfolding versioning_ensure_adrs_def by (rule recorded)
  have a: "depth u' = depth u" "records_only (live u) (live u')"
    using recording_run(1,3)[OF f runs(2)] r(1) by simp_all
  show "depth w' = depth w" using runs(3) r a by simp
  show "db_change_requests (live w') = db_change_requests (live w)"
    using runs(3) r a records_onlyD by auto
  show "vsum_outcome s = Already_Present \<and> db_versions (live w') = db_versions (live w) \<or>
     vsum_outcome s = Created \<and> rolled spec old (live w) (live w')"
    using runs(3,4) r a records_onlyD[OF a(2)] by (auto simp: rolled_def)
  show "settled_kept (live w) (live w')"
    using runs(3) r(4) a(2) by (auto simp: records_only_def intro: settled_kept_trans)
qed

lemma scoped_evolution_parts [intro, simp]:
  "scoped (evolution_audit E r action detail)" "scoped (ensure_adr_proposed E s)" "scoped (accept_linked_adr E k)"
  "scoped (reject_linked_adr E k)" "scoped (register_declared_risks E k)" "scoped require_single_current"
  "scoped (assert_single_current k)"
  by (rule recording_scoped, rule recorded)+ (simp_all add: scoped_def exec)

lemma scoped_introduce [intro, simp]: "scoped (roll_over spec old)" "scoped (introduce V spec old)" "scoped (evolution_introduce E spec source)"
proof -
  have a: "scoped (already_present v spec old)" for v old
    unfolding already_present_def by (intro scoped_if scoped_case scoped_bind) auto
  have r: "scoped (roll_over spec old)" for old
    unfolding roll_over_def using a by (intro scoped_bind scoped_case scoped_if scoped_then) auto
  show "scoped (roll_over spec old)" by (rule r)
  show i: "scoped (introduce V spec old)" for V old
    unfolding introduce_def versioning_ensure_adrs_def using r
    by (intro scoped_then scoped_bind scoped_transaction scoped_pair) auto
  show "scoped (evolution_introduce E spec source)"
    unfolding evolution_introduce_def using i by (intro scoped_catch scoped_if) auto
qed

lemma transaction_cases:
  assumes "idle w" "scoped body" "transactionM body w = (res, w')"
  obtains (failed) e where "res = Inl e" "idle w'" "durable w' = durable w"
    | (committed) a u where "res = Inr a" "body (w\<lparr>depth := 1\<rparr>) = (Inr a, u)" "w' = commit (u\<lparr>depth := 0\<rparr>)"
proof -
  obtain r u where u: "body (w\<lparr>depth := 1\<rparr>) = (r, u)" "durable u = durable w"
      "transactionM body w = (r, case r of Inl e \<Rightarrow> u\<lparr>live := durable w, depth := 0\<rparr>
                                         | Inr a \<Rightarrow> commit (u\<lparr>depth := 0\<rparr>))"
    by (rule transaction_idle[OF assms(1,2)])
  show thesis
  proof (cases r)
    case (Inl e)
    then show thesis using assms u by (intro failed[of e]) (auto simp: idle_def)
  next
    case (Inr a)
    then show thesis using assms u by (intro committed[of a u]) auto
  qed
qed

section \<open>What a lifecycle operation does\<close>

definition request_step :: "change_request option \<Rightarrow> change_request \<Rightarrow> bool" where
  "request_step old r \<longleftrightarrow> (case old of
     None \<Rightarrow> acr_status r = Acr_PROPOSED
   | Some q \<Rightarrow> request_content_matches r q \<and> acr_created_at r = acr_created_at q \<and>
       (acr_status q = Acr_PROPOSED \<and> acr_status r = Acr_APPROVED \<and> acr_approved_by r \<noteq> None \<or>
        acr_status q = Acr_PROPOSED \<and> acr_status r = Acr_REJECTED \<or>
        acr_status q = Acr_APPROVED \<and> acr_status r = Acr_APPLIED \<and> acr_approved_by r = acr_approved_by q \<and>
          acr_approved_at r = acr_approved_at q \<and> acr_approved_by q \<noteq> None))"

definition baseline_moved :: "evolution \<Rightarrow> change_request \<Rightarrow> db \<Rightarrow> db \<Rightarrow> bool" where
  "baseline_moved E r d d' \<longleftrightarrow>
     (\<exists>c. ev_canonical E (acr_target_version r) = Some c \<and> acr_rule_ids r = av_rules c) \<and>
     (\<exists>a. lookup adr_id (acr_adr_id r) (db_adrs d) = Some a \<and> adr_status a = Adr_ACCEPTED) \<and>
     (\<exists>k. single_current d k) \<and> single_current d' (acr_target_version r) \<and>
     (db_versions d' = db_versions d \<or>
      (\<exists>spec. av_version spec = acr_target_version r \<and> av_is_current spec \<and> rolled spec (acr_source_version r) d d'))"

definition evolved :: "evolution \<Rightarrow> db \<Rightarrow> db \<Rightarrow> bool" where
  "evolved E d d' \<longleftrightarrow> settled_kept d d' \<and>
    (db_change_requests d' = db_change_requests d \<and> db_versions d' = db_versions d \<or>
     (\<exists>r. db_change_requests d' = put acr_request_id r (db_change_requests d) \<and>
        request_step (lookup acr_request_id (acr_request_id r) (db_change_requests d)) r \<and>
        (if acr_status r = Acr_APPLIED then baseline_moved E r d d' else db_versions d' = db_versions d)))"

definition evolution_outcome :: "evolution \<Rightarrow> exn + 'a \<Rightarrow> world \<Rightarrow> world \<Rightarrow> bool" where
  "evolution_outcome E res w w' \<longleftrightarrow> idle w' \<and>
     (case res of Inl _ \<Rightarrow> durable w' = durable w | Inr _ \<Rightarrow> evolved E (durable w) (durable w'))"

lemma evolution_unchanged: "idle w \<Longrightarrow> evolution_outcome E res w (w\<lparr>clock_reads := n\<rparr>)" "idle w \<Longrightarrow> evolution_outcome E res w w"
  by (auto simp: evolution_outcome_def evolved_def idle_def settled_kept_refl split: sum.split)

lemma get_request_run [exec]: "get_request k w = (Inr (lookup acr_request_id k (db_change_requests (live w))), w)"
  by (simp add: get_request_def exec)

lemma request_then_records:
  assumes "idle w" "follows recording rest" "transactionM (thenM (upsert_request r) rest) w = (res, w')"
    and "request_step (lookup acr_request_id (acr_request_id r) (db_change_requests (durable w))) r" "acr_status r \<noteq> Acr_APPLIED"
  shows "evolution_outcome E res w w'"
proof -
  have "scoped (thenM (upsert_request r) rest)" using recording_scoped[OF assms(2)] by auto
  from assms(1) this assms(3) show ?thesis
  proof (cases rule: transaction_cases)
    case (failed e)
    then show ?thesis by (simp add: evolution_outcome_def)
  next
    case (committed a u)
    let ?w = "w\<lparr>depth := 1, live := (live w)\<lparr>db_change_requests := put acr_request_id r (db_change_requests (live w))\<rparr>\<rparr>"
    from committed(2) have "rest ?w = (Inr a, u)" by (simp add: exec upsert_request_def)
    from recording_run(3)[OF assms(2) this] have "db_change_requests (live u) = put acr_request_id r (db_change_requests (live w))"
        "db_versions (live u) = db_versions (live w)" "settled_kept (live w) (live u)"
      by (simp_all add: records_only_def settled_kept_def)
    then show ?thesis
      using committed assms(1,4,5) by (auto simp: evolution_outcome_def evolved_def idle_def)
  qed
qed

lemma request_id: "lookup acr_request_id k rs = Some r \<Longrightarrow> acr_request_id r = k"
  by (auto dest: lookup_Some)

lemma content_refl [simp]: "request_content_matches (r\<lparr>acr_status := st\<rparr>) r"
    "request_content_matches (r\<lparr>acr_status := st, acr_approved_by := b, acr_approved_at := t\<rparr>) r"
    "request_content_matches (r\<lparr>acr_status := st, acr_applied_at := t\<rparr>) r"
  by (simp_all add: request_content_matches_def)

lemma outcome_result:
  "evolution_outcome E (Inr x) w w' \<Longrightarrow> evolution_outcome E (Inr y) w w'"
  "evolution_outcome E (Inl e) w w' \<Longrightarrow> evolution_outcome E (Inl e) w w'"
  by (simp_all add: evolution_outcome_def)

lemma outcome_reads: "evolution_outcome E res (w\<lparr>clock_reads := n\<rparr>) w' = evolution_outcome E res w w'"
  by (simp add: evolution_outcome_def split: sum.split)

lemma propose_request_outcome:
  assumes "idle w" "evolution_propose E r s w = (res, w')"
  shows "evolution_outcome E res w w'"
proof (cases "acr_status r \<noteq> Acr_PROPOSED \<or> acr_adr_id r \<noteq> spec_id s \<or>
    lookup acr_request_id (acr_request_id r) (db_change_requests (live w)) \<noteq> None")
  case True
  then have "w' = w"
    using assms(2)
    by (auto simp: evolution_propose_def exec verify_linked_adr_def require_linked_adr_def split: if_splits option.splits)
  then show ?thesis using evolution_unchanged(2)[OF assms(1)] by simp
next
  case False
  then have step: "request_step (lookup acr_request_id (acr_request_id r) (db_change_requests (durable w))) r"
      "acr_status r \<noteq> Acr_APPLIED"
    using assms(1) by (auto simp: request_step_def idle_def)
  let ?rest = "thenM (evolution_audit E r Act_CREATE
                [(''status_from'', JNull), (''status_to'', JStr (acr_status_value (acr_status r))),
                 (''source_version'', JStr (acr_source_version r)), (''target_version'', JStr (acr_target_version r)),
                 (''adr_id'', JStr (acr_adr_id r)), (''rule_ids'', json_texts (acr_rule_ids r)),
                 (''roadmap_impact'', json_texts (acr_roadmap_impact r))]) (ensure_adr_proposed E s)"
  obtain x u where t: "transactionM (thenM (upsert_request r) ?rest) w = (x, u)" by fastforce
  have "follows recording ?rest" by (intro rec.follows_rules recorded)
  from request_then_records[OF assms(1) this t step] have "evolution_outcome E x w u" .
  then show ?thesis
    using assms(2) t False by (cases x) (auto simp: evolution_propose_def exec intro: outcome_result)
qed

lemma require_request_run [exec]:
  "require_request k w = (if is_blank k then Inl ValueError
     else case lookup acr_request_id k (db_change_requests (live w)) of None \<Rightarrow> Inl ArchitectureEvolutionNotFoundError | Some r \<Rightarrow> Inr r, w)"
  by (simp add: require_request_def exec split: option.split)

lemma approve_request_outcome:
  assumes "idle w" "evolution_approve E k by w = (res, w')"
  shows "evolution_outcome E res w w'"
proof (cases "\<exists>r. lookup acr_request_id k (db_change_requests (live w)) = Some r \<and> acr_status r = Acr_PROPOSED \<and>
    \<not> is_blank by \<and> \<not> is_blank k")
  case False
  have "w' = w"
  proof (cases "lookup acr_request_id k (db_change_requests (live w))")
    case (Some r)
    then show ?thesis
      using assms(2) False by (cases "acr_status r") (auto simp: evolution_approve_def exec split: if_splits)
  qed (use assms(2) in \<open>auto simp: evolution_approve_def exec split: if_splits\<close>)
  then show ?thesis using evolution_unchanged(2)[OF assms(1)] by simp
next
  case True
  then obtain r where r: "lookup acr_request_id k (db_change_requests (live w)) = Some r" "acr_status r = Acr_PROPOSED"
    by blast
  let ?now = "ev_clock E (clock_reads w)" and ?w = "w\<lparr>clock_reads := Suc (clock_reads w)\<rparr>"
  let ?a = "r\<lparr>acr_status := Acr_APPROVED, acr_approved_by := Some by, acr_approved_at := Some ?now\<rparr>"
  let ?rest = "thenM (accept_linked_adr E (acr_adr_id r)) (evolution_audit E ?a Act_UPDATE
              [(''status_from'', JStr (acr_status_value (acr_status r))),
               (''status_to'', JStr (acr_status_value (acr_status ?a))), (''adr_id'', JStr (acr_adr_id r)),
               (''approved_by'', JStr by), (''approved_at'', JTime ?now)])"
  have idle: "idle ?w" using assms(1) by (simp add: idle_def)
  obtain x u where t: "transactionM (thenM (upsert_request ?a) ?rest) ?w = (x, u)" by fastforce
  have f: "follows recording ?rest" by (intro rec.follows_rules recorded)
  have step: "request_step (lookup acr_request_id (acr_request_id ?a) (db_change_requests (durable ?w))) ?a"
      "acr_status ?a \<noteq> Acr_APPLIED"
    using r assms(1) request_id[OF r(1)] by (auto simp: request_step_def idle_def)
  have "evolution_outcome E x w u" using request_then_records[OF idle f t step] by (simp add: outcome_reads)
  then show ?thesis
    using assms(2) t r True evolution_unchanged(1)[OF assms(1)]
    by (cases x) (auto simp: evolution_approve_def exec intro: outcome_result dest!: mk_returns_argument(5) split: sum.splits)
qed

lemma reject_request_outcome:
  assumes "idle w" "evolution_reject E k reason w = (res, w')"
  shows "evolution_outcome E res w w'"
proof (cases "\<exists>r. lookup acr_request_id k (db_change_requests (live w)) = Some r \<and> acr_status r = Acr_PROPOSED \<and>
    \<not> is_blank reason \<and> \<not> is_blank k")
  case False
  have "w' = w"
  proof (cases "lookup acr_request_id k (db_change_requests (live w))")
    case (Some r)
    then show ?thesis
      using assms(2) False by (cases "acr_status r") (auto simp: evolution_reject_def exec split: if_splits)
  qed (use assms(2) in \<open>auto simp: evolution_reject_def exec split: if_splits\<close>)
  then show ?thesis using evolution_unchanged(2)[OF assms(1)] by simp
next
  case True
  then obtain r where r: "lookup acr_request_id k (db_change_requests (live w)) = Some r" "acr_status r = Acr_PROPOSED"
    by blast
  let ?j = "r\<lparr>acr_status := Acr_REJECTED\<rparr>"
  let ?rest = "thenM (reject_linked_adr E (acr_adr_id r)) (evolution_audit E ?j Act_UPDATE
              [(''status_from'', JStr (acr_status_value (acr_status r))),
               (''status_to'', JStr (acr_status_value (acr_status ?j))), (''adr_id'', JStr (acr_adr_id r)),
               (''reason'', JStr reason)])"
  obtain x u where t: "transactionM (thenM (upsert_request ?j) ?rest) w = (x, u)" by fastforce
  have f: "follows recording ?rest" by (intro rec.follows_rules recorded)
  have step: "request_step (lookup acr_request_id (acr_request_id ?j) (db_change_requests (durable w))) ?j"
      "acr_status ?j \<noteq> Acr_APPLIED"
    using r assms(1) request_id[OF r(1)] by (auto simp: request_step_def idle_def)
  have "evolution_outcome E x w u" using request_then_records[OF assms(1) f t step] .
  then show ?thesis
    using assms(2) t r True evolution_unchanged(2)[OF assms(1)]
    by (cases x) (auto simp: evolution_reject_def exec intro: outcome_result dest!: mk_returns_argument(5) split: sum.splits)
qed

lemma evolution_introduce_success:
  "evolution_introduce E spec source w = (Inr s, w') \<Longrightarrow> introduce (ev_versioning E) spec (Some source) w = (Inr s, w')"
  by (auto simp: evolution_introduce_def exec split: sum.splits prod.splits if_splits)

lemma scoped_apply_body: "scoped (thenM require_single_current
       (bindM (evolution_introduce E spec (acr_source_version r)) (\<lambda>version.
        bindM (register_declared_risks E (acr_request_id r)) (\<lambda>risks.
        bindM (liftE (mk_change_request (r\<lparr>acr_status := Acr_APPLIED, acr_applied_at := Some now\<rparr>))) (\<lambda>a.
        thenM (upsert_request a) (thenM (evolution_audit E a Act_UPDATE (detail a risks))
        (thenM (assert_single_current (acr_target_version r)) (returnM (result a version risks)))))))))"
  by (intro scoped_then scoped_bind) auto

lemma apply_approved_success:
  assumes "idle w" "apply_approved E r spec now w = (Inr s, w')"
  shows "idle w'" "db_change_requests (durable w') =
      put acr_request_id (r\<lparr>acr_status := Acr_APPLIED, acr_applied_at := Some now\<rparr>) (db_change_requests (durable w))"
    "\<exists>k. single_current (durable w) k" "single_current (durable w') (acr_target_version r)"
    "db_versions (durable w') = db_versions (durable w) \<or> av_is_current spec \<and> rolled spec (acr_source_version r) (durable w) (durable w')"
    "settled_kept (durable w) (durable w')"
    "mk_change_request (r\<lparr>acr_status := Acr_APPLIED, acr_applied_at := Some now\<rparr>) = Inr (r\<lparr>acr_status := Acr_APPLIED, acr_applied_at := Some now\<rparr>)"
proof -
  let ?a = "r\<lparr>acr_status := Acr_APPLIED, acr_applied_at := Some now\<rparr>" and ?w = "w\<lparr>depth := 1\<rparr>"
  from assms(1) scoped_apply_body assms(2)[unfolded apply_approved_def]
  obtain u where t: "thenM require_single_current
       (bindM (evolution_introduce E spec (acr_source_version r)) (\<lambda>version.
        bindM (register_declared_risks E (acr_request_id r)) (\<lambda>risks.
        bindM (liftE (mk_change_request ?a)) (\<lambda>a.
        thenM (upsert_request a)
        (thenM (evolution_audit E a Act_UPDATE
          [(''status_from'', JStr (acr_status_value (acr_status r))),
           (''status_to'', JStr (acr_status_value (acr_status a))), (''adr_id'', JStr (acr_adr_id r)),
           (''applied_at'', JTime now), (''source_version'', JStr (acr_source_version r)),
           (''target_version'', JStr (acr_target_version r)), (''rules'', json_texts (acr_rule_ids r)),
           (''risks_created'', json_texts risks)])
        (thenM (assert_single_current (acr_target_version r))
        (returnM \<lparr>esum_request = a, esum_outcome = Created, esum_version_outcome = Some (vsum_outcome version),
                  esum_risks_created = risks, esum_version_summary = Some version\<rparr>))))))) ?w = (Inr s, u)"
      "w' = commit (u\<lparr>depth := 0\<rparr>)"
    by (cases rule: transaction_cases) auto
  from t(1) obtain version w1 risks w2 a x y where runs:
      "\<exists>v. filter av_is_current (db_versions (live w)) = [v]"
      "evolution_introduce E spec (acr_source_version r) ?w = (Inr version, w1)"
      "register_declared_risks E (acr_request_id r) w1 = (Inr risks, w2)" "mk_change_request ?a = Inr a"
      "evolution_audit E a Act_UPDATE x (snd (upsert_request a w2)) = (Inr y, u)"
      "single_current (live u) (acr_target_version r)"
    by (auto simp: thenM_Inr_iff bindM_Inr_iff returnM_def liftE_def assert_single_current_run require_single_current_run
        split: list.splits if_splits prod.splits)
  have a: "a = ?a" using runs(4) by (rule mk_returns_argument)
  note i = introduce_success[OF evolution_introduce_success[OF runs(2)]]
  have f: "follows recording (register_declared_risks E (acr_request_id r))" by (rule recorded)
  have g: "follows recording (evolution_audit E a Act_UPDATE x)" by (rule recorded)
  note risks = recording_run[OF f runs(3)]
  have d2: "0 < depth w2" using i(1) risks(1) by simp
  let ?w3 = "w2\<lparr>live := (live w2)\<lparr>db_change_requests := put acr_request_id a (db_change_requests (live w2))\<rparr>\<rparr>"
  have w3: "snd (upsert_request a w2) = ?w3" using d2 by (simp add: upsert_request_def exec)
  have aud: "records_only (live ?w3) (live u)" using recording_run(3)[OF g runs(5)[unfolded w3]] d2 by simp
  have live: "live w = durable w" using assms(1) by (simp add: idle_def)
  show "idle w'" using t(2) by simp
  have current: "av_is_current spec"
    using evolution_introduce_success[OF runs(2)] by (auto simp: introduce_def validate_introduction_def thenM_Inr_iff liftE_def)
  have r2: "records_only (live w1) (live w2)" using risks(3) i(1) by simp
  show "db_change_requests (durable w') = put acr_request_id ?a (db_change_requests (durable w))"
    using t(2) records_onlyD[OF aud] records_onlyD[OF r2] i(2) a live by simp
  have "db_versions (live u) = db_versions (live w1)" using records_onlyD[OF aud] records_onlyD[OF r2] by simp
  then show "db_versions (durable w') = db_versions (durable w) \<or>
      av_is_current spec \<and> rolled spec (acr_source_version r) (durable w) (durable w')"
    using i(3) t(2) live current by (auto simp: rolled_def)
  show "settled_kept (durable w) (durable w')"
    using i(4) r2 aud t(2) live settled_kept_trans by (auto simp: records_only_def settled_kept_def)
  show "\<exists>k. single_current (durable w) k" using runs(1) live by (auto simp: single_current_def)
  show "single_current (durable w') (acr_target_version r)" using runs(6) t(2) by simp
  show "mk_change_request ?a = Inr ?a" using runs(4) a by simp
qed

lemma require_accepted_adr_run [exec]:
  "require_accepted_adr k w = (case lookup adr_id k (db_adrs (live w)) of
     None \<Rightarrow> Inl ArchitectureEvolutionConflictError
   | Some a \<Rightarrow> if adr_status a = Adr_ACCEPTED then Inr a else Inl ArchitectureEvolutionNotApprovedError, w)"
  by (simp add: require_accepted_adr_def require_linked_adr_def exec split: option.split)

text \<open>A repeated \<open>apply\<close>: the new baseline is stored already, so the introduction only verifies.\<close>

lemma introduce_idle_cases:
  assumes "idle w" "introduce V spec (Some old) w = (res, w')" "lookup av_version (av_version spec) (db_versions (live w)) \<noteq> None"
  shows "idle w' \<and> (case res of Inl _ \<Rightarrow> durable w' = durable w
    | Inr s \<Rightarrow> vsum_outcome s = Already_Present \<and> records_only (durable w) (durable w'))"
proof (cases "validate_introduction spec (Some old)")
  case (Inl e)
  then show ?thesis using assms by (auto simp: introduce_def exec)
next
  case (Inr v)
  let ?body = "bindM (roll_over spec (Some old)) (\<lambda>out. bindM (versioning_ensure_adrs V) (\<lambda>adrs. returnM (out, adrs)))"
  have scoped: "scoped ?body" unfolding versioning_ensure_adrs_def by (intro scoped_bind) auto
  obtain r u where t: "transactionM ?body w = (r, u)" by fastforce
  have f: "follows recording (versioning_ensure_adrs V)" unfolding versioning_ensure_adrs_def by (rule recorded)
  from assms(1) scoped t show ?thesis
  proof (cases rule: transaction_cases)
    case (failed e)
    then show ?thesis using assms(2) Inr t by (auto simp: introduce_def exec)
  next
    case (committed x y)
    from committed(2) obtain out adrs u1 where runs: "roll_over spec (Some old) (w\<lparr>depth := 1\<rparr>) = (Inr out, u1)"
        "versioning_ensure_adrs V u1 = (Inr adrs, y)" "x = (out, adrs)"
      by (auto simp: bindM_Inr_iff returnM_def)
    have out: "out = Already_Present" "u1 = w\<lparr>depth := 1\<rparr>"
      using roll_over_success[OF runs(1)] assms(3) by (auto simp: rolled_def)
    have "records_only (live w) (live y)" using recording_run(3)[OF f runs(2)] out by simp
    then show ?thesis
      using assms(1,2) Inr t committed runs(3) out by (auto simp: introduce_def exec idle_def split: prod.splits)
  qed
qed

lemma verify_applied_cases:
  assumes "idle w" "verify_applied E r spec w = (res, w')" "av_version spec = acr_target_version r"
  shows "idle w' \<and> (case res of Inl _ \<Rightarrow> durable w' = durable w
    | Inr s \<Rightarrow> vsum_outcome s = Already_Present \<and> records_only (durable w) (durable w'))"
proof (cases "single_current (live w) (acr_target_version r) \<and>
    (\<exists>v. lookup av_version (acr_source_version r) (db_versions (live w)) = Some v \<and> av_superseded_by v = Some (acr_target_version r))")
  case False
  then show ?thesis
    using assms(1,2) by (auto simp: verify_applied_def exec get_version_def split: if_splits option.splits)
next
  case True
  obtain x u where i: "introduce (ev_versioning E) spec (Some (acr_source_version r)) w = (x, u)" by fastforce
  have "lookup av_version (av_version spec) (db_versions (live w)) \<noteq> None"
    using True assms(3) current_stored by simp
  from introduce_idle_cases[OF assms(1) i this] show ?thesis
    using assms(2) True i
    by (cases x) (auto simp: verify_applied_def exec get_version_def evolution_introduce_def split: if_splits)
qed

lemma apply_request_outcome:
  assumes "idle w" "evolution_apply E k w = (res, w')"
  shows "evolution_outcome E res w w'"
proof (cases "\<exists>r c a. lookup acr_request_id k (db_change_requests (live w)) = Some r \<and> \<not> is_blank k \<and>
    acr_status r \<in> {Acr_APPROVED, Acr_APPLIED} \<and> ev_canonical E (acr_target_version r) = Some c \<and>
    acr_rule_ids r = av_rules c \<and> lookup adr_id (acr_adr_id r) (db_adrs (live w)) = Some a \<and> adr_status a = Adr_ACCEPTED")
  case False
  have "w' = w \<and> isl res"
  proof (cases "lookup acr_request_id k (db_change_requests (live w))")
    case (Some r)
    then show ?thesis
      using assms(2) False
      by (cases "acr_status r") (auto simp: evolution_apply_def exec split: if_splits option.splits)
  qed (use assms(2) in \<open>auto simp: evolution_apply_def exec split: if_splits\<close>)
  then show ?thesis using evolution_unchanged(2)[OF assms(1)] by simp
next
  case True
  then obtain r c a where r: "lookup acr_request_id k (db_change_requests (live w)) = Some r" "\<not> is_blank k"
      "acr_status r \<in> {Acr_APPROVED, Acr_APPLIED}" "ev_canonical E (acr_target_version r) = Some c"
      "acr_rule_ids r = av_rules c" "lookup adr_id (acr_adr_id r) (db_adrs (live w)) = Some a" "adr_status a = Adr_ACCEPTED"
    by blast
  let ?now = "ev_clock E (clock_reads w)" and ?w = "w\<lparr>clock_reads := Suc (clock_reads w)\<rparr>"
  let ?spec = "\<lparr>av_version = acr_target_version r, av_baseline = av_baseline c, av_rules = av_rules c,
                av_superseded_by = None, av_is_current = True, av_created_at = ?now\<rparr>"
  have idle: "idle ?w" using assms(1) by (simp add: idle_def)
  show ?thesis
  proof (cases "mk_architecture_version ?spec")
    case (Inl e)
    then show ?thesis using assms r evolution_unchanged(1)[OF assms(1)] by (auto simp: evolution_apply_def exec)
  next
    case (Inr spec)
    then have spec: "spec = ?spec" by (rule mk_returns_argument)
    show ?thesis
    proof (cases "acr_status r = Acr_APPLIED")
      case True
      obtain x u where v: "verify_applied E r ?spec ?w = (x, u)" by fastforce
      have "evolution_outcome E x w u"
        using verify_applied_cases[OF idle v]
        by (cases x) (auto simp: evolution_outcome_def evolved_def records_only_def)
      then show ?thesis
        using assms(2) r Inr spec v True by (cases x) (auto simp: evolution_apply_def exec intro: outcome_result)
    next
      case False
      then have run: "apply_approved E r ?spec ?now ?w = (res, w')" "acr_status r = Acr_APPROVED"
        using assms(2) r Inr spec by (auto simp: evolution_apply_def exec)
      show ?thesis
      proof (cases res)
        case (Inl e)
        from idle scoped_apply_body run(1)[unfolded apply_approved_def] show ?thesis
          by (cases rule: transaction_cases) (auto simp: evolution_outcome_def Inl)
      next
        case (Inr s)
        note ok = apply_approved_success[OF idle run(1)[unfolded Inr]]
        let ?a = "r\<lparr>acr_status := Acr_APPLIED, acr_applied_at := Some ?now\<rparr>"
        have id: "acr_request_id r = k" "live w = durable w" using r(1) assms(1) by (auto dest: lookup_Some simp: idle_def)
        have "request_step (lookup acr_request_id (acr_request_id ?a) (db_change_requests (durable w))) ?a"
          using r(1) run(2) id ok(7) by (auto simp: request_step_def mk_change_request_def split: if_splits)
        moreover have "baseline_moved E ?a (durable w) (durable w')"
          using ok(3,4,5) r id by (auto simp: baseline_moved_def)
        ultimately have "evolved E (durable w) (durable w')"
          unfolding evolved_def using ok(2,6) by (intro conjI disjI2 exI[of _ ?a]) simp_all
        then show ?thesis using ok(1) Inr by (simp add: evolution_outcome_def)
      qed
    qed
  qed
qed

end
