(* ===== verification/Change_History.thy ===== *)
theory Change_History
  imports Evolution
begin

text \<open>
  What sequences of change-request operations do to the requests and to the baselines, and a concrete history
  of two changes.
\<close>

section \<open>Histories\<close>

datatype evolution_op =
    Evo_Propose change_request adr_spec
  | Evo_Approve string string
  | Evo_Reject string string
  | Evo_Apply string

fun perform_evolution :: "evolution \<Rightarrow> evolution_op \<Rightarrow> evolution_summary io" where
  "perform_evolution E (Evo_Propose r s) = evolution_propose E r s"
| "perform_evolution E (Evo_Approve k by) = evolution_approve E k by"
| "perform_evolution E (Evo_Reject k reason) = evolution_reject E k reason"
| "perform_evolution E (Evo_Apply k) = evolution_apply E k"

fun evolution_run :: "evolution \<Rightarrow> evolution_op list \<Rightarrow> world \<Rightarrow> world" where
  "evolution_run E [] w = w"
| "evolution_run E (p # ps) w = evolution_run E ps (snd (perform_evolution E p w))"

lemma perform_evolution_outcome:
  "idle w \<Longrightarrow> perform_evolution E p w = (res, w') \<Longrightarrow> evolution_outcome E res w w'"
  by (cases p) (auto intro: propose_request_outcome approve_request_outcome reject_request_outcome apply_request_outcome)

lemma perform_evolution_idle:
  assumes "idle w"
  shows "idle (snd (perform_evolution E p w))"
    "durable (snd (perform_evolution E p w)) = durable w \<or> evolved E (durable w) (durable (snd (perform_evolution E p w)))"
proof -
  obtain res w' where run: "perform_evolution E p w = (res, w')" by fastforce
  from perform_evolution_outcome[OF assms run]
  show "idle (snd (perform_evolution E p w))"
    "durable (snd (perform_evolution E p w)) = durable w \<or> evolved E (durable w) (durable (snd (perform_evolution E p w)))"
    using run by (cases res; simp add: evolution_outcome_def)+
qed

lemma evolved_baseline:
  assumes "evolved E d d'"
  shows "versions_kept d d'" "single_current d k \<Longrightarrow> \<exists>k'. single_current d' k'"
proof -
  have "db_versions d' = db_versions d \<or> versions_kept d d' \<and> (\<exists>k'. single_current d' k')"
    using assms by (auto simp: evolved_def baseline_moved_def split: if_splits intro: rolled_kept versions_kept_refl)
  then show "versions_kept d d'" "single_current d k \<Longrightarrow> \<exists>k'. single_current d' k'"
    by (auto intro: versions_kept_refl simp: single_current_def)
qed

text \<open>
  C27: There is always exactly one current baseline and the version history is never rewritten: from a
  database at rest with one current baseline, whatever proposals, approvals, rejections and applications
  follow, failed ones included, exactly one baseline is current, and every baseline ever stored keeps its
  text, its rules and its creation time.
\<close>

theorem one_current_baseline:
  assumes "idle w" "\<exists>v. filter av_is_current (db_versions (durable w)) = [v]"
  shows "(\<exists>v. filter av_is_current (db_versions (durable (evolution_run E ps w))) = [v]) \<and>
    (\<forall>k v. lookup av_version k (db_versions (durable w)) = Some v \<longrightarrow>
       (\<exists>v'. lookup av_version k (db_versions (durable (evolution_run E ps w))) = Some v' \<and>
          av_baseline v' = av_baseline v \<and> av_rules v' = av_rules v \<and> av_created_at v' = av_created_at v))"
proof -
  have "(\<exists>k. single_current (durable (evolution_run E ps w)) k) \<and> versions_kept (durable w) (durable (evolution_run E ps w))"
    if "idle w" "\<exists>k. single_current (durable w) k"
    using that
  proof (induction ps arbitrary: w)
    case (Cons p ps)
    let ?w = "snd (perform_evolution E p w)"
    note step = perform_evolution_idle[OF Cons.prems(1), of E p]
    have kept: "versions_kept (durable w) (durable ?w)"
      using step(2) evolved_baseline(1) versions_kept_refl by metis
    have "\<exists>k. single_current (durable ?w) k" using step(2) evolved_baseline(2) Cons.prems(2) by metis
    from Cons.IH[OF step(1) this] kept show ?case by (auto intro: versions_kept_trans)
  qed (simp add: versions_kept_refl)
  with assms show ?thesis by (simp add: single_current_def versions_kept_def)
qed

text \<open>
  C28: The committed baselines change only by an approved change: if an operation changed the stored
  baselines, there is a stored request, APPROVED by a named human, whose ADR is ACCEPTED and whose rules are
  those of the canonical baseline it targets; it is APPLIED afterwards, and its target is the only current
  baseline.
\<close>

theorem baseline_change_needs_approval:
  assumes "idle w" "perform_evolution E p w = (res, w')" "db_versions (durable w') \<noteq> db_versions (durable w)"
  shows "\<exists>k q r a c v. lookup acr_request_id k (db_change_requests (durable w)) = Some q \<and>
      acr_status q = Acr_APPROVED \<and> acr_approved_by q \<noteq> None \<and>
      lookup adr_id (acr_adr_id q) (db_adrs (durable w)) = Some a \<and> adr_status a = Adr_ACCEPTED \<and>
      ev_canonical E (acr_target_version q) = Some c \<and> acr_rule_ids q = av_rules c \<and>
      lookup acr_request_id k (db_change_requests (durable w')) = Some r \<and> acr_status r = Acr_APPLIED \<and>
      filter av_is_current (db_versions (durable w')) = [v] \<and> av_version v = acr_target_version q"
proof -
  have "evolved E (durable w) (durable w')"
    using perform_evolution_outcome[OF assms(1,2)] assms(3) by (cases res) (auto simp: evolution_outcome_def)
  with assms(3) obtain r where r: "db_change_requests (durable w') = put acr_request_id r (db_change_requests (durable w))"
      "request_step (lookup acr_request_id (acr_request_id r) (db_change_requests (durable w))) r"
      "acr_status r = Acr_APPLIED" "baseline_moved E r (durable w) (durable w')"
    by (auto simp: evolved_def split: if_splits)
  then obtain q where q: "lookup acr_request_id (acr_request_id r) (db_change_requests (durable w)) = Some q"
      "acr_status q = Acr_APPROVED" "acr_approved_by q \<noteq> None" "request_content_matches r q"
    by (auto simp: request_step_def split: option.splits)
  from r(4) q(4) obtain a c v where "lookup adr_id (acr_adr_id q) (db_adrs (durable w)) = Some a" "adr_status a = Adr_ACCEPTED"
      "ev_canonical E (acr_target_version q) = Some c" "acr_rule_ids q = av_rules c"
      "filter av_is_current (db_versions (durable w')) = [v]" "av_version v = acr_target_version q"
    by (auto simp: baseline_moved_def single_current_def request_content_matches_def)
  moreover have "lookup acr_request_id (acr_request_id r) (db_change_requests (durable w')) = Some r" by (simp add: r(1))
  ultimately show ?thesis using q r(3) by blast
qed

text \<open>What a history keeps of a request.\<close>

definition request_later :: "change_request \<Rightarrow> change_request \<Rightarrow> bool" where
  "request_later q r \<longleftrightarrow> request_content_matches r q \<and> acr_created_at r = acr_created_at q \<and>
     (acr_is_terminal q \<longrightarrow> r = q) \<and> (acr_status q = Acr_APPROVED \<longrightarrow> acr_approved_by r = acr_approved_by q \<and>
       (r = q \<or> acr_status r = Acr_APPLIED)) \<and>
     (acr_status r = Acr_APPLIED \<longrightarrow> acr_status q = Acr_APPLIED \<or> acr_approved_by r \<noteq> None) \<and>
     (acr_status r = Acr_PROPOSED \<longrightarrow> r = q)"

lemma request_later_refl: "request_later r r"
  by (auto simp: request_later_def request_content_matches_def)

lemma request_laterD:
  assumes "request_later q r"
  shows "request_content_matches r q" "acr_created_at r = acr_created_at q" "acr_is_terminal q \<Longrightarrow> r = q"
    "acr_status q = Acr_APPROVED \<Longrightarrow> acr_approved_by r = acr_approved_by q"
    "acr_status q = Acr_APPROVED \<Longrightarrow> r = q \<or> acr_status r = Acr_APPLIED"
    "acr_status r = Acr_APPLIED \<Longrightarrow> acr_status q = Acr_APPLIED \<or> acr_approved_by r \<noteq> None"
    "acr_status r = Acr_PROPOSED \<Longrightarrow> r = q"
  using assms unfolding request_later_def by blast+

lemma content_matches_trans:
  "request_content_matches r q \<Longrightarrow> request_content_matches s r \<Longrightarrow> request_content_matches s q"
  by (simp add: request_content_matches_def)

lemma applied_terminal: "acr_status r = Acr_APPLIED \<Longrightarrow> acr_is_terminal r"
  by (simp add: acr_is_terminal_def)

lemma request_later_trans:
  assumes q: "request_later q r" and r: "request_later r s"
  shows "request_later q s"
  unfolding request_later_def
proof (intro conjI impI)
  show "request_content_matches s q" using request_laterD(1)[OF q] request_laterD(1)[OF r] by (rule content_matches_trans)
  show "acr_created_at s = acr_created_at q" using request_laterD(2)[OF q] request_laterD(2)[OF r] by simp
  show "s = q" if "acr_is_terminal q" using request_laterD(3)[OF q that] request_laterD(3)[OF r] that by metis
  show "s = q" if "acr_status s = Acr_PROPOSED" using request_laterD(7)[OF r that] request_laterD(7)[OF q] that by metis
  show "acr_approved_by s = acr_approved_by q" "s = q \<or> acr_status s = Acr_APPLIED" if "acr_status q = Acr_APPROVED"
    using request_laterD(4,5)[OF q that] request_laterD(3)[OF r applied_terminal] request_laterD(4,5)[OF r] that by metis+
  show "acr_status q = Acr_APPLIED \<or> acr_approved_by s \<noteq> None" if "acr_status s = Acr_APPLIED"
    using request_laterD(6)[OF r that] request_laterD(3)[OF r applied_terminal] request_laterD(6)[OF q] by metis
qed

lemma request_step_later: "request_step (Some q) r \<Longrightarrow> request_later q r"
  by (auto simp: request_step_def request_later_def acr_is_terminal_def)

lemma evolved_request:
  assumes "evolved E d d'" "lookup acr_request_id k (db_change_requests d) = Some q"
  shows "\<exists>r. lookup acr_request_id k (db_change_requests d') = Some r \<and> request_later q r"
  using assms request_step_later
  by (auto simp: evolved_def lookup_put request_later_refl)

text \<open>
  Change requests live by their lifecycle: whatever operations run, a stored request stays stored with
  its content; an APPLIED or REJECTED one never changes again, an APPROVED one keeps its approver and can only
  become APPLIED, none returns to PROPOSED, and none becomes APPLIED without the name of an approver.
\<close>

theorem request_lifecycle:
  assumes "idle w" "lookup acr_request_id k (db_change_requests (durable w)) = Some q"
  shows "\<exists>r. lookup acr_request_id k (db_change_requests (durable (evolution_run E ps w))) = Some r \<and>
    request_content_matches r q \<and>
    (if acr_status q \<in> {Acr_APPLIED, Acr_REJECTED} then r = q
     else if acr_status q = Acr_APPROVED then acr_approved_by r = acr_approved_by q \<and> (r = q \<or> acr_status r = Acr_APPLIED)
     else (r = q \<or> acr_status r \<noteq> Acr_PROPOSED) \<and> (acr_status r \<noteq> Acr_APPLIED \<or> acr_approved_by r \<noteq> None))"
proof -
  have "\<exists>r. lookup acr_request_id k (db_change_requests (durable (evolution_run E ps w))) = Some r \<and> request_later q r"
    using assms
  proof (induction ps arbitrary: w q)
    case (Cons p ps)
    let ?w = "snd (perform_evolution E p w)"
    note step = perform_evolution_idle[OF Cons.prems(1), of E p]
    obtain r where r: "lookup acr_request_id k (db_change_requests (durable ?w)) = Some r" "request_later q r"
      using step(2) evolved_request Cons.prems(2) request_later_refl by metis
    from Cons.IH[OF step(1) r(1)] r(2) show ?case by (auto intro: request_later_trans)
  qed (simp add: request_later_refl)
  then show ?thesis by (cases "acr_status q") (auto simp: request_later_def acr_is_terminal_def)
qed

section \<open>A concrete history\<close>

text \<open>Baselines 1.0, 1.1 and 1.2, with one rule each, and two changes between them.\<close>

definition demo_version :: "string \<Rightarrow> architecture_version" where
  "demo_version k = \<lparr>av_version = k, av_baseline = ''b'', av_rules = [''r''], av_superseded_by = None,
     av_is_current = True, av_created_at = 0\<rparr>"

definition demo_evolution :: evolution where
  "demo_evolution = \<lparr>ev_canonical = (\<lambda>k. if k = ''1.1'' \<or> k = ''1.2'' then Some (demo_version k) else None),
     ev_risks = (\<lambda>_. []), ev_clock = (\<lambda>_. 0), ev_versioning = \<lparr>vs_clock = (\<lambda>_. 0), vs_adrs = []\<rparr>\<rparr>"

definition demo_request :: "string \<Rightarrow> string \<Rightarrow> string \<Rightarrow> string \<Rightarrow> change_request" where
  "demo_request k a source target = \<lparr>acr_request_id = k, acr_title = ''t'', acr_rationale = ''w'',
     acr_source_version = source, acr_target_version = target, acr_rule_ids = [''r''], acr_adr_id = a,
     acr_roadmap_impact = [], acr_status = Acr_PROPOSED, acr_created_at = 0, acr_approved_by = None,
     acr_approved_at = None, acr_applied_at = None\<rparr>"

definition demo_adr :: "string \<Rightarrow> adr_spec" where
  "demo_adr k = \<lparr>spec_id = k, spec_title = ''t'', spec_rationale = ''w'', spec_decision = '''',
     spec_consequences = [], spec_related = [], spec_provenance = ''''\<rparr>"

definition demo_start :: world where
  "demo_start = world_with (empty_db\<lparr>db_versions := [demo_version ''1.0'']\<rparr>) empty_channel []"

definition demo_change :: "string \<Rightarrow> string \<Rightarrow> string \<Rightarrow> string \<Rightarrow> evolution_op list" where
  "demo_change k a source target = [Evo_Propose (demo_request k a source target) (demo_adr a), Evo_Approve k ''h'', Evo_Apply k]"

lemmas demo_defs = demo_version_def demo_evolution_def demo_request_def demo_adr_def demo_change_def

lemma mk_version_valid: "\<not> is_blank (av_version v) \<Longrightarrow> (case av_superseded_by v of None \<Rightarrow> True
    | Some t \<Rightarrow> \<not> is_blank t \<and> \<not> av_is_current v) \<Longrightarrow> mk_architecture_version v = Inr v"
  by (cases "av_superseded_by v") (auto simp: mk_architecture_version_def require_text_def)

definition demo_after :: "nat \<Rightarrow> world" where
  "demo_after n = evolution_run demo_evolution
     (take n (demo_change ''C'' ''A'' ''1.0'' ''1.1'' @ demo_change ''D'' ''B'' ''1.1'' ''1.2'')) demo_start"

lemma evolution_run_idle: "idle w \<Longrightarrow> idle (evolution_run E ps w)"
  by (induction ps arbitrary: w) (simp_all add: perform_evolution_idle(1))

lemma idle_demo: "idle demo_start" "idle (demo_after n)"
proof -
  show "idle demo_start" by (simp add: demo_start_def world_with_def idle_def)
  then show "idle (demo_after n)" by (simp add: demo_after_def evolution_run_idle)
qed

theorem one_current_baseline_witness:
  "filter av_is_current (db_versions (durable demo_start)) = [demo_version ''1.0''] \<and>
   (\<exists>v. filter av_is_current (db_versions (durable (evolution_run demo_evolution
      (demo_change ''C'' ''A'' ''1.0'' ''1.1'' @ [Evo_Reject ''C'' ''late'']) demo_start))) = [v])"
proof -
  have start: "filter av_is_current (db_versions (durable demo_start)) = [demo_version ''1.0'']"
    by (simp add: demo_start_def world_with_def demo_version_def)
  show ?thesis
    using one_current_baseline[OF idle_demo(1), of demo_evolution
        "demo_change ''C'' ''A'' ''1.0'' ''1.1'' @ [Evo_Reject ''C'' ''late'']"] start
    by auto
qed

theorem baseline_change_needs_approval_witness:
  "case perform_evolution demo_evolution (Evo_Apply ''C'') (demo_after 2) of (res, w') \<Rightarrow>
     (\<exists>k q. lookup acr_request_id k (db_change_requests (durable (demo_after 2))) = Some q \<and> acr_status q = Acr_APPROVED) \<and>
     (\<exists>v. filter av_is_current (db_versions (durable w')) = [v])"
proof -
  obtain res w' where run: "perform_evolution demo_evolution (Evo_Apply ''C'') (demo_after 2) = (res, w')" by fastforce
  have "length (db_versions (durable (snd (perform_evolution demo_evolution (Evo_Apply ''C'') (demo_after 2))))) = 2 \<and>
      length (db_versions (durable (demo_after 2))) = 1"
    by code_simp
  then have "db_versions (durable w') \<noteq> db_versions (durable (demo_after 2))" using run by auto
  from baseline_change_needs_approval[OF idle_demo(2) run this] run show ?thesis by auto
qed

theorem request_lifecycle_witness:
  "\<exists>r. lookup acr_request_id ''C'' (db_change_requests (durable (evolution_run demo_evolution
       [Evo_Reject ''C'' ''late'', Evo_Apply ''C''] (demo_after 2)))) = Some r \<and> acr_approved_by r = Some ''h''"
proof -
  have "case lookup acr_request_id ''C'' (db_change_requests (durable (demo_after 2))) of None \<Rightarrow> False
     | Some q \<Rightarrow> acr_status q = Acr_APPROVED \<and> acr_approved_by q = Some ''h''"
    by code_simp
  then obtain q where "lookup acr_request_id ''C'' (db_change_requests (durable (demo_after 2))) = Some q"
      "acr_status q = Acr_APPROVED" "acr_approved_by q = Some ''h''"
    by (auto split: option.splits)
  with request_lifecycle[OF idle_demo(2) this(1), of demo_evolution "[Evo_Reject ''C'' ''late'', Evo_Apply ''C'']"]
  show ?thesis by auto
qed

text \<open>
  C30: An APPLIED change whose target has been superseded cannot be applied again: although applying is
  announced as idempotent for APPLIED requests, a repeated application raises a conflict as soon as a later
  baseline is current (the database is not touched). Reconciling a catalogue of two declared changes a second
  time therefore fails on the first one.
\<close>

theorem superseded_change_reapply_conflicts:
  assumes "idle w" "lookup acr_request_id k (db_change_requests (live w)) = Some r" "\<not> is_blank k"
    "acr_status r = Acr_APPLIED" "ev_canonical E (acr_target_version r) = Some c" "acr_rule_ids r = av_rules c"
    "lookup adr_id (acr_adr_id r) (db_adrs (live w)) = Some a" "adr_status a = Adr_ACCEPTED"
    "\<not> is_blank (acr_target_version r)"
    "filter av_is_current (db_versions (live w)) = [v]" "av_version v \<noteq> acr_target_version r"
  shows "fst (evolution_apply E k w) = Inl ArchitectureEvolutionConflictError \<and>
    durable (snd (evolution_apply E k w)) = durable w"
  using assms
  by (simp add: evolution_apply_def exec mk_version_valid verify_applied_def single_current_def)

theorem superseded_change_reapply_conflicts_witness:
  "fst (evolution_apply demo_evolution ''C'' (demo_after 6)) = Inl ArchitectureEvolutionConflictError"
proof -
  have "let d = durable (demo_after 6) in
     (case lookup acr_request_id ''C'' (db_change_requests d) of None \<Rightarrow> False
      | Some r \<Rightarrow> acr_status r = Acr_APPLIED \<and> acr_target_version r = ''1.1'' \<and> acr_rule_ids r = [''r''] \<and> acr_adr_id r = ''A'') \<and>
     (case lookup adr_id ''A'' (db_adrs d) of None \<Rightarrow> False | Some a \<Rightarrow> adr_status a = Adr_ACCEPTED) \<and>
     map av_version (filter av_is_current (db_versions d)) = [''1.2'']"
    by code_simp
  then obtain r a v where r: "lookup acr_request_id ''C'' (db_change_requests (durable (demo_after 6))) = Some r"
      "acr_status r = Acr_APPLIED" "acr_target_version r = ''1.1''" "acr_rule_ids r = [''r'']" "acr_adr_id r = ''A''"
    and a: "lookup adr_id ''A'' (db_adrs (durable (demo_after 6))) = Some a" "adr_status a = Adr_ACCEPTED"
    and v: "filter av_is_current (db_versions (durable (demo_after 6))) = [v]" "av_version v = ''1.2''"
    by (auto simp: Let_def split: option.splits)
  have "live (demo_after 6) = durable (demo_after 6)" using idle_demo(2) by (simp add: idle_def)
  with superseded_change_reapply_conflicts[OF idle_demo(2)[of 6], where k = "''C''" and r = r and E = demo_evolution
      and c = "demo_version ''1.1''" and a = a and v = v] r a v
  show ?thesis by (simp add: demo_evolution_def demo_version_def is_space_def)
qed

end
