(* ===== verification/Evidence.thy ===== *)
theory Evidence
  imports Models Json "HOL-Library.AList" "HOL-Library.Multiset"
begin

text \<open>
  The evidence merger (\<open>application/evidence_merger.py\<close>): what the consultative advisors said,
  merged into one view without a vote. An observation is one advisor execution, \<open>merge_evidence\<close>
  the fold over the delivered observations with the dictionaries of the code as association lists
  in insertion order, \<open>mk_view\<close> the checks of the view's construction. The lemmas give the view
  of any sequence of observations in closed form (every finding kept once, in order of arrival,
  each in exactly one relation group) and all the ways the merge raises.
\<close>

section \<open>Vocabularies\<close>

datatype observation_status = Obs_FINDING | Obs_ABSTAIN | Obs_ERROR

primrec observation_status_value :: "observation_status \<Rightarrow> string" where
  "observation_status_value Obs_FINDING = ''FINDING''"
| "observation_status_value Obs_ABSTAIN = ''ABSTAIN''"
| "observation_status_value Obs_ERROR = ''ERROR''"

definition observation_status_members :: "observation_status list" where
  "observation_status_members = [Obs_FINDING, Obs_ABSTAIN, Obs_ERROR]"

interpretation observation_status_enum: str_enum observation_status_members observation_status_value
proof unfold_locales
  show "m \<in> set observation_status_members" for m
    by (cases m) (simp_all add: observation_status_members_def)
  show "distinct (map observation_status_value observation_status_members)"
    by (simp add: observation_status_members_def)
qed

datatype evidence_relation = Rel_UNRESOLVED | Rel_SUPPORTING | Rel_CONTRADICTING

primrec evidence_relation_value :: "evidence_relation \<Rightarrow> string" where
  "evidence_relation_value Rel_UNRESOLVED = ''UNRESOLVED''"
| "evidence_relation_value Rel_SUPPORTING = ''SUPPORTING''"
| "evidence_relation_value Rel_CONTRADICTING = ''CONTRADICTING''"

definition evidence_relation_members :: "evidence_relation list" where
  "evidence_relation_members = [Rel_UNRESOLVED, Rel_SUPPORTING, Rel_CONTRADICTING]"

interpretation evidence_relation_enum: str_enum evidence_relation_members evidence_relation_value
proof unfold_locales
  show "m \<in> set evidence_relation_members" for m
    by (cases m) (simp_all add: evidence_relation_members_def)
  show "distinct (map evidence_relation_value evidence_relation_members)"
    by (simp add: evidence_relation_members_def)
qed

section \<open>Observations, outcomes, conflicts\<close>

definition merger_text :: "string \<Rightarrow> exn + string" where
  "merger_text s = (if is_blank s then Inl EvidenceMergerError else Inr s)"

definition merger_optional_text :: "string option \<Rightarrow> string option" where
  "merger_optional_text v =
     (case v of None \<Rightarrow> None | Some s \<Rightarrow> if strip s = [] then None else Some (strip s))"

definition merger_texts :: "string list \<Rightarrow> exn + string list" where
  "merger_texts xs = mapE merger_text xs"

record observation =
  obs_source :: string
  obs_status :: observation_status
  obs_finding :: "finding option"
  obs_reason :: "string option"
  obs_relation :: evidence_relation
  obs_relation_target :: "string option"

definition mk_observation :: "observation \<Rightarrow> exn + observation" where
  "mk_observation ob =
     bindE (merger_text (obs_source ob)) (\<lambda>_.
     let target = merger_optional_text (obs_relation_target ob);
         normal = ob\<lparr>obs_relation_target := target\<rparr> in
     if obs_status ob = Obs_FINDING then
       (case obs_finding ob of
          None \<Rightarrow> Inl EvidenceMergerError
        | Some f \<Rightarrow>
            bindE (requireE (obs_source ob = finding_source f) EvidenceMergerError) (\<lambda>_.
            bindE (requireE (merger_optional_text (obs_reason ob) = None) EvidenceMergerError) (\<lambda>_.
            bindE (requireE (\<not> (obs_relation ob \<noteq> Rel_UNRESOLVED \<and> target = None)) EvidenceMergerError) (\<lambda>_.
            Inr normal))))
     else
       bindE (requireE (obs_finding ob = None) EvidenceMergerError) (\<lambda>_.
       bindE (case obs_reason ob of None \<Rightarrow> Inl EvidenceMergerError | Some r \<Rightarrow> merger_text r) (\<lambda>_.
       bindE (requireE (obs_relation ob = Rel_UNRESOLVED) EvidenceMergerError) (\<lambda>_.
       bindE (requireE (target = None) EvidenceMergerError) (\<lambda>_.
       Inr normal)))))"

record outcome =
  outcome_source :: string
  outcome_reason :: string

definition mk_outcome :: "outcome \<Rightarrow> exn + outcome" where
  "mk_outcome x =
     bindE (merger_text (outcome_source x)) (\<lambda>_. bindE (merger_text (outcome_reason x)) (\<lambda>_. Inr x))"

definition outcome_to_dict :: "outcome \<Rightarrow> json" where
  "outcome_to_dict x =
     JObj [(''source'', JStr (outcome_source x)), (''reason'', JStr (outcome_reason x))]"

record conflict =
  conflict_target :: string
  conflict_supporting :: "string list"
  conflict_contradicting :: "string list"

definition mk_conflict :: "conflict \<Rightarrow> exn + conflict" where
  "mk_conflict c =
     bindE (merger_text (conflict_target c)) (\<lambda>_.
     bindE (merger_texts (conflict_supporting c)) (\<lambda>_.
     bindE (merger_texts (conflict_contradicting c)) (\<lambda>_.
     bindE (requireE (conflict_supporting c \<noteq> [] \<and> conflict_contradicting c \<noteq> []) EvidenceMergerError) (\<lambda>_.
     bindE (requireE (set (conflict_supporting c) \<inter> set (conflict_contradicting c) = {}) EvidenceMergerError) (\<lambda>_.
     Inr c)))))"

definition conflict_to_dict :: "conflict \<Rightarrow> json" where
  "conflict_to_dict c =
     JObj [(''target'', JStr (conflict_target c)),
       (''supporting_ids'', json_texts (conflict_supporting c)),
       (''contradicting_ids'', json_texts (conflict_contradicting c))]"

section \<open>The evidence view\<close>

record view =
  view_findings :: "finding list"
  view_supporting :: "string list"
  view_conflicting :: "string list"
  view_unresolved :: "string list"
  view_abstained :: "outcome list"
  view_errors :: "outcome list"
  view_conflicts :: "conflict list"
  view_questions :: "string list"
  view_gate_status :: "decision_status option"
  view_gate_anchors :: "string list"

definition view_finding_ids :: "view \<Rightarrow> string list" where
  "view_finding_ids v = map finding_id (view_findings v)"

definition view_sources :: "view \<Rightarrow> string list" where
  "view_sources v = sort (remdups (map finding_source (view_findings v)))"

definition has_conflicts :: "view \<Rightarrow> bool" where
  "has_conflicts v \<longleftrightarrow> view_conflicts v \<noteq> []"

definition mk_view :: "view \<Rightarrow> exn + view" where
  "mk_view v =
     (let ids = view_finding_ids v; sup = view_supporting v; con = view_conflicting v;
          unr = view_unresolved v in
      bindE (requireE (distinct ids) EvidenceMergerError) (\<lambda>_.
      bindE (merger_texts sup) (\<lambda>_.
      bindE (merger_texts con) (\<lambda>_.
      bindE (merger_texts unr) (\<lambda>_.
      bindE (requireE (set sup \<subseteq> set ids) EvidenceMergerError) (\<lambda>_.
      bindE (requireE (set con \<subseteq> set ids) EvidenceMergerError) (\<lambda>_.
      bindE (requireE (set unr \<subseteq> set ids) EvidenceMergerError) (\<lambda>_.
      bindE (requireE ((set sup \<inter> set con) \<union> (set sup \<inter> set unr) \<union> (set con \<inter> set unr) = {})
               EvidenceMergerError) (\<lambda>_.
      bindE (requireE (set sup \<union> set con \<union> set unr = set ids) EvidenceMergerError) (\<lambda>_.
      bindE (merger_texts (view_questions v)) (\<lambda>_.
      bindE (merger_texts (view_gate_anchors v)) (\<lambda>_.
      Inr v))))))))))))"

definition finding_to_dict :: "finding \<Rightarrow> json" where
  "finding_to_dict f =
     JObj [(''id'', JStr (finding_id f)), (''source'', JStr (finding_source f)),
       (''claim'', JStr (finding_claim f)), (''evidence'', json_texts (finding_evidence f)),
       (''confidence'', JReal (finding_confidence f)),
       (''severity'', JStr (severity_value (finding_severity f))),
       (''step_no'', json_opt JInt (finding_step_no f)),
       (''created_at'', JTime (finding_created_at f))]"

definition view_to_dict :: "view \<Rightarrow> json" where
  "view_to_dict v =
     JObj [(''findings'', JList (map finding_to_dict (view_findings v))),
       (''supporting_ids'', json_texts (view_supporting v)),
       (''conflicting_ids'', json_texts (view_conflicting v)),
       (''unresolved_ids'', json_texts (view_unresolved v)),
       (''abstained'', JList (map outcome_to_dict (view_abstained v))),
       (''errors'', JList (map outcome_to_dict (view_errors v))),
       (''conflicts'', JList (map conflict_to_dict (view_conflicts v))),
       (''unresolved_questions'', json_texts (view_questions v)),
       (''gate_status'', json_opt (\<lambda>s. JStr (decision_status_value s)) (view_gate_status v)),
       (''gate_anchors'', json_texts (view_gate_anchors v))]"

section \<open>Merging\<close>

definition settled :: "decision_status \<Rightarrow> bool" where
  "settled s \<longleftrightarrow> s = Decision_ACCEPTED \<or> s = Decision_REJECTED"

definition merger_gate :: "decision option \<Rightarrow> exn + decision option" where
  "merger_gate g =
     (case g of None \<Rightarrow> Inr None
      | Some d \<Rightarrow> if settled (decision_status d) then Inr (Some d) else Inl EvidenceMergerError)"

type_synonym identity = "string \<times> string \<times> string list \<times> int option"

definition identity_of :: "finding \<Rightarrow> identity" where
  "identity_of f = (finding_source f, finding_claim f, finding_evidence f, finding_step_no f)"

definition conflict_question :: "conflict \<Rightarrow> string" where
  "conflict_question c =
     ''Unresolved evidence conflict on '' @ conflict_target c @ '': supporting ''
     @ join '', '' (conflict_supporting c) @ '' vs contradicting ''
     @ join '', '' (conflict_contradicting c)"

definition anchors_of :: "decision option \<Rightarrow> string set" where
  "anchors_of verdict =
     (case verdict of None \<Rightarrow> {}
      | Some d \<Rightarrow> set (decision_rules_applied d) \<union> set (decision_evidence_refs d))"

text \<open>The local variables of the loop; the dictionaries in insertion order.\<close>

record merging =
  mg_findings :: "finding list"
  mg_identity :: "(string \<times> identity) list"
  mg_effective :: "(string \<times> evidence_relation) list"
  mg_targets :: "(string \<times> string) list"
  mg_abstained :: "outcome list"
  mg_errors :: "outcome list"

definition mg_start :: merging where
  "mg_start = \<lparr>mg_findings = [], mg_identity = [], mg_effective = [], mg_targets = [],
     mg_abstained = [], mg_errors = []\<rparr>"

definition observed_outcome :: "observation \<Rightarrow> exn + outcome" where
  "observed_outcome ob =
     (case obs_reason ob of None \<Rightarrow> Inl EvidenceMergerError
      | Some r \<Rightarrow> mk_outcome \<lparr>outcome_source = obs_source ob, outcome_reason = r\<rparr>)"

definition honoured :: "string set \<Rightarrow> observation \<Rightarrow> string option" where
  "honoured anchors ob =
     (if obs_relation ob = Rel_UNRESOLVED then None
      else (case obs_relation_target ob of None \<Rightarrow> None
            | Some t \<Rightarrow> if t \<in> anchors then Some t else None))"

definition merge_finding :: "string set \<Rightarrow> observation \<Rightarrow> finding \<Rightarrow> merging \<Rightarrow> exn + merging" where
  "merge_finding anchors ob f m =
     (case map_of (mg_identity m) (finding_id f) of
        Some previous \<Rightarrow>
          if previous \<noteq> identity_of f then Inl EvidenceIdentityCollisionError else Inr m
      | None \<Rightarrow>
          let m1 = m\<lparr>mg_identity := AList.update (finding_id f) (identity_of f) (mg_identity m),
                     mg_findings := mg_findings m @ [f]\<rparr> in
          (case honoured anchors ob of
             None \<Rightarrow> Inr (m1\<lparr>mg_effective := AList.update (finding_id f) Rel_UNRESOLVED (mg_effective m)\<rparr>)
           | Some t \<Rightarrow>
               Inr (m1\<lparr>mg_effective := AList.update (finding_id f) (obs_relation ob) (mg_effective m),
                       mg_targets := AList.update (finding_id f) t (mg_targets m)\<rparr>)))"

definition merge_observation :: "string set \<Rightarrow> observation \<Rightarrow> merging \<Rightarrow> exn + merging" where
  "merge_observation anchors ob m =
     (case obs_status ob of
        Obs_ABSTAIN \<Rightarrow>
          bindE (observed_outcome ob) (\<lambda>x. Inr (m\<lparr>mg_abstained := mg_abstained m @ [x]\<rparr>))
      | Obs_ERROR \<Rightarrow>
          bindE (observed_outcome ob) (\<lambda>x. Inr (m\<lparr>mg_errors := mg_errors m @ [x]\<rparr>))
      | Obs_FINDING \<Rightarrow>
          (case obs_finding ob of None \<Rightarrow> Inl EvidenceMergerError | Some f \<Rightarrow> merge_finding anchors ob f m))"

primrec merge_observations :: "string set \<Rightarrow> observation list \<Rightarrow> merging \<Rightarrow> exn + merging" where
  "merge_observations anchors [] m = Inr m"
| "merge_observations anchors (ob # obs) m =
     bindE (merge_observation anchors ob m) (merge_observations anchors obs)"

type_synonym buckets = "(string \<times> (string list \<times> string list)) list"

definition add_to_bucket :: "evidence_relation \<Rightarrow> string \<Rightarrow> string list \<times> string list \<Rightarrow> string list \<times> string list" where
  "add_to_bucket r i b =
     (if r = Rel_SUPPORTING then (fst b @ [i], snd b)
      else if r = Rel_CONTRADICTING then (fst b, snd b @ [i]) else b)"

primrec group_targets :: "(string \<Rightarrow> evidence_relation option) \<Rightarrow> (string \<times> string) list \<Rightarrow> buckets \<Rightarrow> buckets" where
  "group_targets eff [] g = g"
| "group_targets eff (p # ps) g =
     (let i = fst p; anchor = snd p;
          b = (case map_of g anchor of None \<Rightarrow> ([], []) | Some b \<Rightarrow> b) in
      group_targets eff ps
        (AList.update anchor (add_to_bucket (case eff i of None \<Rightarrow> Rel_UNRESOLVED | Some r \<Rightarrow> r) i b) g))"

definition merged_conflicts :: "merging \<Rightarrow> exn + conflict list" where
  "merged_conflicts m =
     (let g = group_targets (map_of (mg_effective m)) (mg_targets m) [] in
      mapE mk_conflict
        [\<lparr>conflict_target = a, conflict_supporting = fst (the (map_of g a)),
          conflict_contradicting = snd (the (map_of g a))\<rparr>.
         a \<leftarrow> sort (map fst g), fst (the (map_of g a)) \<noteq> [] \<and> snd (the (map_of g a)) \<noteq> []])"

definition ids_with :: "evidence_relation \<Rightarrow> merging \<Rightarrow> string list" where
  "ids_with r m = filter (\<lambda>i. map_of (mg_effective m) i = Some r) (map fst (mg_identity m))"

definition merge_evidence :: "observation list \<Rightarrow> decision option \<Rightarrow> exn + view" where
  "merge_evidence obs gate =
     bindE (merger_gate gate) (\<lambda>verdict.
     let anchors = anchors_of verdict in
     bindE (merge_observations anchors obs mg_start) (\<lambda>m.
     bindE (merged_conflicts m) (\<lambda>conflicts.
     mk_view \<lparr>view_findings = mg_findings m, view_supporting = ids_with Rel_SUPPORTING m,
       view_conflicting = ids_with Rel_CONTRADICTING m,
       view_unresolved = ids_with Rel_UNRESOLVED m,
       view_abstained = mg_abstained m, view_errors = mg_errors m, view_conflicts = conflicts,
       view_questions = map conflict_question conflicts,
       view_gate_status = map_option decision_status verdict,
       view_gate_anchors = sorted_list_of_set anchors\<rparr>)))"


section \<open>The closed form of a merge\<close>

definition valid_observation :: "observation \<Rightarrow> bool" where
  "valid_observation ob \<longleftrightarrow> mk_observation ob = Inr ob
     \<and> (case obs_finding ob of None \<Rightarrow> True | Some f \<Rightarrow> mk_finding f = Inr f)"

definition finding_of :: "observation \<Rightarrow> finding option" where
  "finding_of ob = (if obs_status ob = Obs_FINDING then obs_finding ob else None)"

definition delivered_id :: "observation \<Rightarrow> string" where
  "delivered_id ob = finding_id (the (finding_of ob))"

definition deliveries :: "observation list \<Rightarrow> finding set" where
  "deliveries obs = {f. \<exists>ob\<in>set obs. finding_of ob = Some f}"

text \<open>The first observation of every finding id, in order of arrival.\<close>

primrec first_deliveries :: "string set \<Rightarrow> observation list \<Rightarrow> observation list" where
  "first_deliveries seen [] = []"
| "first_deliveries seen (ob # obs) =
     (case finding_of ob of
        None \<Rightarrow> first_deliveries seen obs
      | Some f \<Rightarrow> if finding_id f \<in> seen then first_deliveries seen obs
                 else ob # first_deliveries (insert (finding_id f) seen) obs)"

definition consistent_ids :: "finding set \<Rightarrow> bool" where
  "consistent_ids F \<longleftrightarrow> (\<forall>f\<in>F. \<forall>g\<in>F. finding_id f = finding_id g \<longrightarrow> identity_of f = identity_of g)"

definition effective_relation :: "string set \<Rightarrow> observation \<Rightarrow> evidence_relation" where
  "effective_relation anchors ob =
     (case honoured anchors ob of None \<Rightarrow> Rel_UNRESOLVED | Some t \<Rightarrow> obs_relation ob)"

definition outcomes_of :: "observation_status \<Rightarrow> observation list \<Rightarrow> outcome list" where
  "outcomes_of s obs =
     map (\<lambda>ob. \<lparr>outcome_source = obs_source ob, outcome_reason = the (obs_reason ob)\<rparr>)
       (filter (\<lambda>ob. obs_status ob = s) obs)"

definition merging_of :: "string set \<Rightarrow> observation list \<Rightarrow> outcome list \<Rightarrow> outcome list \<Rightarrow> merging" where
  "merging_of anchors ks as es =
     \<lparr>mg_findings = map (\<lambda>ob. the (finding_of ob)) ks,
      mg_identity = map (\<lambda>ob. (delivered_id ob, identity_of (the (finding_of ob)))) ks,
      mg_effective = map (\<lambda>ob. (delivered_id ob, effective_relation anchors ob)) ks,
      mg_targets = map (\<lambda>ob. (delivered_id ob, the (obs_relation_target ob)))
                     (filter (\<lambda>ob. honoured anchors ob \<noteq> None) ks),
      mg_abstained = as, mg_errors = es\<rparr>"

lemma update_fresh: "k \<notin> fst ` set al \<Longrightarrow> AList.update k v al = al @ [(k, v)]"
  by (induction al) auto

lemma update_fresh_map:
  "k \<notin> d ` set xs \<Longrightarrow> AList.update k v (map (\<lambda>x. (d x, g x)) xs) = map (\<lambda>x. (d x, g x)) xs @ [(k, v)]"
  by (simp add: update_fresh image_image)

lemma merger_text_ok [simp]: "merger_text s = Inr t \<longleftrightarrow> t = s \<and> \<not> is_blank s"
  by (auto simp: merger_text_def)

lemma merger_texts_ok [simp]: "merger_texts xs = Inr ys \<longleftrightarrow> ys = xs \<and> (\<forall>x\<in>set xs. \<not> is_blank x)"
  unfolding merger_texts_def by (induction xs arbitrary: ys) auto

lemma valid_observation_cases:
  assumes "valid_observation ob"
  shows "(\<exists>f. obs_status ob = Obs_FINDING \<and> obs_finding ob = Some f \<and> finding_of ob = Some f
            \<and> \<not> is_blank (finding_id f))
       \<or> (\<exists>r. obs_status ob \<noteq> Obs_FINDING \<and> finding_of ob = None
            \<and> observed_outcome ob = Inr \<lparr>outcome_source = obs_source ob, outcome_reason = r\<rparr>
            \<and> obs_reason ob = Some r)"
  using assms
  by (auto simp: valid_observation_def mk_observation_def finding_of_def mk_finding_def
      observed_outcome_def mk_outcome_def Let_def split: option.splits if_splits)

lemma first_deliveries_finding:
  "ob \<in> set (first_deliveries seen obs) \<Longrightarrow> ob \<in> set obs \<and> finding_of ob \<noteq> None \<and> delivered_id ob \<notin> seen"
  by (induction obs arbitrary: seen) (auto simp: delivered_id_def split: option.splits if_splits)

lemma delivered_id_eq: "finding_of ob = Some f \<Longrightarrow> delivered_id ob = finding_id f"
  by (simp add: delivered_id_def)

lemma first_deliveries_distinct: "distinct (map delivered_id (first_deliveries seen obs))"
proof (induction obs arbitrary: seen)
  case (Cons ob obs)
  have "finding_id f \<notin> delivered_id ` set (first_deliveries (insert (finding_id f) seen) obs)" for f
    by (auto dest!: first_deliveries_finding)
  then show ?case
    using Cons by (cases "finding_of ob") (auto simp: delivered_id_eq)
qed simp

lemma consistent_idsD:
  "consistent_ids F \<Longrightarrow> f \<in> F \<Longrightarrow> g \<in> F \<Longrightarrow> finding_id f = finding_id g \<Longrightarrow> identity_of f = identity_of g"
  unfolding consistent_ids_def by blast

lemma consistent_idsI:
  "(\<And>f g. f \<in> F \<Longrightarrow> g \<in> F \<Longrightarrow> finding_id f = finding_id g \<Longrightarrow> identity_of f = identity_of g)
   \<Longrightarrow> consistent_ids F"
  unfolding consistent_ids_def by blast

lemma consistent_ids_insert:
  assumes g: "g \<in> F" "finding_id g = finding_id f"
  shows "consistent_ids (insert f F) \<longleftrightarrow> consistent_ids F \<and> identity_of g = identity_of f"
proof (intro iffI conjI)
  assume c: "consistent_ids (insert f F)"
  show "consistent_ids F" by (rule consistent_idsI) (rule consistent_idsD[OF c]; simp)
  show "identity_of g = identity_of f" by (rule consistent_idsD[OF c]) (simp_all add: g)
next
  assume c: "consistent_ids F \<and> identity_of g = identity_of f"
  then have eq: "identity_of h = identity_of f" if "h \<in> F" "finding_id h = finding_id f" for h
    using consistent_idsD[of F h g] that g by simp
  show "consistent_ids (insert f F)"
  proof (rule consistent_idsI)
    fix x y
    assume "x \<in> insert f F" "y \<in> insert f F" "finding_id x = finding_id y"
    then show "identity_of x = identity_of y"
      using eq c by (metis consistent_idsD insertE)
  qed
qed

lemma consistent_ids_new:
  "(\<And>g. g \<in> F \<Longrightarrow> finding_id g \<noteq> finding_id f) \<Longrightarrow> consistent_ids (insert f F) \<longleftrightarrow> consistent_ids F"
  unfolding consistent_ids_def by (simp, metis)

lemma honoured_target: "honoured anchors ob = Some t \<Longrightarrow> obs_relation_target ob = Some t \<and> t \<in> anchors"
  by (auto simp: honoured_def split: if_splits option.splits)

lemma merging_map_of:
  "distinct (map delivered_id ks) \<Longrightarrow>
   map_of (map (\<lambda>ob. (delivered_id ob, g ob)) ks) i = Some x \<longleftrightarrow> (\<exists>ob\<in>set ks. delivered_id ob = i \<and> g ob = x)"
  by (subst map_of_eq_Some_iff) (auto simp: comp_def)

lemma merging_map_of_None:
  "map_of (map (\<lambda>ob. (delivered_id ob, g ob)) ks) i = None \<longleftrightarrow> (\<forall>ob\<in>set ks. delivered_id ob \<noteq> i)"
  by (auto simp: map_of_eq_None_iff image_image)

lemma merge_finding_fresh:
  assumes "finding_of ob = Some f" "\<forall>k\<in>set ks. delivered_id k \<noteq> finding_id f"
  shows "merge_finding anchors ob f (merging_of anchors ks as es) = Inr (merging_of anchors (ks @ [ob]) as es)"
proof -
  have fresh: "finding_id f \<notin> delivered_id ` set ks" using assms(2) by auto
  have none: "map_of (mg_identity (merging_of anchors ks as es)) (finding_id f) = None"
    using assms(2) by (simp add: merging_of_def merging_map_of_None)
  have "finding_id f \<notin> delivered_id ` set (filter P ks)" for P using fresh by auto
  with assms(1) none fresh show ?thesis
    by (auto simp: merge_finding_def merging_of_def delivered_id_eq[OF assms(1)] effective_relation_def
        update_fresh_map dest: honoured_target split: option.splits)
qed

lemma merge_finding_seen:
  assumes "distinct (map delivered_id ks)" "k \<in> set ks" "delivered_id k = finding_id f"
  shows "merge_finding anchors ob f (merging_of anchors ks as es) =
     (if identity_of (the (finding_of k)) = identity_of f then Inr (merging_of anchors ks as es)
      else Inl EvidenceIdentityCollisionError)"
proof -
  have "map_of (mg_identity (merging_of anchors ks as es)) (finding_id f)
      = Some (identity_of (the (finding_of k)))"
    using assms by (auto simp: merging_of_def merging_map_of)
  then show ?thesis by (simp add: merge_finding_def)
qed


lemma merge_observation_valid:
  assumes "valid_observation ob" "distinct (map delivered_id ks)"
  shows "merge_observation anchors ob (merging_of anchors ks as es) =
     (case finding_of ob of
        None \<Rightarrow> Inr (merging_of anchors ks (as @ outcomes_of Obs_ABSTAIN [ob]) (es @ outcomes_of Obs_ERROR [ob]))
      | Some f \<Rightarrow>
          (case find (\<lambda>k. delivered_id k = finding_id f) ks of
             None \<Rightarrow> Inr (merging_of anchors (ks @ [ob]) as es)
           | Some k \<Rightarrow> if identity_of (the (finding_of k)) = identity_of f
                      then Inr (merging_of anchors ks as es) else Inl EvidenceIdentityCollisionError))"
proof (cases "finding_of ob")
  case None
  then show ?thesis
    using valid_observation_cases[OF assms(1)]
    by (cases "obs_status ob") (auto simp: merge_observation_def outcomes_of_def merging_of_def)
next
  case (Some f)
  then have st: "obs_status ob = Obs_FINDING" "obs_finding ob = Some f"
    by (auto simp: finding_of_def split: if_splits)
  show ?thesis
  proof (cases "find (\<lambda>k. delivered_id k = finding_id f) ks")
    case None
    then have "\<forall>k\<in>set ks. delivered_id k \<noteq> finding_id f" by (simp add: find_None_iff)
    then show ?thesis
      using Some st None by (simp add: merge_observation_def merge_finding_fresh)
  next
    case (Some k)
    then have "k \<in> set ks" "delivered_id k = finding_id f"
      by (auto simp: find_Some_iff)
    then show ?thesis
      using st \<open>finding_of ob = Some f\<close> Some assms(2)
      by (simp add: merge_observation_def merge_finding_seen)
  qed
qed

lemma merge_loop:
  assumes "\<forall>ob\<in>set obs. valid_observation ob"
    and "distinct (map delivered_id ks)" "\<forall>k\<in>set ks. finding_of k \<noteq> None"
    and "consistent_ids (deliveries ks)"
  shows "merge_observations anchors obs (merging_of anchors ks as es) =
     (if consistent_ids (deliveries (ks @ obs))
      then Inr (merging_of anchors (ks @ first_deliveries (delivered_id ` set ks) obs)
             (as @ outcomes_of Obs_ABSTAIN obs) (es @ outcomes_of Obs_ERROR obs))
      else Inl EvidenceIdentityCollisionError)"
  using assms
proof (induction obs arbitrary: ks as es)
  case Nil
  then show ?case by (simp add: outcomes_of_def)
next
  case (Cons ob obs)
  have step: "merge_observations anchors (ob # obs) (merging_of anchors ks as es) =
     bindE (merge_observation anchors ob (merging_of anchors ks as es)) (merge_observations anchors obs)"
    by simp
  have valid: "valid_observation ob" "\<forall>o'\<in>set obs. valid_observation o'"
    using Cons.prems(1) by auto
  note run = merge_observation_valid[OF valid(1) Cons.prems(2), of anchors as es]
  show ?case
  proof (cases "finding_of ob")
    case None
    then have "deliveries (ks @ ob # obs) = deliveries (ks @ obs)" by (auto simp: deliveries_def)
    then show ?thesis
      using None run Cons.IH[OF valid(2) Cons.prems(2-4)]
      by (simp add: outcomes_of_def)
  next
    case (Some f)
    show ?thesis
    proof (cases "find (\<lambda>k. delivered_id k = finding_id f) ks")
      case None
      then have new: "\<forall>k\<in>set ks. delivered_id k \<noteq> finding_id f" by (simp add: find_None_iff)
      have "finding_id g \<noteq> finding_id f" if "g \<in> deliveries ks" for g
        using that new by (auto simp: deliveries_def dest: delivered_id_eq)
      moreover have "deliveries (ks @ [ob]) = insert f (deliveries ks)"
        using Some by (auto simp: deliveries_def)
      ultimately have "consistent_ids (deliveries (ks @ [ob]))"
        using Cons.prems(4) by (simp add: consistent_ids_new)
      moreover have "distinct (map delivered_id (ks @ [ob]))"
        using Cons.prems(2) new delivered_id_eq[OF Some] by auto
      moreover have "\<forall>k\<in>set (ks @ [ob]). finding_of k \<noteq> None"
        using Cons.prems(3) Some by simp
      ultimately have "merge_observations anchors obs (merging_of anchors (ks @ [ob]) as es) =
          (if consistent_ids (deliveries ((ks @ [ob]) @ obs))
           then Inr (merging_of anchors ((ks @ [ob]) @ first_deliveries (delivered_id ` set (ks @ [ob])) obs)
                  (as @ outcomes_of Obs_ABSTAIN obs) (es @ outcomes_of Obs_ERROR obs))
           else Inl EvidenceIdentityCollisionError)"
        using Cons.IH[OF valid(2)] by blast
      moreover have "delivered_id ` set (ks @ [ob]) = insert (finding_id f) (delivered_id ` set ks)"
        using delivered_id_eq[OF Some] by simp
      moreover have "outcomes_of Obs_ABSTAIN (ob # obs) = outcomes_of Obs_ABSTAIN obs"
        "outcomes_of Obs_ERROR (ob # obs) = outcomes_of Obs_ERROR obs"
        using Some by (auto simp: outcomes_of_def finding_of_def split: if_splits)
      moreover have "finding_id f \<notin> delivered_id ` set ks" using new by auto
      ultimately show ?thesis
        using run None Some by simp
    next
      case (Some k)
      then have k: "k \<in> set ks" "delivered_id k = finding_id f"
        by (auto simp: find_Some_iff)
      then obtain g where g: "finding_of k = Some g" "finding_id g = finding_id f"
        using Cons.prems(3) by (metis delivered_id_eq option.exhaust)
      have same: "deliveries (ks @ ob # obs) = insert f (deliveries (ks @ obs))"
        using \<open>finding_of ob = Some f\<close> by (auto simp: deliveries_def)
      have gk: "g \<in> deliveries (ks @ obs)"
        using g k by (auto simp: deliveries_def)
      have outs: "outcomes_of s (ob # obs) = outcomes_of s obs" if "s \<noteq> Obs_FINDING" for s
        using \<open>finding_of ob = Some f\<close> that by (auto simp: outcomes_of_def finding_of_def split: if_splits)
      have seen: "finding_id f \<in> delivered_id ` set ks" using k by (metis imageI)
      have keep: "first_deliveries (delivered_id ` set ks) (ob # obs) = first_deliveries (delivered_id ` set ks) obs"
        using seen \<open>finding_of ob = Some f\<close> by simp
      have "consistent_ids (insert f (deliveries (ks @ obs))) \<longleftrightarrow>
          consistent_ids (deliveries (ks @ obs)) \<and> identity_of g = identity_of f"
        by (rule consistent_ids_insert[OF gk g(2)])
      then show ?thesis
        using run Some g(1) same outs keep \<open>finding_of ob = Some f\<close>
          Cons.IH[OF valid(2) Cons.prems(2-4), of as es] by simp
    qed
  qed
qed


lemma merge_observations_start:
  assumes "\<forall>ob\<in>set obs. valid_observation ob"
  shows "merge_observations anchors obs mg_start =
     (if consistent_ids (deliveries obs)
      then Inr (merging_of anchors (first_deliveries {} obs)
             (outcomes_of Obs_ABSTAIN obs) (outcomes_of Obs_ERROR obs))
      else Inl EvidenceIdentityCollisionError)"
proof -
  have "mg_start = merging_of anchors [] [] []"
    by (simp add: mg_start_def merging_of_def)
  moreover have "consistent_ids (deliveries [])"
    by (simp add: consistent_ids_def deliveries_def)
  ultimately show ?thesis
    using merge_loop[OF assms, of "[]" anchors "[]" "[]"] by simp
qed

text \<open>The buckets after the grouping loop.\<close>

definition related :: "(string \<Rightarrow> evidence_relation option) \<Rightarrow> evidence_relation \<Rightarrow> string \<Rightarrow> (string \<times> string) list \<Rightarrow> string list" where
  "related eff r anchor ps = map fst (filter (\<lambda>p. snd p = anchor \<and> eff (fst p) = Some r) ps)"

lemma related_simps:
  "related eff r a [] = []"
  "related eff r a (p # ps) =
     (if snd p = a \<and> eff (fst p) = Some r then fst p # related eff r a ps else related eff r a ps)"
  by (simp_all add: related_def)

lemma group_targets_lookup:
  "map_of (group_targets eff ps g) a =
     (if a \<in> snd ` set ps \<or> map_of g a \<noteq> None then
        Some ((case map_of g a of None \<Rightarrow> [] | Some b \<Rightarrow> fst b) @ related eff Rel_SUPPORTING a ps,
              (case map_of g a of None \<Rightarrow> [] | Some b \<Rightarrow> snd b) @ related eff Rel_CONTRADICTING a ps)
      else None)"
proof (induction ps arbitrary: g)
  case Nil
  then show ?case by (cases "map_of g a") (auto simp: related_simps)
next
  case (Cons p ps)
  then show ?case
    by (auto simp: related_simps update_conv' add_to_bucket_def Let_def split: option.splits)
qed

lemma group_targets_keys:
  assumes "distinct (map fst g)"
  shows "distinct (map fst (group_targets eff ps g))"
    and "set (map fst (group_targets eff ps g)) = fst ` set g \<union> snd ` set ps"
  using assms
proof (induction ps arbitrary: g)
  case (Cons p ps)
  { case 1 then show ?case using Cons.IH(1) by (simp add: Let_def distinct_update) }
  { case 2
    then have "set (map fst (group_targets eff (p # ps) g)) =
        fst ` set (AList.update (snd p) x g) \<union> snd ` set ps" if True for x
      using Cons.IH(2) by (simp add: Let_def distinct_update dom_update)
    with 2 show ?case by (auto simp: dom_update) }
qed auto


definition ids_related :: "string set \<Rightarrow> evidence_relation \<Rightarrow> observation list \<Rightarrow> string list" where
  "ids_related anchors r obs =
     map delivered_id (filter (\<lambda>ob. effective_relation anchors ob = r) (first_deliveries {} obs))"

definition ids_related_to :: "string set \<Rightarrow> evidence_relation \<Rightarrow> string \<Rightarrow> observation list \<Rightarrow> string list" where
  "ids_related_to anchors r a obs =
     map delivered_id (filter (\<lambda>ob. honoured anchors ob = Some a \<and> effective_relation anchors ob = r)
       (first_deliveries {} obs))"

definition contested :: "string set \<Rightarrow> observation list \<Rightarrow> string set" where
  "contested anchors obs =
     {a. ids_related_to anchors Rel_SUPPORTING a obs \<noteq> [] \<and> ids_related_to anchors Rel_CONTRADICTING a obs \<noteq> []}"

definition conflict_on :: "string set \<Rightarrow> observation list \<Rightarrow> string \<Rightarrow> conflict" where
  "conflict_on anchors obs a =
     \<lparr>conflict_target = a, conflict_supporting = ids_related_to anchors Rel_SUPPORTING a obs,
      conflict_contradicting = ids_related_to anchors Rel_CONTRADICTING a obs\<rparr>"

lemma ids_related_to_related:
  "ids_related_to anchors r a obs =
     related (map_of (mg_effective (merging_of anchors (first_deliveries {} obs) as es))) r a
       (mg_targets (merging_of anchors (first_deliveries {} obs) as es))"
proof -
  let ?ks = "first_deliveries {} obs"
  have eff: "map_of (map (\<lambda>ob. (delivered_id ob, effective_relation anchors ob)) ?ks) (delivered_id ob)
      = Some (effective_relation anchors ob)" if "ob \<in> set ?ks" for ob
    using that by (auto simp: merging_map_of first_deliveries_distinct)
  have "filter (\<lambda>ob. honoured anchors ob = Some a \<and> effective_relation anchors ob = r) ?ks =
      filter (\<lambda>ob. honoured anchors ob \<noteq> None \<and> the (obs_relation_target ob) = a
          \<and> map_of (map (\<lambda>ob. (delivered_id ob, effective_relation anchors ob)) ?ks) (delivered_id ob) = Some r) ?ks"
    by (rule filter_cong) (auto simp: eff dest: honoured_target, metis honoured_target option.sel)
  then show ?thesis
    by (simp add: ids_related_to_def related_def merging_of_def filter_map comp_def)
qed

lemma ids_related_to_facts:
  assumes "\<forall>ob\<in>set obs. valid_observation ob"
  shows "i \<in> set (ids_related_to anchors r a obs) \<Longrightarrow> \<not> is_blank i \<and> \<not> is_blank a \<and> a \<in> anchors"
proof -
  assume "i \<in> set (ids_related_to anchors r a obs)"
  then obtain ob where ob: "ob \<in> set (first_deliveries {} obs)" "honoured anchors ob = Some a" "i = delivered_id ob"
    by (auto simp: ids_related_to_def)
  then have v: "valid_observation ob" and f: "finding_of ob \<noteq> None"
    using assms first_deliveries_finding by blast+
  moreover have "\<not> is_blank i"
    using valid_observation_cases[OF v] f ob(3) by (auto simp: delivered_id_eq)
  moreover have "\<not> is_blank a"
  proof -
    have "merger_optional_text (obs_relation_target ob) = obs_relation_target ob"
      using v by (auto simp: valid_observation_def mk_observation_def Let_def split: if_splits option.splits
          dest!: arg_cong[where f = obs_relation_target])
    then show ?thesis
      using honoured_target[OF ob(2)]
      by (auto simp: merger_optional_text_def is_blank_def split: option.splits if_splits)
  qed
  ultimately show ?thesis using honoured_target[OF ob(2)] by simp
qed

lemma ids_related_to_disjoint:
  "r \<noteq> r' \<Longrightarrow> set (ids_related_to anchors r a obs) \<inter> set (ids_related_to anchors r' a obs) = {}"
  using first_deliveries_distinct[of "{}" obs]
  by (auto simp: ids_related_to_def distinct_map dest!: inj_onD)


definition merged_view :: "observation list \<Rightarrow> decision option \<Rightarrow> view" where
  "merged_view obs gate =
     (let anchors = anchors_of gate;
          conflicts = map (conflict_on anchors obs) (sorted_list_of_set (contested anchors obs)) in
      \<lparr>view_findings = map (\<lambda>ob. the (finding_of ob)) (first_deliveries {} obs),
       view_supporting = ids_related anchors Rel_SUPPORTING obs,
       view_conflicting = ids_related anchors Rel_CONTRADICTING obs,
       view_unresolved = ids_related anchors Rel_UNRESOLVED obs,
       view_abstained = outcomes_of Obs_ABSTAIN obs, view_errors = outcomes_of Obs_ERROR obs,
       view_conflicts = conflicts, view_questions = map conflict_question conflicts,
       view_gate_status = map_option decision_status gate,
       view_gate_anchors = sorted_list_of_set anchors\<rparr>)"

lemma conflict_on_ok:
  assumes "\<forall>ob\<in>set obs. valid_observation ob" "a \<in> contested anchors obs"
  shows "mk_conflict (conflict_on anchors obs a) = Inr (conflict_on anchors obs a)"
proof -
  have "ids_related_to anchors Rel_SUPPORTING a obs \<noteq> []" "ids_related_to anchors Rel_CONTRADICTING a obs \<noteq> []"
    using assms(2) by (auto simp: contested_def)
  moreover from this(1) obtain i where "i \<in> set (ids_related_to anchors Rel_SUPPORTING a obs)"
    by (meson ex_in_conv set_empty)
  ultimately show ?thesis
    using ids_related_to_facts[OF assms(1)] ids_related_to_disjoint[of Rel_SUPPORTING Rel_CONTRADICTING anchors a obs]
    by (auto simp: mk_conflict_def conflict_on_def)
qed

lemma filter_sorted_list_of_set:
  "finite A \<Longrightarrow> filter P (sorted_list_of_set A) = sorted_list_of_set {a \<in> A. P a}"
  by (rule sorted_distinct_set_unique) (auto simp: sorted_wrt_filter)

lemma merged_conflicts_closed:
  assumes "\<forall>ob\<in>set obs. valid_observation ob"
  shows "merged_conflicts (merging_of anchors (first_deliveries {} obs) as es) =
     Inr (map (conflict_on anchors obs) (sorted_list_of_set (contested anchors obs)))"
proof -
  let ?m = "merging_of anchors (first_deliveries {} obs) as es"
  let ?ps = "mg_targets ?m" and ?eff = "map_of (mg_effective ?m)"
  let ?g = "group_targets ?eff ?ps []"
  have look: "map_of ?g a = (if a \<in> snd ` set ?ps then
      Some (ids_related_to anchors Rel_SUPPORTING a obs, ids_related_to anchors Rel_CONTRADICTING a obs) else None)" for a
    by (simp add: group_targets_lookup ids_related_to_related[symmetric])
  have sub: "contested anchors obs \<subseteq> snd ` set ?ps"
  proof
    fix a
    assume "a \<in> contested anchors obs"
    then obtain i where "i \<in> set (ids_related_to anchors Rel_SUPPORTING a obs)"
      by (auto simp: contested_def) (meson ex_in_conv set_empty)
    then show "a \<in> snd ` set ?ps"
      by (auto simp: ids_related_to_related[of _ _ _ _ as es] related_def)
  qed
  have keys: "sort (map fst ?g) = sorted_list_of_set (snd ` set ?ps)"
    using group_targets_keys[of "[]" ?eff ?ps]
    by (intro sorted_distinct_set_unique) auto
  have "filter (\<lambda>a. fst (the (map_of ?g a)) \<noteq> [] \<and> snd (the (map_of ?g a)) \<noteq> []) (sort (map fst ?g))
      = filter (\<lambda>a. a \<in> contested anchors obs) (sorted_list_of_set (snd ` set ?ps))"
    unfolding keys by (rule filter_cong) (auto simp: look contested_def)
  also have "\<dots> = sorted_list_of_set {a \<in> snd ` set ?ps. a \<in> contested anchors obs}"
    by (rule filter_sorted_list_of_set) simp
  also have "{a \<in> snd ` set ?ps. a \<in> contested anchors obs} = contested anchors obs"
    using sub by auto
  finally have fil: "filter (\<lambda>a. fst (the (map_of ?g a)) \<noteq> [] \<and> snd (the (map_of ?g a)) \<noteq> []) (sort (map fst ?g))
      = sorted_list_of_set (contested anchors obs)" .
  have fin: "finite (contested anchors obs)" using sub by (rule finite_subset) simp
  have "map (\<lambda>a. \<lparr>conflict_target = a, conflict_supporting = fst (the (map_of ?g a)),
            conflict_contradicting = snd (the (map_of ?g a))\<rparr>) (sorted_list_of_set (contested anchors obs))
      = map (conflict_on anchors obs) (sorted_list_of_set (contested anchors obs))"
    using sub fin by (intro map_cong) (auto simp: look conflict_on_def)
  moreover have "mapE mk_conflict (map (conflict_on anchors obs) (sorted_list_of_set (contested anchors obs)))
      = Inr (map (\<lambda>c. c) (map (conflict_on anchors obs) (sorted_list_of_set (contested anchors obs))))"
    using fin by (intro mapE_total) (auto simp: conflict_on_ok[OF assms])
  moreover have comp: "[h a. a \<leftarrow> xs, P a] = map h (filter P xs)" for h :: "string \<Rightarrow> conflict" and P xs
    by (induction xs) auto
  ultimately show ?thesis
    unfolding merged_conflicts_def Let_def comp by (simp only: fil list.map_ident)
qed


lemma first_deliveries_ids:
  "delivered_id ` set (first_deliveries {} obs) = finding_id ` deliveries obs"
proof -
  have "delivered_id ` set (first_deliveries seen obs) = finding_id ` deliveries obs - seen" for seen
  proof (induction obs arbitrary: seen)
    case (Cons ob obs)
    have "deliveries (ob # obs) = (case finding_of ob of None \<Rightarrow> deliveries obs | Some f \<Rightarrow> insert f (deliveries obs))"
      by (auto simp: deliveries_def split: option.splits)
    with Cons show ?case by (auto simp: delivered_id_eq split: option.splits)
  qed (simp add: deliveries_def)
  then show ?thesis by simp
qed

lemma question_not_blank [simp]: "\<not> is_blank (conflict_question c)"
  by (simp add: conflict_question_def is_space_def)

lemma anchors_of_finite [simp]: "finite (anchors_of g)"
  by (simp add: anchors_of_def split: option.split)

lemma ids_related_facts:
  "set (ids_related anchors r obs) = delivered_id ` {ob \<in> set (first_deliveries {} obs). effective_relation anchors ob = r}"
  by (auto simp: ids_related_def)

lemma ids_related_disjoint:
  assumes "r \<noteq> r'"
  shows "set (ids_related anchors r obs) \<inter> set (ids_related anchors r' obs) = {}"
proof -
  have "inj_on delivered_id (set (first_deliveries {} obs))"
    using first_deliveries_distinct by (simp add: distinct_map)
  then show ?thesis using assms by (auto simp: ids_related_facts dest: inj_onD)
qed

lemma ids_related_cover:
  "set (ids_related anchors Rel_SUPPORTING obs) \<union> set (ids_related anchors Rel_CONTRADICTING obs)
     \<union> set (ids_related anchors Rel_UNRESOLVED obs) = delivered_id ` set (first_deliveries {} obs)"
proof -
  have "r = Rel_SUPPORTING \<or> r = Rel_CONTRADICTING \<or> r = Rel_UNRESOLVED" for r by (cases r) auto
  then show ?thesis by (auto simp: ids_related_facts)
qed

lemma ids_with_closed:
  "ids_with r (merging_of anchors (first_deliveries {} obs) as es) = ids_related anchors r obs"
proof -
  let ?ks = "first_deliveries {} obs"
  have "filter (\<lambda>ob. map_of (map (\<lambda>ob. (delivered_id ob, effective_relation anchors ob)) ?ks) (delivered_id ob) = Some r) ?ks
      = filter (\<lambda>ob. effective_relation anchors ob = r) ?ks"
    using first_deliveries_distinct[of "{}" obs]
    by (intro filter_cong) (auto simp: merging_map_of distinct_map dest: inj_onD)
  then show ?thesis
    by (simp add: ids_with_def ids_related_def merging_of_def filter_map comp_def)
qed

lemma first_deliveries_not_blank:
  assumes "\<forall>ob\<in>set obs. valid_observation ob" "ob \<in> set (first_deliveries {} obs)"
  shows "\<not> is_blank (delivered_id ob)"
proof -
  have "valid_observation ob" "finding_of ob \<noteq> None"
    using assms first_deliveries_finding by blast+
  then show ?thesis using valid_observation_cases by (force simp: delivered_id_def)
qed

lemma mk_view_checked:
  assumes "distinct (view_finding_ids v)"
    and "\<forall>i\<in>set (view_finding_ids v). \<not> is_blank i"
    and "set (view_supporting v) \<inter> set (view_conflicting v) = {}"
    and "set (view_supporting v) \<inter> set (view_unresolved v) = {}"
    and "set (view_conflicting v) \<inter> set (view_unresolved v) = {}"
    and "set (view_supporting v) \<union> set (view_conflicting v) \<union> set (view_unresolved v) = set (view_finding_ids v)"
    and "\<forall>q\<in>set (view_questions v). \<not> is_blank q"
  shows "mk_view v = bindE (merger_texts (view_gate_anchors v)) (\<lambda>_. Inr v)"
proof -
  have texts: "merger_texts xs = Inr xs" if "set xs \<subseteq> set (view_finding_ids v)" for xs
    using that assms(2) by auto
  have qs: "merger_texts (view_questions v) = Inr (view_questions v)" using assms(7) by simp
  have subs: "set (view_supporting v) \<subseteq> set (view_finding_ids v)"
    "set (view_conflicting v) \<subseteq> set (view_finding_ids v)"
    "set (view_unresolved v) \<subseteq> set (view_finding_ids v)"
    using assms(6) by blast+
  show ?thesis
    unfolding mk_view_def Let_def
    by (simp only: assms(1,3-6) subs texts[OF subs(1)] texts[OF subs(2)] texts[OF subs(3)] qs
        requireE_True bindE.simps Un_empty_right simp_thms)
qed

lemma merger_texts_blank:
  "merger_texts xs = (if \<exists>x\<in>set xs. is_blank x then Inl EvidenceMergerError else Inr xs)"
  unfolding merger_texts_def by (induction xs) (auto simp: merger_text_def)

lemma mk_merged_view:
  assumes "\<forall>ob\<in>set obs. valid_observation ob"
  shows "mk_view (merged_view obs gate) =
     (if \<exists>a\<in>anchors_of gate. is_blank a then Inl EvidenceMergerError else Inr (merged_view obs gate))"
proof -
  let ?v = "merged_view obs gate"
  have ids: "view_finding_ids ?v = map delivered_id (first_deliveries {} obs)"
    by (simp add: view_finding_ids_def merged_view_def Let_def delivered_id_def)
  have groups: "view_supporting ?v = ids_related (anchors_of gate) Rel_SUPPORTING obs"
    "view_conflicting ?v = ids_related (anchors_of gate) Rel_CONTRADICTING obs"
    "view_unresolved ?v = ids_related (anchors_of gate) Rel_UNRESOLVED obs"
    by (simp_all add: merged_view_def Let_def)
  have "mk_view ?v = bindE (merger_texts (view_gate_anchors ?v)) (\<lambda>_. Inr ?v)"
  proof (rule mk_view_checked)
    show "\<forall>q\<in>set (view_questions ?v). \<not> is_blank q"
      by (auto simp: merged_view_def Let_def)
    show "\<forall>i\<in>set (view_finding_ids ?v). \<not> is_blank i"
      using first_deliveries_not_blank[OF assms] by (auto simp: ids)
  qed (simp_all add: ids groups first_deliveries_distinct ids_related_disjoint ids_related_cover)
  then show ?thesis
    by (simp add: merger_texts_blank merged_view_def Let_def)
qed

lemma merge_closed:
  assumes "\<forall>ob\<in>set obs. valid_observation ob"
  shows "merge_evidence obs gate =
     (if \<exists>d. gate = Some d \<and> \<not> settled (decision_status d) then Inl EvidenceMergerError
      else if \<not> consistent_ids (deliveries obs) then Inl EvidenceIdentityCollisionError
      else if \<exists>a\<in>anchors_of gate. is_blank a then Inl EvidenceMergerError
      else Inr (merged_view obs gate))"
proof (cases "\<exists>d. gate = Some d \<and> \<not> settled (decision_status d)")
  case True
  then show ?thesis by (auto simp: merge_evidence_def merger_gate_def)
next
  case False
  then have g: "merger_gate gate = Inr gate" by (auto simp: merger_gate_def split: option.split)
  show ?thesis
    using False mk_merged_view[OF assms, of gate]
    by (simp add: merge_evidence_def g merge_observations_start[OF assms] merged_conflicts_closed[OF assms]
        ids_with_closed Let_def) (simp add: merged_view_def Let_def merging_of_def)
qed


section \<open>What a merge promises\<close>

lemma merged_view_kept:
  assumes "consistent_ids (deliveries obs)" "f \<in> deliveries obs"
  shows "\<exists>g\<in>set (view_findings (merged_view obs gate)). finding_id g = finding_id f \<and> identity_of g = identity_of f"
proof -
  have "finding_id f \<in> delivered_id ` set (first_deliveries {} obs)"
    using assms(2) by (simp add: first_deliveries_ids)
  then obtain ob g where ob: "ob \<in> set (first_deliveries {} obs)" "finding_of ob = Some g" "finding_id g = finding_id f"
    using first_deliveries_finding by (fastforce simp: delivered_id_eq)
  then have "g \<in> deliveries obs"
    using first_deliveries_finding by (force simp: deliveries_def)
  moreover have "g \<in> set (view_findings (merged_view obs gate))"
    using ob by (force simp: merged_view_def Let_def)
  ultimately show ?thesis using ob(3) assms consistent_idsD by blast
qed

text \<open>C12: the merge of valid observations raises only on an unsettled gate verdict, a blank
anchor of it, or two deliveries of one finding id with different content; otherwise every
delivered finding is in the view exactly once (by id, with its source, claim, evidence and step),
nothing else is, and every finding is in exactly one of the three relation groups.\<close>

theorem merge_lossless:
  assumes "\<forall>ob\<in>set obs. valid_observation ob"
  shows "case merge_evidence obs gate of
       Inl e \<Rightarrow> e = EvidenceIdentityCollisionError \<and> \<not> consistent_ids (deliveries obs)
              \<or> e = EvidenceMergerError \<and> (\<exists>d. gate = Some d
                   \<and> (\<not> settled (decision_status d) \<or> (\<exists>a\<in>anchors_of gate. is_blank a)))
     | Inr v \<Rightarrow> consistent_ids (deliveries obs) \<and> set (view_findings v) \<subseteq> deliveries obs
              \<and> distinct (view_finding_ids v)
              \<and> (\<forall>f\<in>deliveries obs. \<exists>g\<in>set (view_findings v).
                   finding_id g = finding_id f \<and> identity_of g = identity_of f)
              \<and> mset (view_supporting v @ view_conflicting v @ view_unresolved v) = mset (view_finding_ids v)
              \<and> length (view_abstained v) = length (filter (\<lambda>ob. obs_status ob = Obs_ABSTAIN) obs)
              \<and> length (view_errors v) = length (filter (\<lambda>ob. obs_status ob = Obs_ERROR) obs)"
proof (cases "merge_evidence obs gate")
  case (Inl e)
  then have "e = EvidenceIdentityCollisionError \<and> \<not> consistent_ids (deliveries obs)
      \<or> e = EvidenceMergerError \<and> (\<exists>d. gate = Some d
                   \<and> (\<not> settled (decision_status d) \<or> (\<exists>a\<in>anchors_of gate. is_blank a)))"
    by (cases gate) (auto simp: merge_closed[OF assms] anchors_of_def split: if_splits)
  then show ?thesis using Inl by simp
next
  case (Inr v)
  then have c: "consistent_ids (deliveries obs)" and v: "v = merged_view obs gate"
    by (simp_all add: merge_closed[OF assms] split: if_splits)
  have ids: "view_finding_ids v = map delivered_id (first_deliveries {} obs)"
    by (simp add: v view_finding_ids_def merged_view_def Let_def delivered_id_def)
  have "set (view_findings v) \<subseteq> deliveries obs"
    using first_deliveries_finding by (force simp: v merged_view_def Let_def deliveries_def)
  moreover have "mset (view_supporting v @ view_conflicting v @ view_unresolved v) = mset (view_finding_ids v)"
  proof -
    have "mset (map delivered_id (filter (\<lambda>ob. r ob = Rel_SUPPORTING) ks) @ map delivered_id (filter (\<lambda>ob. r ob = Rel_CONTRADICTING) ks)
        @ map delivered_id (filter (\<lambda>ob. r ob = Rel_UNRESOLVED) ks)) = mset (map delivered_id ks)" for r ks
    proof (induction ks)
      case (Cons k ks)
      then show ?case by (cases "r k") auto
    qed simp
    then show ?thesis by (simp add: ids) (simp add: v merged_view_def Let_def ids_related_def)
  qed
  ultimately show ?thesis
    using c merged_view_kept[OF c, of _ gate] Inr
    by (simp add: ids first_deliveries_distinct) (simp add: v merged_view_def Let_def outcomes_of_def)
qed

lemma unanchored_unresolved:
  "effective_relation {} ob = Rel_UNRESOLVED" "honoured {} ob = None"
  by (auto simp: effective_relation_def honoured_def split: option.splits)

text \<open>C13: no relation is inferred: a finding counts as supporting (contradicting) exactly when its
first delivery declared that relation with a target among the rules and evidence of the gate
verdict; without a verdict every finding stays unresolved and there is no conflict.\<close>

theorem relations_only_declared:
  assumes "\<forall>ob\<in>set obs. valid_observation ob" "merge_evidence obs gate = Inr v"
  shows "set (view_supporting v) = delivered_id ` {ob \<in> set (first_deliveries {} obs).
             obs_relation ob = Rel_SUPPORTING \<and> (\<exists>t\<in>anchors_of gate. obs_relation_target ob = Some t)}
    \<and> set (view_conflicting v) = delivered_id ` {ob \<in> set (first_deliveries {} obs).
             obs_relation ob = Rel_CONTRADICTING \<and> (\<exists>t\<in>anchors_of gate. obs_relation_target ob = Some t)}
    \<and> (gate = None \<longrightarrow> view_supporting v = [] \<and> view_conflicting v = [] \<and> view_conflicts v = []
             \<and> view_unresolved v = view_finding_ids v)"
proof -
  have v: "v = merged_view obs gate"
    using assms(2) by (simp add: merge_closed[OF assms(1)] split: if_splits)
  have rel: "effective_relation A ob = r \<longleftrightarrow> obs_relation ob = r \<and> (\<exists>t\<in>A. obs_relation_target ob = Some t)"
    if "r \<noteq> Rel_UNRESOLVED" for A ob r
    using that by (auto simp: effective_relation_def honoured_def split: option.splits)
  have "set (view_supporting v) = delivered_id ` {ob \<in> set (first_deliveries {} obs).
             obs_relation ob = Rel_SUPPORTING \<and> (\<exists>t\<in>anchors_of gate. obs_relation_target ob = Some t)}"
    by (simp add: v merged_view_def Let_def ids_related_facts rel)
  moreover have "set (view_conflicting v) = delivered_id ` {ob \<in> set (first_deliveries {} obs).
             obs_relation ob = Rel_CONTRADICTING \<and> (\<exists>t\<in>anchors_of gate. obs_relation_target ob = Some t)}"
    by (simp add: v merged_view_def Let_def ids_related_facts rel)
  moreover have "view_supporting v = [] \<and> view_conflicting v = [] \<and> view_conflicts v = []
             \<and> view_unresolved v = view_finding_ids v" if "gate = None"
  proof -
    have "contested {} obs = {}"
      by (simp add: contested_def ids_related_to_def unanchored_unresolved)
    with that show ?thesis
      by (simp add: v merged_view_def Let_def ids_related_def unanchored_unresolved anchors_of_def
          view_finding_ids_def delivered_id_def)
  qed
  ultimately show ?thesis by blast
qed

end
