(* ===== verification/Decision_Engine.thy ===== *)
theory Decision_Engine
  imports Evidence
begin

text \<open>
  The decision engine (\<open>application/decision_engine.py\<close>): one authoritative decision from a merged
  evidence view and the verdict of the deterministic gate. The hexadecimal SHA-1 digest of the
  decision id is a parameter, the injected clock its single reading \<open>now\<close>. The lemmas give the
  outcome of every call; the property is that the verdict decides and the advisors never do.
\<close>

record decision_result =
  result_decision :: decision
  result_evidence :: view

definition decision_to_dict :: "decision \<Rightarrow> json" where
  "decision_to_dict d =
     JObj [(''id'', JStr (decision_id d)), (''status'', JStr (decision_status_value (decision_status d))),
       (''decision'', JStr (decision_decision d)), (''rationale'', JStr (decision_rationale d)),
       (''rules_applied'', json_texts (decision_rules_applied d)),
       (''evidence_refs'', json_texts (decision_evidence_refs d)),
       (''perspectives'', json_texts (decision_perspectives d)),
       (''step_no'', json_opt JInt (decision_step_no d)),
       (''created_at'', JTime (decision_created_at d))]"

definition decision_result_to_dict :: "decision_result \<Rightarrow> json" where
  "decision_result_to_dict r =
     JObj [(''decision'', decision_to_dict (result_decision r)),
       (''evidence'', view_to_dict (result_evidence r))]"

definition engine_gate :: "decision option \<Rightarrow> view \<Rightarrow> exn + decision option" where
  "engine_gate gate evidence =
     (case gate of
        None \<Rightarrow> if view_gate_status evidence \<noteq> None then Inl DecisionEngineError else Inr None
      | Some g \<Rightarrow>
          if \<not> settled (decision_status g) then Inl DecisionEngineError
          else (case view_gate_status evidence of
                  None \<Rightarrow> Inl DecisionEngineError
                | Some s \<Rightarrow> if s \<noteq> decision_status g then Inl DecisionEngineError else Inr (Some g)))"

definition engine_status :: "decision option \<Rightarrow> view \<Rightarrow> decision_status" where
  "engine_status gate evidence =
     (case gate of
        Some g \<Rightarrow> decision_status g
      | None \<Rightarrow>
          if view_errors evidence \<noteq> [] \<and> view_findings evidence = [] \<and> view_abstained evidence = []
          then Decision_ERROR else Decision_ABSTAIN)"

definition decision_text :: "decision_status \<Rightarrow> string" where
  "decision_text s =
     (if s = Decision_ACCEPTED then
        ''accepted: the implementation satisfies the deterministic architecture checks''
      else if s = Decision_REJECTED then
        ''rejected: the implementation violates the deterministic architecture checks''
      else if s = Decision_ERROR then ''no decision: every advisor execution failed''
      else ''no decision: no deterministic verdict and no adjudicable advisor evidence'')"

definition count_text :: "'a list \<Rightarrow> string" where
  "count_text xs = show_nat (length xs)"

definition evidence_counts :: "view \<Rightarrow> string" where
  "evidence_counts v =
     count_text (view_supporting v) @ '' supporting, '' @ count_text (view_conflicting v)
     @ '' conflicting, '' @ count_text (view_unresolved v) @ '' unresolved, ''
     @ count_text (view_abstained v) @ '' abstention(s) and '' @ count_text (view_errors v)
     @ '' failure(s)''"

definition rules_text :: "decision option \<Rightarrow> string" where
  "rules_text gate =
     (let rules = join '', '' (case gate of None \<Rightarrow> [] | Some g \<Rightarrow> decision_rules_applied g) in
      if rules = [] then ''no rule recorded'' else rules)"

definition engine_rationale :: "decision_status \<Rightarrow> decision option \<Rightarrow> view \<Rightarrow> string" where
  "engine_rationale s gate evidence =
     (let tally = evidence_counts evidence in
      if s = Decision_ACCEPTED then
        ''The deterministic architecture gate accepted the implementation against rules (''
        @ rules_text gate
        @ ''). This records deterministic architecture compliance only: it does not mean the design is correct, that the AI advisors approve, or that the implementation carries no risks. Advisors are consultative, never a vote, so their findings were not counted into the outcome: ''
        @ tally @ ''. Every finding, including the unresolved ones, remains visible in the evidence view.''
      else if s = Decision_REJECTED then
        ''The deterministic architecture gate rejected the implementation against rules (''
        @ rules_text gate @ '') with ''
        @ count_text (case gate of None \<Rightarrow> [] | Some g \<Rightarrow> decision_evidence_refs g)
        @ '' violation finding(s). A deterministic violation outranks every advisor, so advisor findings were consultative only and could not change this outcome: ''
        @ tally @ ''. Every finding remains visible in the evidence view.''
      else if s = Decision_ERROR then
        ''There is no deterministic architecture verdict, and every advisor execution failed, so there is nothing to weigh: ''
        @ tally
        @ ''. A failed execution is not evidence and is not a rejection - here no advisor produced a finding at all.''
      else
        ''There is no deterministic architecture verdict, so nothing can be stated about architecture compliance. Advisor findings are consultative and are never a vote, and no relation to a gate anchor could be validated: ''
        @ tally @ ''. The outcome is an abstention, not a rejection.'')"

text \<open>The order-keeping removal of repetitions: the first occurrence of an entry stays.\<close>

primrec unseen :: "string set \<Rightarrow> string list \<Rightarrow> string list" where
  "unseen seen [] = []"
| "unseen seen (x # xs) = (if x \<in> seen then unseen seen xs else x # unseen (insert x seen) xs)"

definition engine_evidence_refs :: "decision_status \<Rightarrow> decision option \<Rightarrow> view \<Rightarrow> string list" where
  "engine_evidence_refs s gate evidence =
     (case gate of None \<Rightarrow> []
      | Some g \<Rightarrow> unseen {} ((if s = Decision_REJECTED then decision_evidence_refs g else [])
                            @ view_supporting evidence))"

definition engine_decision_id ::
    "(string \<Rightarrow> string) \<Rightarrow> decision_status \<Rightarrow> int option \<Rightarrow> decision option \<Rightarrow> view \<Rightarrow> string" where
  "engine_decision_id sha1_hex s no gate evidence =
     (let parts = [decision_status_value s, (case no of None \<Rightarrow> [] | Some n \<Rightarrow> show_int n),
                   (case gate of None \<Rightarrow> [] | Some g \<Rightarrow> decision_id g)]
                  @ view_supporting evidence @ view_conflicting evidence @ view_unresolved evidence;
          digest = take 12 (sha1_hex (join ''|'' parts))
      in ''advisor-decision-'' @ show_int (case no of None \<Rightarrow> 0 | Some n \<Rightarrow> n) @ ''-'' @ digest)"

definition synthesize_decision ::
    "(string \<Rightarrow> string) \<Rightarrow> view \<Rightarrow> decision option \<Rightarrow> string option \<Rightarrow> int option \<Rightarrow> datetime
     \<Rightarrow> exn + decision_result" where
  "synthesize_decision sha1_hex evidence gate given_id no now =
     bindE (engine_gate gate evidence) (\<lambda>verdict.
     bindE (requireE (case no of None \<Rightarrow> True | Some n \<Rightarrow> 1 \<le> n) DecisionEngineError) (\<lambda>_.
     bindE (requireE (case given_id of None \<Rightarrow> True | Some i \<Rightarrow> \<not> is_blank i) DecisionEngineError) (\<lambda>_.
     let s = engine_status verdict evidence in
     bindE (mk_decision
       \<lparr>decision_id = (case given_id of None \<Rightarrow> engine_decision_id sha1_hex s no verdict evidence | Some i \<Rightarrow> i),
        decision_status = s, decision_decision = decision_text s,
        decision_rationale = engine_rationale s verdict evidence,
        decision_rules_applied = (case verdict of None \<Rightarrow> [] | Some g \<Rightarrow> decision_rules_applied g),
        decision_evidence_refs = engine_evidence_refs s verdict evidence,
        decision_perspectives = view_sources evidence, decision_step_no = no,
        decision_created_at = now\<rparr>) (\<lambda>d.
     Inr \<lparr>result_decision = d, result_evidence = evidence\<rparr>))))"

definition decide_from_observations ::
    "(string \<Rightarrow> string) \<Rightarrow> observation list \<Rightarrow> decision option \<Rightarrow> string option \<Rightarrow> int option \<Rightarrow> datetime
     \<Rightarrow> exn + decision_result" where
  "decide_from_observations sha1_hex obs gate given_id no now =
     bindE (merge_evidence obs gate) (\<lambda>evidence.
     synthesize_decision sha1_hex evidence gate given_id no now)"

section \<open>The outcome of the engine\<close>

lemma unseen_set: "set (unseen seen xs) = set xs - seen"
  by (induction xs arbitrary: seen) auto

lemma unseen_distinct: "distinct (unseen seen xs)"
  by (induction xs arbitrary: seen) (auto simp: unseen_set)

lemma unseen_append: "unseen seen (xs @ ys) = unseen seen xs @ unseen (seen \<union> set xs) ys"
  by (induction xs arbitrary: seen) (auto simp: insert_absorb)

lemma decision_id_not_blank [simp]: "\<not> is_blank (engine_decision_id h s no g v)"
  by (simp add: engine_decision_id_def is_space_def Let_def)

lemma decision_text_not_blank [simp]: "\<not> is_blank (decision_text s)"
  by (simp add: decision_text_def is_space_def)

definition call_ok :: "string option \<Rightarrow> int option \<Rightarrow> bool" where
  "call_ok given_id no \<longleftrightarrow> (\<forall>n. no = Some n \<longrightarrow> 1 \<le> n) \<and> (\<forall>i. given_id = Some i \<longrightarrow> \<not> is_blank i)"

lemma synthesize_error:
  "engine_gate gate v = Inl e \<Longrightarrow> synthesize_decision h v gate given_id no now = Inl e"
  "engine_gate gate v = Inr g \<Longrightarrow> \<not> call_ok given_id no \<Longrightarrow>
     synthesize_decision h v gate given_id no now = Inl DecisionEngineError"
  by (auto simp: synthesize_decision_def call_ok_def requireE_def split: option.splits)

lemma synthesize_ok:
  assumes "engine_gate gate v = Inr g" "call_ok given_id no"
  shows "\<exists>d. synthesize_decision h v gate given_id no now = Inr \<lparr>result_decision = d, result_evidence = v\<rparr>
     \<and> decision_status d = engine_status g v \<and> decision_decision d = decision_text (engine_status g v)
     \<and> decision_rules_applied d = (case g of None \<Rightarrow> [] | Some x \<Rightarrow> decision_rules_applied x)
     \<and> decision_evidence_refs d = engine_evidence_refs (engine_status g v) g v
     \<and> decision_perspectives d = view_sources v \<and> decision_step_no d = no \<and> decision_created_at d = now"
  using assms
  by (auto simp: synthesize_decision_def call_ok_def mk_decision_def Let_def split: option.splits)

lemma merge_gate:
  assumes "\<forall>ob\<in>set obs. valid_observation ob" "merge_evidence obs gate = Inr v"
  shows "engine_gate gate v = Inr gate"
  using assms(2)
  by (auto simp: merge_closed[OF assms(1)] engine_gate_def merged_view_def Let_def split: if_splits option.splits)

lemma merge_all_failed:
  assumes "\<forall>ob\<in>set obs. valid_observation ob" "merge_evidence obs gate = Inr v"
  shows "(view_errors v \<noteq> [] \<and> view_findings v = [] \<and> view_abstained v = [])
     \<longleftrightarrow> obs \<noteq> [] \<and> (\<forall>ob\<in>set obs. obs_status ob = Obs_ERROR)"
proof -
  have v: "v = merged_view obs gate"
    using assms(2) by (simp add: merge_closed[OF assms(1)] split: if_splits)
  have found: "view_findings v = [] \<longleftrightarrow> (\<forall>ob\<in>set obs. obs_status ob \<noteq> Obs_FINDING)"
  proof -
    have "view_findings v = [] \<longleftrightarrow> deliveries obs = {}"
      using first_deliveries_ids[of obs] by (auto simp: v merged_view_def Let_def)
    also have "\<dots> \<longleftrightarrow> (\<forall>ob\<in>set obs. finding_of ob = None)"
      unfolding deliveries_def by (auto, metis option.exhaust)
    also have "\<dots> \<longleftrightarrow> (\<forall>ob\<in>set obs. obs_status ob \<noteq> Obs_FINDING)"
      using assms(1) valid_observation_cases by (intro ball_cong) (auto, fastforce+)
    finally show ?thesis .
  qed
  have "view_errors v = [] \<longleftrightarrow> (\<forall>ob\<in>set obs. obs_status ob \<noteq> Obs_ERROR)"
    "view_abstained v = [] \<longleftrightarrow> (\<forall>ob\<in>set obs. obs_status ob \<noteq> Obs_ABSTAIN)"
    by (auto simp: v merged_view_def Let_def outcomes_of_def filter_empty_conv)
  with found show ?thesis
    by (metis (full_types) length_0_conv length_pos_if_in_set less_irrefl list.set_intros(1)
        neq_Nil_conv observation_status.distinct(3,5) observation_status.exhaust)
qed

text \<open>C11: the deterministic verdict decides and the advisors never vote: a call on valid
observations fails only where the merge fails or on a blank decision id or a step below 1;
otherwise the status, text and rules of the decision are those of the settled verdict whatever the
advisors said, a rejection cites the evidence of the verdict first, and without a verdict the
decision is ERROR exactly when every advisor execution failed and ABSTAIN otherwise.\<close>

theorem gate_outranks_advisors:
  assumes "\<forall>ob\<in>set obs. valid_observation ob"
  shows "case decide_from_observations h obs gate given_id no now of
       Inl e \<Rightarrow> merge_evidence obs gate = Inl e
              \<or> e = DecisionEngineError \<and> ((\<exists>n<1. no = Some n) \<or> (\<exists>i. given_id = Some i \<and> is_blank i))
     | Inr r \<Rightarrow> merge_evidence obs gate = Inr (result_evidence r) \<and>
         (let d = result_decision r in
          (case gate of
             Some g \<Rightarrow> settled (decision_status g) \<and> decision_status d = decision_status g
                 \<and> decision_decision d = decision_text (decision_status g)
                 \<and> decision_rules_applied d = decision_rules_applied g
                 \<and> (decision_status g = Decision_REJECTED \<longrightarrow>
                      (\<exists>more. decision_evidence_refs d = unseen {} (decision_evidence_refs g) @ more))
                 \<and> set (decision_evidence_refs d) \<subseteq> set (decision_evidence_refs g) \<union> set (view_supporting (result_evidence r))
           | None \<Rightarrow> decision_rules_applied d = [] \<and> decision_evidence_refs d = []
                 \<and> decision_status d = (if obs \<noteq> [] \<and> (\<forall>ob\<in>set obs. obs_status ob = Obs_ERROR)
                                        then Decision_ERROR else Decision_ABSTAIN)))"
proof (cases "merge_evidence obs gate")
  case (Inl e)
  then show ?thesis by (simp add: decide_from_observations_def)
next
  case (Inr v)
  note gate = merge_gate[OF assms Inr] and failed = merge_all_failed[OF assms Inr]
  have run: "decide_from_observations h obs gate given_id no now = synthesize_decision h v gate given_id no now"
    by (simp add: decide_from_observations_def Inr)
  have st: "settled (decision_status g)" if "gate = Some g" for g
    using gate that by (auto simp: engine_gate_def split: if_splits option.splits)
  show ?thesis
  proof (cases "call_ok given_id no")
    case True
    then obtain d where d: "decide_from_observations h obs gate given_id no now
        = Inr \<lparr>result_decision = d, result_evidence = v\<rparr>"
      and f: "decision_status d = engine_status gate v" "decision_decision d = decision_text (engine_status gate v)"
        "decision_rules_applied d = (case gate of None \<Rightarrow> [] | Some x \<Rightarrow> decision_rules_applied x)"
        "decision_evidence_refs d = engine_evidence_refs (engine_status gate v) gate v"
      using synthesize_ok[OF gate, of given_id no h now] run by auto
    show ?thesis
    proof (cases gate)
      case None
      then show ?thesis using d f Inr failed by (simp add: engine_status_def engine_evidence_refs_def Let_def)
    next
      case (Some g)
      then show ?thesis
        using d f Inr st
        by (auto simp: engine_status_def engine_evidence_refs_def Let_def unseen_set unseen_append)
    qed
  next
    case False
    then show ?thesis
      using synthesize_error(2)[OF gate, of given_id no h now] run by (auto simp: call_ok_def not_le)
  qed
qed

end
