(* ===== verification/Judge.thy ===== *)
theory Judge
  imports Decision_Engine
begin

text \<open>
  The judge use-case (\<open>application/judge.py\<close>) with the message it hands over
  (\<open>JudgeConflict\<close> of \<open>ports/capabilities.py\<close>), and the seam that turns the outcome of an advisor
  into an observation (\<open>composition/evidence.py\<close>). The injected judge is a parameter: a computation
  over its own state that answers a conflict with a decision or raises. Which conflicts reach it,
  in which order and how often, is read off by giving it a state that records its calls.
\<close>

section \<open>Structured conflicts\<close>

record judge_conflict =
  jc_question :: string
  jc_findings :: "finding list"
  jc_context :: mapping

definition mk_judge_conflict :: "judge_conflict \<Rightarrow> exn + judge_conflict" where
  "mk_judge_conflict j =
     bindE (require_text (jc_question j)) (\<lambda>_.
     bindE (requireE (jc_findings j \<noteq> []) ValueError) (\<lambda>_. Inr j))"

definition judge_question :: "conflict \<Rightarrow> string" where
  "judge_question c =
     ''Unresolved evidence conflict on '' @ conflict_target c @ '': supporting ''
     @ join '', '' (conflict_supporting c) @ '' vs contradicting ''
     @ join '', '' (conflict_contradicting c)"

definition finding_in_view :: "view \<Rightarrow> string \<Rightarrow> exn + finding" where
  "finding_in_view v i =
     (case filter (\<lambda>f. finding_id f = i) (view_findings v) of
        [] \<Rightarrow> Inl JudgeError
      | [f] \<Rightarrow> Inr f
      | f # g # fs \<Rightarrow> Inl JudgeError)"

definition build_judge_conflict :: "conflict \<Rightarrow> view \<Rightarrow> exn + judge_conflict" where
  "build_judge_conflict c v =
     bindE (requireE (c \<in> set (view_conflicts v)) JudgeError) (\<lambda>_.
     bindE (requireE (\<not> is_blank (conflict_target c)) JudgeError) (\<lambda>_.
     bindE (requireE (conflict_supporting c \<noteq> [] \<and> conflict_contradicting c \<noteq> []) JudgeError) (\<lambda>_.
     bindE (mapE (finding_in_view v) (conflict_supporting c)) (\<lambda>supporting.
     bindE (mapE (finding_in_view v) (conflict_contradicting c)) (\<lambda>contradicting.
     let findings = supporting @ contradicting in
     bindE (requireE (card (finding_step_no ` set findings) = 1) JudgeError) (\<lambda>_.
     mk_judge_conflict
       \<lparr>jc_question = judge_question c, jc_findings = findings,
        jc_context =
          [(''target'', JStr (conflict_target c)),
           (''supporting_ids'', json_texts (conflict_supporting c)),
           (''contradicting_ids'', json_texts (conflict_contradicting c)),
           (''gate_status'', json_opt (\<lambda>s. JStr (decision_status_value s)) (view_gate_status v))]\<rparr>))))))"

section \<open>Resolving\<close>

record judge_judgment =
  judgment_conflict :: conflict
  judgment_decision :: decision

record judge_run =
  run_judgments :: "judge_judgment list"
  run_judge_available :: bool

definition judge_count :: "judge_run \<Rightarrow> nat" where
  "judge_count r = length (run_judgments r)"

definition judgment_to_dict :: "judge_judgment \<Rightarrow> json" where
  "judgment_to_dict j =
     JObj [(''conflict'', conflict_to_dict (judgment_conflict j)),
       (''decision'', decision_to_dict (judgment_decision j))]"

definition judge_run_to_dict :: "judge_run \<Rightarrow> json" where
  "judge_run_to_dict r =
     JObj [(''judge_available'', JBool (run_judge_available r)),
       (''count'', JInt (int (judge_count r))),
       (''judgments'', JList (map judgment_to_dict (run_judgments r)))]"

type_synonym 'w judge_port = "judge_conflict \<Rightarrow> ('w, decision) pm"

text \<open>The generator of \<open>resolve\<close>: a conflict is built only when its turn comes.\<close>

primrec judge_all :: "'w judge_port \<Rightarrow> view \<Rightarrow> conflict list \<Rightarrow> ('w, judge_judgment list) pm" where
  "judge_all judge v [] = returnM []"
| "judge_all judge v (c # cs) =
     bindM (liftE (build_judge_conflict c v)) (\<lambda>j.
     bindM (judge j) (\<lambda>d.
     bindM (judge_all judge v cs) (\<lambda>js.
     returnM (\<lparr>judgment_conflict = c, judgment_decision = d\<rparr> # js))))"

definition resolve :: "'w judge_port option \<Rightarrow> view \<Rightarrow> ('w, judge_run) pm" where
  "resolve port v =
     (case port of
        None \<Rightarrow> returnM \<lparr>run_judgments = [], run_judge_available = False\<rparr>
      | Some judge \<Rightarrow>
          bindM (judge_all judge v (view_conflicts v)) (\<lambda>js.
          returnM \<lparr>run_judgments = js, run_judge_available = True\<rparr>))"

section \<open>Observing an advisor\<close>

text \<open>What one advisor execution ends with, seen at the seam: its finding, an exception of one of
the abstention classes or of the other advisor classes (with the name of its type), or any other
exception, which is not caught.\<close>

datatype advisor_outcome =
    Advised finding
  | Abstained string
  | Failed string
  | Escaped exn

definition ABSTAIN_REASON_PREFIX :: string where
  "ABSTAIN_REASON_PREFIX = ''advisor abstained''"

definition ERROR_REASON_PREFIX :: string where
  "ERROR_REASON_PREFIX = ''advisor failed''"

definition safe_reason :: "string \<Rightarrow> string \<Rightarrow> string" where
  "safe_reason prefix type_name = prefix @ '': '' @ type_name"

definition observe_advisor :: "string \<Rightarrow> advisor_outcome \<Rightarrow> evidence_relation \<Rightarrow> string option \<Rightarrow> exn + observation" where
  "observe_advisor source run relation target =
     (case run of
        Abstained name \<Rightarrow>
          mk_observation \<lparr>obs_source = source, obs_status = Obs_ABSTAIN, obs_finding = None,
            obs_reason = Some (safe_reason ABSTAIN_REASON_PREFIX name),
            obs_relation = Rel_UNRESOLVED, obs_relation_target = None\<rparr>
      | Failed name \<Rightarrow>
          mk_observation \<lparr>obs_source = source, obs_status = Obs_ERROR, obs_finding = None,
            obs_reason = Some (safe_reason ERROR_REASON_PREFIX name),
            obs_relation = Rel_UNRESOLVED, obs_relation_target = None\<rparr>
      | Advised f \<Rightarrow>
          mk_observation \<lparr>obs_source = source, obs_status = Obs_FINDING, obs_finding = Some f,
            obs_reason = None, obs_relation = relation, obs_relation_target = target\<rparr>
      | Escaped e \<Rightarrow> Inl e)"

section \<open>Which calls the judge receives\<close>

text \<open>A judge that notes every conflict it is asked about and answers by a function.\<close>

definition noting :: "(judge_conflict \<Rightarrow> exn + decision) \<Rightarrow> judge_conflict list judge_port" where
  "noting f j = (\<lambda>log. (f j, log @ [j]))"

lemma noting_run: "noting f j s = (f j, s @ [j])"
  by (simp add: noting_def)

definition one_step :: "view \<Rightarrow> conflict \<Rightarrow> bool" where
  "one_step v c \<longleftrightarrow> (\<exists>n. \<forall>f\<in>set (view_findings v).
     finding_id f \<in> set (conflict_supporting c @ conflict_contradicting c) \<longrightarrow> finding_step_no f = n)"

lemma filter_unique:
  "distinct (map f xs) \<Longrightarrow> x \<in> set xs \<Longrightarrow> filter (\<lambda>y. f y = f x) xs = [x]"
proof (induction xs)
  case (Cons a xs)
  show ?case
  proof (cases "a = x")
    case True
    then have "filter (\<lambda>y. f y = f x) xs = []"
      using Cons.prems(1) by (auto simp: filter_empty_conv) (metis imageI)
    then show ?thesis using True by simp
  next
    case False
    then have "x \<in> set xs" using Cons.prems(2) by simp
    moreover from this have "f a \<noteq> f x" using Cons.prems(1) by auto
    ultimately show ?thesis using Cons by simp
  qed
qed simp

lemma finding_in_view_ok:
  "distinct (view_finding_ids v) \<Longrightarrow> f \<in> set (view_findings v) \<Longrightarrow> finding_in_view v (finding_id f) = Inr f"
  by (simp add: finding_in_view_def view_finding_ids_def filter_unique)

lemma mapE_findings:
  assumes "distinct (view_finding_ids v)" "set is \<subseteq> set (view_finding_ids v)"
  shows "\<exists>fs. mapE (finding_in_view v) is = Inr fs \<and> set fs \<subseteq> set (view_findings v) \<and> map finding_id fs = is"
  using assms(2)
proof (induction "is")
  case (Cons i "is")
  then obtain f where "f \<in> set (view_findings v)" "i = finding_id f"
    by (auto simp: view_finding_ids_def)
  with Cons show ?case by (auto simp: finding_in_view_ok[OF assms(1)])
qed simp

lemma judge_question_not_blank [simp]: "\<not> is_blank (judge_question c)"
  by (simp add: judge_question_def is_space_def)

lemma card_image_one: "xs \<noteq> [] \<Longrightarrow> card (f ` set xs) = 1 \<longleftrightarrow> (\<exists>n. \<forall>x\<in>set xs. f x = n)"
proof
  assume "card (f ` set xs) = 1"
  then obtain n where "f ` set xs = {n}" by (rule card_1_singletonE)
  then show "\<exists>n. \<forall>x\<in>set xs. f x = n" by blast
next
  assume "xs \<noteq> []" "\<exists>n. \<forall>x\<in>set xs. f x = n"
  then obtain n where "\<forall>x\<in>set xs. f x = n" "xs \<noteq> []" by blast
  then have "f ` set xs = {n}" by (cases xs) auto
  then show "card (f ` set xs) = 1" by simp
qed

lemma build_of_view:
  assumes "distinct (view_finding_ids v)" "c \<in> set (view_conflicts v)" "\<not> is_blank (conflict_target c)"
    and "conflict_supporting c \<noteq> []" "conflict_contradicting c \<noteq> []"
    and "set (conflict_supporting c @ conflict_contradicting c) \<subseteq> set (view_finding_ids v)"
  shows "case build_judge_conflict c v of
      Inl e \<Rightarrow> e = JudgeError \<and> \<not> one_step v c
    | Inr j \<Rightarrow> one_step v c \<and> jc_question j = judge_question c \<and> set (jc_findings j) \<subseteq> set (view_findings v)
        \<and> map finding_id (jc_findings j) = conflict_supporting c @ conflict_contradicting c"
proof -
  obtain fs gs where fs: "mapE (finding_in_view v) (conflict_supporting c) = Inr fs" "set fs \<subseteq> set (view_findings v)"
      "map finding_id fs = conflict_supporting c"
    and gs: "mapE (finding_in_view v) (conflict_contradicting c) = Inr gs" "set gs \<subseteq> set (view_findings v)"
      "map finding_id gs = conflict_contradicting c"
    using mapE_findings[OF assms(1)] assms(6) by (metis Un_subset_iff set_append)
  have ids: "set (conflict_supporting c @ conflict_contradicting c) = finding_id ` set (fs @ gs)"
    by (simp add: image_Un flip: fs(3) gs(3))
  have sub: "set (fs @ gs) \<subseteq> set (view_findings v)" using fs(2) gs(2) by simp
  have "inj_on finding_id (set (view_findings v))"
    using assms(1) by (simp add: view_finding_ids_def distinct_map)
  then have named: "f \<in> set (view_findings v) \<and> finding_id f \<in> finding_id ` set (fs @ gs) \<longleftrightarrow> f \<in> set (fs @ gs)" for f
    using sub by (meson image_eqI inj_on_image_mem_iff subsetD)
  have ne: "fs \<noteq> []" using fs(3) assms(4) by auto
  have "one_step v c \<longleftrightarrow> (\<exists>n. \<forall>f\<in>set (fs @ gs). finding_step_no f = n)"
    using named unfolding one_step_def ids by blast
  also have "\<dots> \<longleftrightarrow> card (finding_step_no ` set (fs @ gs)) = 1"
    using ne by (subst card_image_one) auto
  finally have step: "one_step v c \<longleftrightarrow> card (finding_step_no ` set (fs @ gs)) = 1" .
  show ?thesis
    using assms(2-5) fs gs step ne
    by (simp add: build_judge_conflict_def Let_def mk_judge_conflict_def requireE_def require_text_def)
qed


definition judge_ready :: "view \<Rightarrow> conflict \<Rightarrow> bool" where
  "judge_ready v c \<longleftrightarrow> \<not> is_blank (conflict_target c)
     \<and> conflict_supporting c \<noteq> [] \<and> conflict_contradicting c \<noteq> []
     \<and> set (conflict_supporting c @ conflict_contradicting c) \<subseteq> set (view_finding_ids v)"

text \<open>The call the judge is to receive for a conflict: its question and exactly the findings it names.\<close>

definition asked :: "view \<Rightarrow> conflict \<Rightarrow> judge_conflict \<Rightarrow> bool" where
  "asked v c j \<longleftrightarrow> jc_question j = judge_question c \<and> set (jc_findings j) \<subseteq> set (view_findings v)
     \<and> map finding_id (jc_findings j) = conflict_supporting c @ conflict_contradicting c"

lemma build_ready:
  assumes "distinct (view_finding_ids v)" "c \<in> set (view_conflicts v)" "judge_ready v c"
  shows "one_step v c \<Longrightarrow> \<exists>j. build_judge_conflict c v = Inr j \<and> asked v c j"
    and "\<not> one_step v c \<Longrightarrow> build_judge_conflict c v = Inl JudgeError"
  using build_of_view[OF assms(1,2)] assms(3)
  by (auto simp: judge_ready_def asked_def split: sum.splits)

lemma judge_all_noting:
  assumes "distinct (view_finding_ids v)"
    and "\<forall>c\<in>set cs. c \<in> set (view_conflicts v) \<and> judge_ready v c"
  shows "\<exists>new. snd (judge_all (noting f) v cs told) = told @ new
     \<and> list_all2 (asked v) (take (length new) cs) new
     \<and> (case fst (judge_all (noting f) v cs told) of
          Inl e \<Rightarrow> (length new < length cs \<and> e = JudgeError \<and> \<not> one_step v (cs ! length new))
                 \<or> (new \<noteq> [] \<and> f (last new) = Inl e)
        | Inr js \<Rightarrow> (\<forall>c\<in>set cs. one_step v c) \<and> length new = length cs
                 \<and> map judgment_conflict js = cs \<and> mapE f new = Inr (map judgment_decision js))"
  using assms(2)
proof (induction cs arbitrary: told)
  case Nil
  then show ?case by (simp add: exec)
next
  case (Cons c cs)
  then have c: "c \<in> set (view_conflicts v)" "judge_ready v c" by auto
  show ?case
  proof (cases "one_step v c")
    case False
    then show ?thesis
      using build_ready(2)[OF assms(1) c] by (intro exI[of _ "[]"]) (simp add: exec)
  next
    case True
    then obtain j where j: "build_judge_conflict c v = Inr j" "asked v c j"
      using build_ready(1)[OF assms(1) c] by blast
    show ?thesis
    proof (cases "f j")
      case (Inl e)
      then show ?thesis
        using j by (intro exI[of _ "[j]"]) (simp add: exec noting_run)
    next
      case (Inr d)
      obtain r t where run: "judge_all (noting f) v cs (told @ [j]) = (r, t)" by fastforce
      obtain new where t: "t = (told @ [j]) @ new" and a: "list_all2 (asked v) (take (length new) cs) new"
        and r: "case r of Inl e \<Rightarrow> (length new < length cs \<and> e = JudgeError \<and> \<not> one_step v (cs ! length new))
                 \<or> (new \<noteq> [] \<and> f (last new) = Inl e)
        | Inr js \<Rightarrow> (\<forall>c\<in>set cs. one_step v c) \<and> length new = length cs
                 \<and> map judgment_conflict js = cs \<and> mapE f new = Inr (map judgment_decision js)"
        using Cons.IH[of "told @ [j]"] Cons.prems run by auto
      have n: "noting f j told = (Inr d, told @ [j])" by (simp add: noting_run Inr)
      have "judge_all (noting f) v (c # cs) told =
          (case r of Inl e \<Rightarrow> (Inl e, t)
           | Inr js \<Rightarrow> (Inr (\<lparr>judgment_conflict = c, judgment_decision = d\<rparr> # js), t))"
        by (simp add: exec j(1) n run split: sum.split)
      then show ?thesis
        using Inr j(2) t a r True by (intro exI[of _ "j # new"]) (cases r, auto)
    qed
  qed
qed

lemma merged_judge_ready:
  assumes "\<forall>ob\<in>set obs. valid_observation ob" "merge_evidence obs gate = Inr v"
  shows "distinct (view_finding_ids v)" and "\<forall>c\<in>set (view_conflicts v). judge_ready v c"
proof -
  have v: "v = merged_view obs gate"
    using assms(2) by (simp add: merge_closed[OF assms(1)] split: if_splits)
  have ids: "view_finding_ids v = map delivered_id (first_deliveries {} obs)"
    by (simp add: v view_finding_ids_def merged_view_def Let_def delivered_id_def)
  show "distinct (view_finding_ids v)" by (simp add: ids first_deliveries_distinct)
  let ?A = "anchors_of gate"
  have fin: "finite (contested ?A obs)"
  proof (rule finite_subset)
    show "contested ?A obs \<subseteq> ?A"
      using ids_related_to_facts[OF assms(1)] unfolding contested_def
      by (auto simp: neq_Nil_conv) (metis list.set_intros(1))
  qed simp
  have "judge_ready v (conflict_on ?A obs a)" if "a \<in> contested ?A obs" for a
  proof -
    have ne: "ids_related_to ?A Rel_SUPPORTING a obs \<noteq> []" "ids_related_to ?A Rel_CONTRADICTING a obs \<noteq> []"
      using that by (auto simp: contested_def)
    then obtain i where "i \<in> set (ids_related_to ?A Rel_SUPPORTING a obs)"
      by (meson ex_in_conv set_empty)
    then have "\<not> is_blank a" using ids_related_to_facts[OF assms(1)] by blast
    moreover have "set (ids_related_to ?A r a obs) \<subseteq> set (view_finding_ids v)" for r
      by (auto simp: ids ids_related_to_def)
    ultimately show ?thesis using ne by (simp add: judge_ready_def conflict_on_def)
  qed
  with fin show "\<forall>c\<in>set (view_conflicts v). judge_ready v c"
    by (auto simp: v merged_view_def Let_def)
qed

text \<open>C14: over the view of any merge, the judge is asked about the explicit conflicts in their
order, each at most once and with exactly the findings the conflict names; the run returns one
judgment per conflict exactly when every conflict stays within one step and the judge answers every
call, and it stops with \<open>JudgeError\<close> at the first conflict whose findings belong to several steps.
Without a judge nothing is asked and the run says so.\<close>

theorem judge_once_per_conflict:
  assumes "\<forall>ob\<in>set obs. valid_observation ob" "merge_evidence obs gate = Inr v"
  shows "resolve None v told = (Inr \<lparr>run_judgments = [], run_judge_available = False\<rparr>, told)
    \<and> (\<exists>calls. snd (resolve (Some (noting f)) v []) = calls
       \<and> list_all2 (asked v) (take (length calls) (view_conflicts v)) calls
       \<and> (case fst (resolve (Some (noting f)) v []) of
            Inl e \<Rightarrow> (length calls < length (view_conflicts v) \<and> e = JudgeError
                     \<and> \<not> one_step v (view_conflicts v ! length calls))
                   \<or> (calls \<noteq> [] \<and> f (last calls) = Inl e)
          | Inr run \<Rightarrow> run_judge_available run \<and> judge_count run = length (view_conflicts v)
                   \<and> (\<forall>c\<in>set (view_conflicts v). one_step v c) \<and> length calls = length (view_conflicts v)
                   \<and> map judgment_conflict (run_judgments run) = view_conflicts v
                   \<and> mapE f calls = Inr (map judgment_decision (run_judgments run))))"
proof -
  have none: "resolve None v told = (Inr \<lparr>run_judgments = [], run_judge_available = False\<rparr>, told)"
    by (simp add: resolve_def exec)
  obtain r t where run: "judge_all (noting f) v (view_conflicts v) [] = (r, t)" by fastforce
  have "\<forall>c\<in>set (view_conflicts v). c \<in> set (view_conflicts v) \<and> judge_ready v c"
    using merged_judge_ready(2)[OF assms] by blast
  then obtain new where "t = new" "list_all2 (asked v) (take (length new) (view_conflicts v)) new"
    and "case r of Inl e \<Rightarrow> (length new < length (view_conflicts v) \<and> e = JudgeError \<and> \<not> one_step v (view_conflicts v ! length new))
                 \<or> (new \<noteq> [] \<and> f (last new) = Inl e)
        | Inr js \<Rightarrow> (\<forall>c\<in>set (view_conflicts v). one_step v c) \<and> length new = length (view_conflicts v)
                 \<and> map judgment_conflict js = view_conflicts v \<and> mapE f new = Inr (map judgment_decision js)"
    using judge_all_noting[OF merged_judge_ready(1)[OF assms], of "view_conflicts v" f "[]"] run by auto
  then have "\<exists>calls. snd (resolve (Some (noting f)) v []) = calls
       \<and> list_all2 (asked v) (take (length calls) (view_conflicts v)) calls
       \<and> (case fst (resolve (Some (noting f)) v []) of
            Inl e \<Rightarrow> (length calls < length (view_conflicts v) \<and> e = JudgeError
                     \<and> \<not> one_step v (view_conflicts v ! length calls))
                   \<or> (calls \<noteq> [] \<and> f (last calls) = Inl e)
          | Inr run \<Rightarrow> run_judge_available run \<and> judge_count run = length (view_conflicts v)
                   \<and> (\<forall>c\<in>set (view_conflicts v). one_step v c) \<and> length calls = length (view_conflicts v)
                   \<and> map judgment_conflict (run_judgments run) = view_conflicts v
                   \<and> mapE f calls = Inr (map judgment_decision (run_judgments run)))"
    using run by (cases r) (auto simp: resolve_def exec judge_count_def dest: arg_cong[where f = length])
  with none show ?thesis by simp
qed


section \<open>Samples\<close>

definition demo_finding :: "string \<Rightarrow> string \<Rightarrow> int \<Rightarrow> finding" where
  "demo_finding i source no =
     \<lparr>finding_id = i, finding_source = source, finding_claim = ''cycle'', finding_evidence = [],
      finding_confidence = 1 / 2, finding_severity = Sev_HIGH, finding_step_no = Some no,
      finding_created_at = 0\<rparr>"

definition demo_observation :: "finding \<Rightarrow> evidence_relation \<Rightarrow> string option \<Rightarrow> observation" where
  "demo_observation f r t =
     \<lparr>obs_source = finding_source f, obs_status = Obs_FINDING, obs_finding = Some f,
      obs_reason = None, obs_relation = r, obs_relation_target = t\<rparr>"

definition demo_verdict :: decision where
  "demo_verdict =
     \<lparr>decision_id = ''gate-1'', decision_status = Decision_REJECTED, decision_decision = ''rejected'',
      decision_rationale = '''', decision_rules_applied = [''R1'', ''R2''],
      decision_evidence_refs = [''v1''], decision_perspectives = [], decision_step_no = Some 1,
      decision_created_at = 0\<rparr>"

text \<open>Two contested rules; the findings on the second belong to two steps. A failed advisor, an
undeclared finding and a repeated delivery complete the list.\<close>

definition demo_observations :: "observation list" where
  "demo_observations =
     [demo_observation (demo_finding ''f1'' ''openai'' 1) Rel_SUPPORTING (Some ''R1''),
      demo_observation (demo_finding ''f2'' ''claude'' 1) Rel_CONTRADICTING (Some ''R1''),
      demo_observation (demo_finding ''f3'' ''openai'' 1) Rel_SUPPORTING (Some ''R2''),
      demo_observation (demo_finding ''f4'' ''grok'' 2) Rel_CONTRADICTING (Some ''R2''),
      demo_observation (demo_finding ''f5'' ''grok'' 2) Rel_SUPPORTING (Some ''R9''),
      demo_observation (demo_finding ''f1'' ''openai'' 1) Rel_UNRESOLVED None,
      \<lparr>obs_source = ''grok'', obs_status = Obs_ERROR, obs_finding = None, obs_reason = Some ''advisor failed'',
       obs_relation = Rel_UNRESOLVED, obs_relation_target = None\<rparr>]"

definition demo_view :: view where
  "demo_view =
     \<lparr>view_findings = [demo_finding ''f1'' ''openai'' 1, demo_finding ''f2'' ''claude'' 1,
        demo_finding ''f3'' ''openai'' 1, demo_finding ''f4'' ''grok'' 2, demo_finding ''f5'' ''grok'' 2],
      view_supporting = [''f1'', ''f3''], view_conflicting = [''f2'', ''f4''], view_unresolved = [''f5''],
      view_abstained = [], view_errors = [\<lparr>outcome_source = ''grok'', outcome_reason = ''advisor failed''\<rparr>],
      view_conflicts =
        [\<lparr>conflict_target = ''R1'', conflict_supporting = [''f1''], conflict_contradicting = [''f2'']\<rparr>,
         \<lparr>conflict_target = ''R2'', conflict_supporting = [''f3''], conflict_contradicting = [''f4'']\<rparr>],
      view_questions =
        [''Unresolved evidence conflict on R1: supporting f1 vs contradicting f2'',
         ''Unresolved evidence conflict on R2: supporting f3 vs contradicting f4''],
      view_gate_status = Some Decision_REJECTED, view_gate_anchors = [''R1'', ''R2'', ''v1'']\<rparr>"

lemma demo_observations_valid: "\<forall>ob\<in>set demo_observations. valid_observation ob"
  by code_simp

lemma demo_merge: "merge_evidence demo_observations (Some demo_verdict) = Inr demo_view"
  by code_simp


theorem merge_lossless_witness:
  "distinct (view_finding_ids demo_view)
   \<and> mset (view_supporting demo_view @ view_conflicting demo_view @ view_unresolved demo_view)
       = mset (view_finding_ids demo_view)
   \<and> length (view_errors demo_view) = length (filter (\<lambda>ob. obs_status ob = Obs_ERROR) demo_observations)"
  using merge_lossless[OF demo_observations_valid, of "Some demo_verdict"]
  unfolding demo_merge sum.case by blast

theorem relations_only_declared_witness:
  "set (view_supporting demo_view) = delivered_id ` {ob \<in> set (first_deliveries {} demo_observations).
       obs_relation ob = Rel_SUPPORTING \<and> (\<exists>t\<in>anchors_of (Some demo_verdict). obs_relation_target ob = Some t)}"
  using relations_only_declared[OF demo_observations_valid demo_merge] by blast

lemma demo_verdict_fields:
  "decision_status demo_verdict = Decision_REJECTED"
  "decision_rules_applied demo_verdict = [''R1'', ''R2'']"
  by (simp_all add: demo_verdict_def)

theorem gate_outranks_advisors_witness:
  "case decide_from_observations (\<lambda>t. ''0123456789abcdef'') demo_observations (Some demo_verdict) None (Some 1) 5 of
     Inl e \<Rightarrow> False
   | Inr r \<Rightarrow> decision_status (result_decision r) = Decision_REJECTED
       \<and> result_evidence r = demo_view \<and> decision_rules_applied (result_decision r) = [''R1'', ''R2'']"
  using gate_outranks_advisors[OF demo_observations_valid, where h = "\<lambda>t. ''0123456789abcdef''"
      and gate = "Some demo_verdict" and given_id = None and no = "Some 1" and now = 5]
  by (cases "decide_from_observations (\<lambda>t. ''0123456789abcdef'') demo_observations (Some demo_verdict) None (Some 1) 5")
     (auto simp: demo_merge demo_verdict_fields Let_def)

theorem judge_once_per_conflict_witness:
  "list_all2 (asked demo_view)
     (take (length (snd (resolve (Some (noting (\<lambda>_. Inr demo_verdict))) demo_view [])))
       (view_conflicts demo_view))
     (snd (resolve (Some (noting (\<lambda>_. Inr demo_verdict))) demo_view []))"
  by (rule conjunct2[OF judge_once_per_conflict[OF demo_observations_valid demo_merge,
        where f = "\<lambda>_. Inr demo_verdict" and told = "[]"], THEN exE], elim conjE, simp only:)


end
