(* ===== verification/Cost.thy ===== *)
theory Cost
  imports Storage "HOL-Library.Multiset"
begin

text \<open>
  The cost ledger (\<open>infrastructure/cost.py\<close>): the idempotent \<open>record\<close> and the filtered, summed
  \<open>query\<close> of \<open>SqliteCostPlugin\<close> over the table \<open>cost_records\<close> of the shared connection, with the
  row the statement binds, the reading of a row and the \<open>WHERE\<close> clause. The lemmas show that the
  clause and \<open>CostQuery.matches\<close> agree on every stored row, and what any sequence of deliveries
  leaves in the ledger.
\<close>

section \<open>Rows\<close>

definition COST_COLUMNS :: "string list" where
  "COST_COLUMNS =
     [''event_id'', ''provider'', ''model'', ''input_tokens'', ''output_tokens'', ''cost_usd'',
      ''pricing_known'', ''project'', ''step_no'', ''created_at'']"

definition cost_params :: "cost_record \<Rightarrow> cell list" where
  "cost_params c =
     [CText (cost_event_id c), CText (cost_provider c), CText (cost_model c),
      CInt (cost_input_tokens c), CInt (cost_output_tokens c), CReal (cost_usd c),
      CInt (if cost_pricing_known c then 1 else 0), text_opt (cost_project c),
      int_opt (cost_step_no c), CIso (cost_created_at c)]"

definition cost_row :: "cost_record \<Rightarrow> row" where
  "cost_row c = bind_row COST_COLUMNS (cost_params c)"

definition row_to_cost :: "row \<Rightarrow> exn + cost_record" where
  "row_to_cost r =
     bindE (as_text (r ''provider'')) (\<lambda>provider.
     bindE (as_text (r ''event_id'')) (\<lambda>event.
     bindE (as_text (r ''model'')) (\<lambda>model.
     bindE (as_int (r ''input_tokens'')) (\<lambda>input.
     bindE (as_int (r ''output_tokens'')) (\<lambda>out.
     bindE (as_real (r ''cost_usd'')) (\<lambda>usd.
     bindE (as_bool (r ''pricing_known'')) (\<lambda>known.
     bindE (as_opt_text (r ''project'')) (\<lambda>project.
     bindE (as_opt_int (r ''step_no'')) (\<lambda>no.
     bindE (as_instant (r ''created_at'')) (\<lambda>created.
     mk_cost_record
       \<lparr>cost_provider = provider, cost_event_id = event, cost_model = model,
        cost_input_tokens = input, cost_output_tokens = out, cost_usd = usd,
        cost_pricing_known = known, cost_project = project, cost_step_no = no,
        cost_created_at = created\<rparr>))))))))))"

section \<open>Recording\<close>

type_synonym accounting =
  "string \<times> string \<times> int \<times> int \<times> rat \<times> bool \<times> string option \<times> int option"

definition accounting_content :: "cost_record \<Rightarrow> accounting" where
  "accounting_content c =
     (cost_provider c, cost_model c, cost_input_tokens c, cost_output_tokens c, cost_usd c,
      cost_pricing_known c, cost_project c, cost_step_no c)"

definition same_accounting_event :: "cost_record \<Rightarrow> cost_record \<Rightarrow> bool" where
  "same_accounting_event stored incoming = (accounting_content stored = accounting_content incoming)"

text \<open>\<open>SELECT * FROM cost_records WHERE event_id = ?\<close>, built through \<open>_row_to_cost\<close>.\<close>

definition stored_cost :: "string \<Rightarrow> cost_record option io" where
  "stored_cost event =
     bindM (getsM (\<lambda>w. map cost_row (db_costs (live w)))) (\<lambda>rows.
     liftE (fetch_one row_to_cost [(''event_id'', CText event)] rows))"

definition record_cost :: "cost_record \<Rightarrow> unit io" where
  "record_cost c =
     bindM (stored_cost (cost_event_id c)) (\<lambda>stored.
     case stored of
       Some s \<Rightarrow> if same_accounting_event s c then returnM () else raiseM CostIdentityConflictError
     | None \<Rightarrow> execute_write (\<lambda>d. d\<lparr>db_costs := db_costs d @ [c]\<rparr>))"

section \<open>Querying\<close>

datatype comparison = Equals | AtLeast | AtMost

definition cost_where :: "cost_query \<Rightarrow> (string \<times> comparison \<times> cell) list" where
  "cost_where q =
     (case cq_project q of None \<Rightarrow> [] | Some p \<Rightarrow> [(''project'', Equals, CText p)])
     @ (case cq_step_no q of None \<Rightarrow> [] | Some n \<Rightarrow> [(''step_no'', Equals, CInt n)])
     @ (case cq_provider q of None \<Rightarrow> [] | Some p \<Rightarrow> [(''provider'', Equals, CText p)])
     @ (case cq_from_time q of None \<Rightarrow> [] | Some t \<Rightarrow> [(''created_at'', AtLeast, CIso t)])
     @ (case cq_to_time q of None \<Rightarrow> [] | Some t \<Rightarrow> [(''created_at'', AtMost, CIso t)])"

text \<open>SQLite's comparison of a column with a bound value; \<open>NULL\<close> compares with nothing.\<close>

fun compare_cell :: "comparison \<Rightarrow> cell \<Rightarrow> cell \<Rightarrow> bool" where
  "compare_cell _ CNull _ = False"
| "compare_cell Equals x y = (x = y)"
| "compare_cell AtLeast x y = (cell_rank y \<le> cell_rank x)"
| "compare_cell AtMost x y = (cell_rank x \<le> cell_rank y)"

definition row_satisfies :: "(string \<times> comparison \<times> cell) list \<Rightarrow> row \<Rightarrow> bool" where
  "row_satisfies conds r = list_all (\<lambda>(col, cmp, v). compare_cell cmp (r col) v) conds"

definition summarize :: "cost_record list \<Rightarrow> exn + cost_summary" where
  "summarize rs =
     mk_cost_summary
       \<lparr>sum_total_usd = round6 (foldl (\<lambda>total c. total + cost_usd c) 0 rs),
        sum_input_tokens = foldl (\<lambda>n c. n + cost_input_tokens c) 0 rs,
        sum_output_tokens = foldl (\<lambda>n c. n + cost_output_tokens c) 0 rs,
        sum_record_count = int (length rs),
        sum_priced = foldl (\<lambda>n c. if cost_pricing_known c then n + 1 else n) 0 rs,
        sum_unpriced = foldl (\<lambda>n c. if cost_pricing_known c then n else n + 1) 0 rs\<rparr>"

definition query_costs :: "cost_query \<Rightarrow> cost_summary io" where
  "query_costs q =
     bindM (getsM (\<lambda>w. filter (row_satisfies (cost_where q)) (map cost_row (db_costs (live w))))) (\<lambda>rows.
     bindM (liftE (mapE row_to_cost rows)) (\<lambda>stored.
     liftE (summarize (filter (query_matches q) stored))))"

section \<open>Rows and the contract agree\<close>

definition valid_cost :: "cost_record \<Rightarrow> bool" where
  "valid_cost c \<longleftrightarrow> mk_cost_record c = Inr c"

lemma mk_cost_record_argument: "mk_cost_record c = Inr c' \<Longrightarrow> c' = c"
  by (auto simp: mk_cost_record_def)

lemma cost_row_columns:
  "cost_row c ''provider'' = CText (cost_provider c)" "cost_row c ''event_id'' = CText (cost_event_id c)"
  "cost_row c ''model'' = CText (cost_model c)" "cost_row c ''input_tokens'' = CInt (cost_input_tokens c)"
  "cost_row c ''output_tokens'' = CInt (cost_output_tokens c)" "cost_row c ''cost_usd'' = CReal (cost_usd c)"
  "cost_row c ''pricing_known'' = CInt (if cost_pricing_known c then 1 else 0)"
  "cost_row c ''project'' = text_opt (cost_project c)" "cost_row c ''step_no'' = int_opt (cost_step_no c)"
  "cost_row c ''created_at'' = CIso (cost_created_at c)"
  by (simp_all add: cost_row_def bind_row_def COST_COLUMNS_def cost_params_def)

lemma row_to_cost_row: "valid_cost c \<Longrightarrow> row_to_cost (cost_row c) = Inr c"
  by (cases c) (auto simp: row_to_cost_def cost_row_columns cell_trips valid_cost_def)

lemma cost_where_matches: "row_satisfies (cost_where q) (cost_row c) \<longleftrightarrow> query_matches q c"
  by (auto simp: row_satisfies_def cost_where_def query_matches_def cost_row_columns text_opt_def int_opt_def
      less_eq_prod_def split: option.splits)

definition valid_ledger :: "world \<Rightarrow> bool" where
  "valid_ledger w \<longleftrightarrow> list_all valid_cost (db_costs (live w)) \<and> distinct (map cost_event_id (db_costs (live w)))"

lemma stored_cost_run:
  assumes "list_all valid_cost (db_costs (live w))"
  shows "stored_cost e w = (Inr (lookup cost_event_id e (db_costs (live w))), w)"
proof -
  have "fetch_one row_to_cost [(''event_id'', CText e)] (map cost_row cs) = Inr (lookup cost_event_id e cs)"
    if "list_all valid_cost cs" for cs
    using that
    by (induction cs)
       (auto simp: fetch_one_def lookup_def matches_def cost_row_columns row_to_cost_row)
  with assms show ?thesis by (simp add: stored_cost_def exec)
qed

lemma record_cost_run:
  assumes "valid_ledger w"
  shows "record_cost c w =
     (case lookup cost_event_id (cost_event_id c) (db_costs (live w)) of
        Some s \<Rightarrow> (if same_accounting_event s c then (Inr (), w) else (Inl CostIdentityConflictError, w))
      | None \<Rightarrow> execute_write (\<lambda>d. d\<lparr>db_costs := db_costs d @ [c]\<rparr>) w)"
  using assms by (auto simp: record_cost_def exec stored_cost_run valid_ledger_def split: option.split)


section \<open>What deliveries leave in the ledger\<close>

text \<open>Several deliveries in a row, each caller keeping its telemetry error to itself.\<close>

definition deliver_costs :: "cost_record list \<Rightarrow> unit io" where
  "deliver_costs cs = forM cs (\<lambda>c. catchM (record_cost c) (\<lambda>_. returnM ()))"

primrec ledger_after :: "cost_record list \<Rightarrow> cost_record list \<Rightarrow> cost_record list" where
  "ledger_after stored [] = stored"
| "ledger_after stored (c # cs) =
     ledger_after (if cost_event_id c \<in> cost_event_id ` set stored then stored else stored @ [c]) cs"

lemma ledger_after_valid:
  assumes "list_all valid_cost stored" "distinct (map cost_event_id stored)" "list_all valid_cost cs"
  shows "list_all valid_cost (ledger_after stored cs)" "distinct (map cost_event_id (ledger_after stored cs))"
  using assms by (induction cs arbitrary: stored) auto

lemma ledger_after_prefix: "\<exists>new. ledger_after stored cs = stored @ new \<and> set new \<subseteq> set cs"
proof (induction cs arbitrary: stored)
  case (Cons c cs)
  show ?case
  proof (cases "cost_event_id c \<in> cost_event_id ` set stored")
    case True
    then show ?thesis using Cons[of stored] by auto
  next
    case False
    then show ?thesis using Cons[of "stored @ [c]"] by auto
  qed
qed simp

lemma ledger_after_ids:
  "cost_event_id ` set (ledger_after stored cs) = cost_event_id ` (set stored \<union> set cs)"
  by (induction cs arbitrary: stored) auto

lemma ledger_after_known:
  "cost_event_id ` set cs \<subseteq> cost_event_id ` set stored \<Longrightarrow> ledger_after stored cs = stored"
  by (induction cs arbitrary: stored) auto

lemma execute_write_live [simp]: "live (snd (execute_write f w)) = f (live w)"
  by (simp add: exec)

lemma deliver_cost_live:
  assumes "valid_ledger w"
  shows "fst (catchM (record_cost c) (\<lambda>_. returnM ()) w) = Inr ()"
    and "live (snd (catchM (record_cost c) (\<lambda>_. returnM ()) w))
      = (live w)\<lparr>db_costs := ledger_after (db_costs (live w)) [c]\<rparr>"
proof -
  let ?new = "cost_event_id c \<notin> cost_event_id ` set (db_costs (live w))"
  have "fst (catchM (record_cost c) (\<lambda>_. returnM ()) w) = Inr ()
      \<and> live (snd (catchM (record_cost c) (\<lambda>_. returnM ()) w))
        = (live w)\<lparr>db_costs := ledger_after (db_costs (live w)) [c]\<rparr>"
  proof (cases ?new)
    case True
    then have "record_cost c w = execute_write (\<lambda>d. d\<lparr>db_costs := db_costs d @ [c]\<rparr>) w"
      by (simp add: record_cost_run[OF assms] lookup_None[THEN iffD2])
    with True show ?thesis by (simp add: exec)
  next
    case False
    then obtain s where "lookup cost_event_id (cost_event_id c) (db_costs (live w)) = Some s"
      by (metis lookup_None option.exhaust)
    then have "snd (record_cost c w) = w" "fst (record_cost c w) = Inr () \<or> fst (record_cost c w) = Inl CostIdentityConflictError"
      by (simp_all add: record_cost_run[OF assms])
    then obtain r where "record_cost c w = (r, w)" "r = Inr () \<or> r = Inl CostIdentityConflictError"
      by (cases "record_cost c w") simp
    with False show ?thesis by (auto simp: catchM_run returnM_run)
  qed
  then show "fst (catchM (record_cost c) (\<lambda>_. returnM ()) w) = Inr ()"
    and "live (snd (catchM (record_cost c) (\<lambda>_. returnM ()) w))
      = (live w)\<lparr>db_costs := ledger_after (db_costs (live w)) [c]\<rparr>" by simp_all
qed

lemma deliver_costs_live:
  assumes "valid_ledger w" "list_all valid_cost cs"
  shows "fst (deliver_costs cs w) = Inr ()
    \<and> live (snd (deliver_costs cs w)) = (live w)\<lparr>db_costs := ledger_after (db_costs (live w)) cs\<rparr>"
  using assms
proof (induction cs arbitrary: w)
  case Nil
  then show ?case by (simp add: deliver_costs_def exec)
next
  case (Cons c cs)
  let ?one = "catchM (record_cost c) (\<lambda>_. returnM ())"
  obtain r u where run: "?one w = (r, u)" by fastforce
  have r: "r = Inr ()" and u: "live u = (live w)\<lparr>db_costs := ledger_after (db_costs (live w)) [c]\<rparr>"
    using deliver_cost_live[OF Cons.prems(1), of c] run by simp_all
  have "valid_ledger u"
    using Cons.prems ledger_after_valid[of "db_costs (live w)" "[c]"] by (simp add: valid_ledger_def u)
  then have "fst (deliver_costs cs u) = Inr ()
      \<and> live (snd (deliver_costs cs u)) = (live u)\<lparr>db_costs := ledger_after (db_costs (live u)) cs\<rparr>"
    using Cons by simp
  moreover have "deliver_costs (c # cs) w = deliver_costs cs u"
    using run r by (simp add: deliver_costs_def exec)
  ultimately show ?case by (simp add: u)
qed

text \<open>C16: cost events are recorded once: delivering any records in any order, repeated or with a
reused id, never fails for the caller, never removes or rewrites a stored event, stores exactly one
record for every delivered event id, and delivering them all again changes nothing; an id that
comes back with different content is refused and the ledger stays as it is.\<close>

theorem cost_recorded_once:
  assumes "valid_ledger w" "list_all valid_cost cs"
  shows "fst (deliver_costs cs w) = Inr () \<and> valid_ledger (snd (deliver_costs cs w))
    \<and> (\<exists>new. db_costs (live (snd (deliver_costs cs w))) = db_costs (live w) @ new \<and> set new \<subseteq> set cs)
    \<and> cost_event_id ` set (db_costs (live (snd (deliver_costs cs w))))
         = cost_event_id ` (set (db_costs (live w)) \<union> set cs)
    \<and> live (snd (deliver_costs cs (snd (deliver_costs cs w)))) = live (snd (deliver_costs cs w))
    \<and> (\<forall>s c. s \<in> set (db_costs (live w)) \<longrightarrow> cost_event_id c = cost_event_id s \<longrightarrow>
         record_cost c w = (if accounting_content s = accounting_content c then Inr ()
                            else Inl CostIdentityConflictError, w))"
proof (intro conjI allI impI)
  note run = deliver_costs_live[OF assms]
  have L: "db_costs (live (snd (deliver_costs cs w))) = ledger_after (db_costs (live w)) cs"
    using run by simp
  show "fst (deliver_costs cs w) = Inr ()" using run by simp
  show v: "valid_ledger (snd (deliver_costs cs w))"
    using assms ledger_after_valid[of "db_costs (live w)" cs] by (simp add: valid_ledger_def L)
  show "\<exists>new. db_costs (live (snd (deliver_costs cs w))) = db_costs (live w) @ new \<and> set new \<subseteq> set cs"
    unfolding L by (rule ledger_after_prefix)
  show "cost_event_id ` set (db_costs (live (snd (deliver_costs cs w))))
         = cost_event_id ` (set (db_costs (live w)) \<union> set cs)"
    unfolding L by (rule ledger_after_ids)
  have "ledger_after (ledger_after (db_costs (live w)) cs) cs = ledger_after (db_costs (live w)) cs"
    by (rule ledger_after_known) (auto simp: ledger_after_ids)
  then show "live (snd (deliver_costs cs (snd (deliver_costs cs w)))) = live (snd (deliver_costs cs w))"
    using deliver_costs_live[OF v assms(2)] run by simp
  fix s c :: cost_record
  assume s: "s \<in> set (db_costs (live w))" "cost_event_id c = cost_event_id s"
  have "lookup cost_event_id (cost_event_id s) (db_costs (live w)) = Some s"
    unfolding lookup_def
    by (rule find_unique) (use assms(1) s(1) in \<open>auto simp: valid_ledger_def distinct_map dest: inj_onD\<close>)
  then show "record_cost c w = (if accounting_content s = accounting_content c then Inr ()
                            else Inl CostIdentityConflictError, w)"
    by (simp add: record_cost_run[OF assms(1)] s(2) same_accounting_event_def)
qed

lemma foldl_sum: "foldl (\<lambda>n c. n + f c) (a :: 'b :: comm_monoid_add) cs = a + sum_list (map f cs)"
  by (induction cs arbitrary: a) (simp_all add: add.assoc)

lemma foldl_count:
  "foldl (\<lambda>n c. if P c then n + 1 else n) (a :: int) cs = a + int (length (filter P cs))"
  "foldl (\<lambda>n c. if P c then n else n + 1) (a :: int) cs = a + int (length (filter (\<lambda>c. \<not> P c) cs))"
  by (induction cs arbitrary: a) simp_all

lemma valid_cost_nonneg:
  "valid_cost c \<Longrightarrow> 0 \<le> cost_usd c \<and> 0 \<le> cost_input_tokens c \<and> 0 \<le> cost_output_tokens c"
  by (auto simp: valid_cost_def mk_cost_record_def)

text \<open>C17: a query never disagrees with the contract: over every ledger it returns a summary of
exactly the stored records that satisfy \<open>CostQuery.matches\<close> (the SQL clause drops none and adds
none), totals are their sums, and priced and unpriced records partition the count.\<close>

theorem cost_query_exact:
  assumes "valid_ledger w"
  shows "\<exists>s. query_costs q w = (Inr s, w)
     \<and> (let rs = filter (query_matches q) (db_costs (live w)) in
        sum_total_usd s = round6 (\<Sum>c\<leftarrow>rs. cost_usd c)
        \<and> sum_input_tokens s = (\<Sum>c\<leftarrow>rs. cost_input_tokens c)
        \<and> sum_output_tokens s = (\<Sum>c\<leftarrow>rs. cost_output_tokens c)
        \<and> sum_record_count s = int (length rs)
        \<and> sum_priced s = int (length (filter cost_pricing_known rs))
        \<and> sum_priced s + sum_unpriced s = sum_record_count s)"
proof -
  let ?cs = "db_costs (live w)"
  let ?rs = "filter (query_matches q) ?cs"
  have rows: "filter (row_satisfies (cost_where q)) (map cost_row ?cs) = map cost_row ?rs"
    by (simp add: filter_map comp_def cost_where_matches)
  have "mapE row_to_cost (map cost_row cs) = Inr cs" if "list_all valid_cost cs" for cs
    using that by (induction cs) (auto simp: row_to_cost_row)
  moreover have valid: "list_all valid_cost ?rs"
    using assms by (auto simp: valid_ledger_def list_all_iff)
  ultimately have built: "mapE row_to_cost (map cost_row ?rs) = Inr ?rs" by simp
  have nonneg: "0 \<le> (\<Sum>c\<leftarrow>?rs. cost_usd c)" "0 \<le> (\<Sum>c\<leftarrow>?rs. cost_input_tokens c)"
    "0 \<le> (\<Sum>c\<leftarrow>?rs. cost_output_tokens c)"
    using valid valid_cost_nonneg by (auto simp: list_all_iff intro!: sum_list_nonneg)
  have parts: "int (length (filter cost_pricing_known ?rs)) + int (length (filter (\<lambda>c. \<not> cost_pricing_known c) ?rs))
      = int (length ?rs)"
    using sum_length_filter_compl[of cost_pricing_known ?rs] by linarith
  show ?thesis
    unfolding query_costs_def bindM_run getsM_run liftE_run prod.case sum.case rows built
    using nonneg parts
    by (simp add: summarize_def foldl_sum foldl_count mk_cost_summary_def round6_nonneg Let_def)
qed

definition demo_cost :: "string \<Rightarrow> int \<Rightarrow> rat \<Rightarrow> cost_record" where
  "demo_cost e n usd =
     \<lparr>cost_provider = ''claude'', cost_event_id = e, cost_model = ''m'', cost_input_tokens = n,
      cost_output_tokens = 2, cost_usd = usd, cost_pricing_known = usd \<noteq> 0, cost_project = None,
      cost_step_no = Some 1, cost_created_at = 7\<rparr>"

definition demo_ledger :: world where
  "demo_ledger = world_with (empty_db\<lparr>db_costs := [demo_cost ''claude:a'' 5 0]\<rparr>) empty_channel []"

lemma demo_ledger_valid: "valid_ledger demo_ledger"
  by (simp add: demo_ledger_def valid_ledger_def valid_cost_def demo_cost_def mk_cost_record_def
      world_with_def empty_db_def is_space_def)

lemma demo_costs_valid: "list_all valid_cost [demo_cost ''claude:b'' 3 1, demo_cost ''claude:a'' 9 2]"
  by (simp add: valid_cost_def demo_cost_def mk_cost_record_def is_space_def)

theorem cost_recorded_once_witness:
  "cost_event_id ` set (db_costs (live (snd (deliver_costs
      [demo_cost ''claude:b'' 3 1, demo_cost ''claude:a'' 9 2] demo_ledger))))
   = {''claude:a'', ''claude:b''}"
proof -
  have "cost_event_id ` set (db_costs (live (snd (deliver_costs
      [demo_cost ''claude:b'' 3 1, demo_cost ''claude:a'' 9 2] demo_ledger))))
    = cost_event_id ` (set (db_costs (live demo_ledger)) \<union> set [demo_cost ''claude:b'' 3 1, demo_cost ''claude:a'' 9 2])"
    using cost_recorded_once[OF demo_ledger_valid demo_costs_valid] by blast
  then show ?thesis by (auto simp: demo_ledger_def world_with_def demo_cost_def)
qed

theorem cost_query_exact_witness:
  "\<exists>s. query_costs \<lparr>cq_project = None, cq_step_no = Some 1, cq_provider = None, cq_from_time = Some 7,
         cq_to_time = None\<rparr> demo_ledger = (Inr s, demo_ledger) \<and> sum_record_count s = 1 \<and> sum_priced s = 0"
  using cost_query_exact[OF demo_ledger_valid, of "\<lparr>cq_project = None, cq_step_no = Some 1,
         cq_provider = None, cq_from_time = Some 7, cq_to_time = None\<rparr>"]
  by (auto simp: demo_ledger_def world_with_def demo_cost_def query_matches_def Let_def)

end
