(* ===== verification/Plugin_Core.thy ===== *)
theory Plugin_Core
  imports Capabilities "HOL-Library.AList"
begin

text \<open>
  The plugin registry (\<open>application/plugin_core.py\<close>): named adapters per capability in two
  dictionaries in insertion order, every operation as a computation over them. An adapter is any
  Python object, \<open>None\<close> included, hence an optional value. The property is that registration and
  default selection keep the registry coherent: every capability with an adapter has exactly one
  default and it is registered.
\<close>

datatype capability_arg = Member plugin_capability | Text string

record 'p registry =
  reg_plugins :: "((plugin_capability \<times> string) \<times> 'p option) list"
  reg_defaults :: "(plugin_capability \<times> string) list"

definition empty_registry :: "'p registry" where
  "empty_registry = \<lparr>reg_plugins = [], reg_defaults = []\<rparr>"

record 'p plugin_binding =
  bind_capability :: plugin_capability
  bind_name :: string
  bind_plugin :: "'p option"
  bind_is_default :: bool

definition mk_plugin_binding :: "'p plugin_binding \<Rightarrow> exn + 'p plugin_binding" where
  "mk_plugin_binding b = bindE (requireE (\<not> is_blank (bind_name b)) ValueError) (\<lambda>_. Inr b)"

definition reg_capability :: "capability_arg \<Rightarrow> exn + plugin_capability" where
  "reg_capability v =
     (case v of
        Member c \<Rightarrow> Inr c
      | Text s \<Rightarrow> (case coerce_enum plugin_capability_members plugin_capability_value s of
                    Inl e \<Rightarrow> Inl PluginError | Inr c \<Rightarrow> Inr c))"

definition reg_name :: "string \<Rightarrow> exn + string" where
  "reg_name s = (if is_blank s then Inl PluginError else Inr s)"

type_synonym ('p, 'a) reg = "('p registry, 'a) pm"

definition registry_binding :: "capability_arg \<Rightarrow> string \<Rightarrow> ('p, 'p plugin_binding) reg" where
  "registry_binding cap name =
     bindM (liftE (reg_capability cap)) (\<lambda>c.
     bindM (liftE (reg_name name)) (\<lambda>n.
     bindM (getsM (\<lambda>r. map_of (reg_plugins r) (c, n))) (\<lambda>found.
     bindM (getsM (\<lambda>r. map_of (reg_defaults r) c = Some n)) (\<lambda>is_default.
     case found of
       None \<Rightarrow> raiseM PluginNotFoundError
     | Some p \<Rightarrow>
         if p = None then raiseM PluginNotFoundError
         else liftE (mk_plugin_binding
           \<lparr>bind_capability = c, bind_name = n, bind_plugin = p, bind_is_default = is_default\<rparr>)))))"

definition register :: "capability_arg \<Rightarrow> string \<Rightarrow> 'p option \<Rightarrow> ('p, 'p plugin_binding) reg" where
  "register cap name plugin =
     bindM (liftE (reg_capability cap)) (\<lambda>c.
     bindM (liftE (reg_name name)) (\<lambda>n.
     bindM (getsM (\<lambda>r. (c, n) \<in> fst ` set (reg_plugins r))) (\<lambda>taken.
     if taken then raiseM PluginAlreadyRegisteredError
     else
       thenM (modifyM (\<lambda>r. r\<lparr>reg_plugins := AList.update (c, n) plugin (reg_plugins r)\<rparr>))
       (thenM (modifyM (\<lambda>r. if c \<in> fst ` set (reg_defaults r) then r
                            else r\<lparr>reg_defaults := AList.update c n (reg_defaults r)\<rparr>))
       (registry_binding (Member c) n)))))"

definition registry_get :: "capability_arg \<Rightarrow> string \<Rightarrow> ('p, 'p option) reg" where
  "registry_get cap name = bindM (registry_binding cap name) (\<lambda>b. returnM (bind_plugin b))"

definition registry_has :: "'p registry \<Rightarrow> capability_arg \<Rightarrow> string \<Rightarrow> bool" where
  "registry_has r cap name =
     (case reg_capability cap of
        Inl e \<Rightarrow> False
      | Inr c \<Rightarrow> (case reg_name name of Inl e \<Rightarrow> False | Inr n \<Rightarrow> (c, n) \<in> fst ` set (reg_plugins r)))"

definition registry_names :: "capability_arg \<Rightarrow> ('p, string list) reg" where
  "registry_names cap =
     bindM (liftE (reg_capability cap)) (\<lambda>c.
     getsM (\<lambda>r. sort (map snd (filter (\<lambda>k. fst k = c) (map fst (reg_plugins r))))))"

primrec bindings_of :: "(plugin_capability \<times> string) list \<Rightarrow> ('p, 'p plugin_binding list) reg" where
  "bindings_of [] = returnM []"
| "bindings_of (k # ks) =
     bindM (registry_binding (Member (fst k)) (snd k)) (\<lambda>b.
     bindM (bindings_of ks) (\<lambda>bs. returnM (b # bs)))"

definition registry_list :: "capability_arg option \<Rightarrow> ('p, 'p plugin_binding list) reg" where
  "registry_list cap =
     bindM (case cap of
              None \<Rightarrow> getsM (\<lambda>r. map fst (reg_plugins r))
            | Some a \<Rightarrow> bindM (liftE (reg_capability a)) (\<lambda>c.
                getsM (\<lambda>r. filter (\<lambda>k. fst k = c) (map fst (reg_plugins r))))) (\<lambda>ks.
     bindings_of (sort_key (\<lambda>k. (plugin_capability_value (fst k), snd k)) ks))"

definition default_name :: "capability_arg \<Rightarrow> ('p, string) reg" where
  "default_name cap =
     bindM (liftE (reg_capability cap)) (\<lambda>c.
     bindM (getsM (\<lambda>r. map_of (reg_defaults r) c)) (\<lambda>found.
     case found of None \<Rightarrow> raiseM PluginDefaultNotSetError | Some n \<Rightarrow> returnM n))"

definition get_default :: "capability_arg \<Rightarrow> ('p, 'p option) reg" where
  "get_default cap = bindM (default_name cap) (registry_get cap)"

definition set_default :: "capability_arg \<Rightarrow> string \<Rightarrow> ('p, unit) reg" where
  "set_default cap name =
     bindM (liftE (reg_capability cap)) (\<lambda>c.
     bindM (liftE (reg_name name)) (\<lambda>n.
     bindM (getsM (\<lambda>r. (c, n) \<in> fst ` set (reg_plugins r))) (\<lambda>known.
     if known then modifyM (\<lambda>r. r\<lparr>reg_defaults := AList.update c n (reg_defaults r)\<rparr>)
     else raiseM PluginNotFoundError)))"

section \<open>Coherence\<close>

definition maps_coherent :: "(plugin_capability \<times> string \<Rightarrow> 'p option option) \<Rightarrow> (plugin_capability \<Rightarrow> string option) \<Rightarrow> bool" where
  "maps_coherent P D \<longleftrightarrow> (\<forall>c n. D c = Some n \<longrightarrow> P (c, n) \<noteq> None)
     \<and> (\<forall>c n. P (c, n) \<noteq> None \<longrightarrow> D c \<noteq> None \<and> \<not> is_blank n)"

definition coherent :: "'p registry \<Rightarrow> bool" where
  "coherent r \<longleftrightarrow> distinct (map fst (reg_plugins r)) \<and> distinct (map fst (reg_defaults r))
     \<and> maps_coherent (map_of (reg_plugins r)) (map_of (reg_defaults r))"

lemma maps_coherent_register:
  "maps_coherent P D \<Longrightarrow> \<not> is_blank n \<Longrightarrow> D c \<noteq> None \<Longrightarrow> maps_coherent (P((c, n) \<mapsto> p)) D"
  "maps_coherent P D \<Longrightarrow> \<not> is_blank n \<Longrightarrow> D c = None \<Longrightarrow> maps_coherent (P((c, n) \<mapsto> p)) (D(c \<mapsto> n))"
  "maps_coherent P D \<Longrightarrow> P (c, n) \<noteq> None \<Longrightarrow> maps_coherent P (D(c \<mapsto> n))"
  unfolding maps_coherent_def by (auto, metis)

datatype 'p registry_op =
    Register capability_arg string "'p option"
  | Set_Default capability_arg string

definition perform_registry :: "'p registry_op \<Rightarrow> ('p, unit) reg" where
  "perform_registry oper =
     (case oper of
        Register cap name p \<Rightarrow> bindM (register cap name p) (\<lambda>_. returnM ())
      | Set_Default cap name \<Rightarrow> set_default cap name)"

definition registry_run :: "'p registry_op list \<Rightarrow> 'p registry \<Rightarrow> 'p registry" where
  "registry_run ops r = fold (\<lambda>oper r. snd (perform_registry oper r)) ops r"

lemma binding_keeps [simp]: "snd (registry_binding cap name r) = r"
  by (simp add: registry_binding_def exec split: sum.split option.split)

lemma register_state:
  "snd (register cap name p r) =
     (case (reg_capability cap, reg_name name) of
        (Inr c, Inr n) \<Rightarrow>
          (if (c, n) \<in> fst ` set (reg_plugins r) then r
           else r\<lparr>reg_plugins := AList.update (c, n) p (reg_plugins r),
                  reg_defaults := (if c \<in> fst ` set (reg_defaults r) then reg_defaults r
                                   else AList.update c n (reg_defaults r))\<rparr>)
      | _ \<Rightarrow> r)"
proof (cases "reg_capability cap"; cases "reg_name name")
  fix c n
  assume "reg_capability cap = Inr c" "reg_name name = Inr n"
  then show ?thesis
    using binding_keeps[of "Member c" n] by (simp add: register_def exec split: sum.split prod.split)
qed (simp_all add: register_def exec)

lemma set_default_state:
  "snd (set_default cap name r) =
     (case (reg_capability cap, reg_name name) of
        (Inr c, Inr n) \<Rightarrow>
          (if (c, n) \<in> fst ` set (reg_plugins r)
           then r\<lparr>reg_defaults := AList.update c n (reg_defaults r)\<rparr> else r)
      | _ \<Rightarrow> r)"
  by (cases "reg_capability cap"; cases "reg_name name") (simp_all add: set_default_def exec)

lemma reg_name_ok: "reg_name s = Inr n \<Longrightarrow> n = s \<and> \<not> is_blank n"
  by (auto simp: reg_name_def split: if_splits)

lemma map_of_None_keys: "map_of al k = None \<longleftrightarrow> k \<notin> fst ` set al"
  by (simp add: map_of_eq_None_iff)

lemma register_coherent:
  assumes "coherent r"
  shows "coherent (snd (register cap name p r))"
proof -
  have "coherent (r\<lparr>reg_plugins := AList.update (c, n) p (reg_plugins r),
                  reg_defaults := (if c \<in> fst ` set (reg_defaults r) then reg_defaults r
                                   else AList.update c n (reg_defaults r))\<rparr>)"
    if "\<not> is_blank n" for c n
    using assms that
    by (simp add: coherent_def distinct_update update_conv' maps_coherent_register map_of_None_keys)
  note step = this
  show ?thesis
  proof (cases "reg_capability cap"; cases "reg_name name")
    fix c n
    assume "reg_capability cap = Inr c" "reg_name name = Inr n"
    moreover from this have "\<not> is_blank n" by (auto dest: reg_name_ok)
    ultimately show ?thesis
      using assms step[of n c]
      by (cases "(c, n) \<in> fst ` set (reg_plugins r)") (simp_all only: register_state prod.case sum.case if_True if_False simp_thms)
  qed (simp_all add: register_state assms)
qed

lemma set_default_coherent:
  assumes "coherent r"
  shows "coherent (snd (set_default cap name r))"
proof -
  have "coherent (r\<lparr>reg_defaults := AList.update c n (reg_defaults r)\<rparr>)"
    if "(c, n) \<in> fst ` set (reg_plugins r)" for c n
    using assms that
    by (simp add: coherent_def distinct_update update_conv' maps_coherent_register map_of_None_keys)
  with assms show ?thesis by (auto simp: set_default_state split: sum.split)
qed

text \<open>Through any sequence of registrations and default changes, refused ones included, the
registry stays coherent, so a capability with an adapter always resolves its default to a
registered name, and a name once registered stays registered with the same adapter.\<close>

theorem registry_coherent:
  "coherent (registry_run ops (empty_registry :: 'a registry))"
proof -
  have "coherent r \<Longrightarrow> coherent (registry_run ops r)" for r :: "'a registry"
  proof (induction ops arbitrary: r)
    case (Cons oper ops)
    have "snd (perform_registry oper r) =
        (case oper of Register cap name p \<Rightarrow> snd (register cap name p r) | Set_Default cap name \<Rightarrow> snd (set_default cap name r))"
      by (cases oper) (simp_all add: perform_registry_def exec split: prod.split sum.split)
    with Cons show ?case
      by (cases oper) (simp_all add: registry_run_def register_coherent set_default_coherent)
  qed (simp add: registry_run_def)
  moreover have "coherent (empty_registry :: 'a registry)"
    by (simp add: coherent_def empty_registry_def maps_coherent_def)
  ultimately show ?thesis .
qed


end
