(* ===== verification/Http.thy ===== *)
theory Http
  imports Capabilities "HOL-Library.Sublist"
begin

text \<open>
  The provider-neutral primitives of \<open>infrastructure/_http.py\<close>: which statuses are retried, the
  request and response objects, the \<open>urllib\<close> transport as a function of what \<open>urlopen\<close> ends with,
  redaction and excerpts of provider text, prices, and the identities of findings and cost events.
  The SHA-1 digest is a parameter. The lemmas show what redaction promises: a key free of the
  characters the rewriting itself inserts does not occur in a redacted excerpt.
\<close>

section \<open>Constants and classification\<close>

definition DEFAULT_TIMEOUT_SECONDS :: rat where
  "DEFAULT_TIMEOUT_SECONDS = 30"

definition DEFAULT_MAX_RETRIES :: int where
  "DEFAULT_MAX_RETRIES = 2"

definition DEFAULT_BACKOFF_SCHEDULE :: "rat list" where
  "DEFAULT_BACKOFF_SCHEDULE = [0, 1, 2]"

definition HTTP_TOO_MANY_REQUESTS :: int where
  "HTTP_TOO_MANY_REQUESTS = 429"

definition HTTP_SERVER_ERROR :: int where
  "HTTP_SERVER_ERROR = 500"

definition BODY_EXCERPT_LIMIT :: nat where
  "BODY_EXCERPT_LIMIT = 300"

definition is_retryable_status :: "int \<Rightarrow> bool" where
  "is_retryable_status s \<longleftrightarrow> s = HTTP_TOO_MANY_REQUESTS \<or> HTTP_SERVER_ERROR \<le> s"

record transport_error =
  te_message :: string
  te_retryable :: bool
  te_timed_out :: bool

section \<open>Redaction and excerpts\<close>

text \<open>\<open>text.replace(old, new)\<close> for a non-empty \<open>old\<close>: the leftmost occurrences, not overlapping.\<close>

function replace_all :: "string \<Rightarrow> string \<Rightarrow> string \<Rightarrow> string" where
  "replace_all old new [] = []"
| "replace_all old new (c # cs) =
     (if prefix old (c # cs) then new @ replace_all old new (drop (length old - 1) cs)
      else c # replace_all old new cs)"
  by pat_completeness auto
termination by (relation "measure (\<lambda>(old, new, s). length s)") auto

definition redact :: "string \<Rightarrow> string option \<Rightarrow> string" where
  "redact t secret =
     (if t = [] then t
      else case secret of None \<Rightarrow> t | Some k \<Rightarrow> if k = [] then t else replace_all k ''***'' t)"

text \<open>\<open>text.split()\<close>: the maximal runs of characters that are not white space.\<close>

function split_words :: "string \<Rightarrow> string list" where
  "split_words s =
     (case dropWhile is_space s of
        [] \<Rightarrow> []
      | c # cs \<Rightarrow> (c # takeWhile (\<lambda>x. \<not> is_space x) cs) # split_words (dropWhile (\<lambda>x. \<not> is_space x) cs))"
  by pat_completeness auto
termination
proof (relation "measure length", goal_cases)
  case (2 s c cs)
  then have "length (c # cs) \<le> length s" by (metis length_dropWhile_le)
  then show ?case using length_dropWhile_le[of "\<lambda>x. \<not> is_space x" cs] by (simp add: less_le_trans le_less_trans)
qed simp

declare split_words.simps [simp del]

definition excerpt :: "string \<Rightarrow> nat \<Rightarrow> string" where
  "excerpt t limit =
     (let flat = join '' '' (split_words t) in
      if length flat \<le> limit then flat else take limit flat @ ''...'')"

section \<open>Requests, responses, the default transport\<close>

record http_request =
  rq_url :: string
  rq_body :: string
  rq_headers :: "(string \<times> string) list"
  rq_method :: string
  rq_timeout :: rat

definition mk_http_request :: "http_request \<Rightarrow> exn + http_request" where
  "mk_http_request r =
     bindE (requireE (\<not> is_blank (rq_url r)) ValueError) (\<lambda>_.
     bindE (requireE (\<not> is_blank (rq_method r)) ValueError) (\<lambda>_.
     bindE (requireE (0 < rq_timeout r) ValueError) (\<lambda>_. Inr r)))"

text \<open>The body is its text, undecodable bytes replaced.\<close>

record http_response =
  rs_status :: int
  rs_text :: string

text \<open>What \<open>urllib.request.urlopen\<close> ends with: an answer, an HTTP error status with its body (none
when it cannot be read), a socket time-out, a \<open>URLError\<close> with the type name of its reason, or
another \<open>OSError\<close> with its type name.\<close>

datatype urlopen_outcome =
    Opened int string
  | HTTPError int "string option"
  | SocketTimeout
  | URLError string bool
  | OtherOSError string

definition urllib_transport :: "(http_request \<Rightarrow> urlopen_outcome) \<Rightarrow> (rat \<Rightarrow> string) \<Rightarrow> http_request \<Rightarrow> transport_error + http_response" where
  "urllib_transport urlopen number_text r =
     (case urlopen r of
        Opened s body \<Rightarrow> Inr \<lparr>rs_status = s, rs_text = body\<rparr>
      | HTTPError s body \<Rightarrow> Inr \<lparr>rs_status = s, rs_text = (case body of None \<Rightarrow> [] | Some b \<Rightarrow> b)\<rparr>
      | SocketTimeout \<Rightarrow>
          Inl \<lparr>te_message = ''request timed out after '' @ number_text (rq_timeout r) @ ''s'',
               te_retryable = True, te_timed_out = True\<rparr>
      | URLError reason timed_out \<Rightarrow>
          Inl \<lparr>te_message = ''transport failure: '' @ reason, te_retryable = True, te_timed_out = timed_out\<rparr>
      | OtherOSError name \<Rightarrow>
          Inl \<lparr>te_message = ''transport failure: '' @ name, te_retryable = True, te_timed_out = False\<rparr>)"

section \<open>Prices and identities\<close>

text \<open>\<open>float(i)\<close> of an \<open>int\<close>: raises \<open>OverflowError\<close> from the midpoint between the largest double
and \<open>2 ^ 1024\<close> on; otherwise the exact value stands for the rounded one.\<close>

definition FLOAT_LIMIT :: int where
  "FLOAT_LIMIT = 2 ^ 1024 - 2 ^ 970"

definition float_of_int :: "int \<Rightarrow> exn + rat" where
  "float_of_int i = (if FLOAT_LIMIT \<le> \<bar>i\<bar> then Inl OverflowError else Inr (of_int i))"

record model_price =
  prompt_per_1k :: rat
  completion_per_1k :: rat

definition mk_model_price :: "model_price \<Rightarrow> exn + model_price" where
  "mk_model_price p =
     bindE (requireE (0 \<le> prompt_per_1k p) ValueError) (\<lambda>_.
     bindE (requireE (0 \<le> completion_per_1k p) ValueError) (\<lambda>_. Inr p))"

definition price_cost :: "model_price \<Rightarrow> int \<Rightarrow> int \<Rightarrow> exn + rat" where
  "price_cost p input out =
     bindE (float_of_int input) (\<lambda>i. bindE (float_of_int out) (\<lambda>ou.
     Inr (round6 (i / 1000 * prompt_per_1k p + ou / 1000 * completion_per_1k p))))"

definition UNKNOWN_PRICE :: model_price where
  "UNKNOWN_PRICE = \<lparr>prompt_per_1k = 0, completion_per_1k = 0\<rparr>"

definition cost_event_id :: "string \<Rightarrow> mapping \<Rightarrow> exn + string" where
  "cost_event_id provider envelope =
     (case map_of envelope ''id'' of
        Some (JStr i) \<Rightarrow> if is_blank i then Inl CostIdentityUnavailableError else Inr (provider @ '':'' @ strip i)
      | _ \<Rightarrow> Inl CostIdentityUnavailableError)"

definition provider_finding_id ::
    "(string \<Rightarrow> string) \<Rightarrow> string \<Rightarrow> string \<Rightarrow> int option \<Rightarrow> string \<Rightarrow> string list \<Rightarrow> string" where
  "provider_finding_id sha1_hex provider model no claim evidence =
     (let parts = [provider, model, (case no of None \<Rightarrow> [] | Some n \<Rightarrow> show_int n), claim] @ evidence;
          digest = take 12 (sha1_hex (join ''|'' parts))
      in ''finding-'' @ provider @ ''-'' @ show_int (case no of None \<Rightarrow> 0 | Some n \<Rightarrow> n) @ ''-'' @ digest)"

definition require_number :: "rat \<Rightarrow> rat \<Rightarrow> exn + unit" where
  "require_number x minimum = requireE (minimum \<le> x) ValueError"

definition require_min_int :: "int \<Rightarrow> int \<Rightarrow> exn + unit" where
  "require_min_int n minimum = requireE (minimum \<le> n) ValueError"

section \<open>What redaction promises\<close>

lemma prefix_replace:
  "k \<noteq> [] \<Longrightarrow> CHR ''*'' \<notin> set p \<Longrightarrow> prefix p (replace_all k ''***'' s) \<Longrightarrow> prefix p s"
proof (induction k "''***''" s arbitrary: p rule: replace_all.induct)
  case (2 k c cs)
  show ?case
  proof (cases p)
    case (Cons x xs)
    show ?thesis
    proof (cases "prefix k (c # cs)")
      case True
      then show ?thesis using 2 Cons by auto
    next
      case False
      then show ?thesis using 2 Cons by auto
    qed
  qed simp
qed simp

lemma replaced_away:
  "k \<noteq> [] \<Longrightarrow> CHR ''*'' \<notin> set k \<Longrightarrow> \<not> sublist k (replace_all k ''***'' s)"
proof (induction k "''***''" s rule: replace_all.induct)
  case (2 k c cs)
  show ?case
  proof (cases "prefix k (c # cs)")
    case True
    obtain x xs where k: "k = x # xs" using 2(3) by (cases k) auto
    then have "x \<noteq> CHR ''*''" using 2(4) by auto
    then show ?thesis using True 2 k by (simp add: sublist_Cons_right)
  next
    case False
    then have "\<not> sublist k (replace_all k ''***'' cs)" using 2 by simp
    moreover have "\<not> prefix k (c # replace_all k ''***'' cs)"
      using prefix_replace[of k k "c # cs"] False 2(3,4) by auto
    ultimately show ?thesis using False by (simp add: sublist_Cons_right)
  qed
qed simp

lemma redacted: "k \<noteq> [] \<Longrightarrow> CHR ''*'' \<notin> set k \<Longrightarrow> \<not> sublist k (redact t (Some k))"
  by (simp add: redact_def replaced_away)

lemma split_words_sublist: "w \<in> set (split_words s) \<Longrightarrow> sublist w s"
proof (induction s rule: split_words.induct)
  case (1 s)
  show ?case
  proof (cases "dropWhile is_space s")
    case Nil
    then have "split_words s = []" by (subst split_words.simps) (simp only: list.case)
    then show ?thesis using 1(2) by simp
  next
    case (Cons c cs)
    let ?w = "c # takeWhile (\<lambda>x. \<not> is_space x) cs" and ?rest = "dropWhile (\<lambda>x. \<not> is_space x) cs"
    have tail: "sublist (c # cs) s" using Cons sublist_dropWhile by metis
    have "split_words s = ?w # split_words ?rest" by (subst split_words.simps) (simp add: Cons)
    then have "w = ?w \<or> w \<in> set (split_words ?rest)" using 1(2) by simp
    moreover have "sublist ?w (c # cs)"
      by (metis append_Cons prefixI prefix_imp_sublist takeWhile_dropWhile_id)
    moreover have "sublist w (c # cs)" if "w \<in> set (split_words ?rest)"
    proof -
      have "sublist w ?rest" using 1(1)[OF Cons that] .
      also have "sublist ?rest (c # cs)"
        by (metis sublist_Cons_right sublist_dropWhile)
      finally show ?thesis .
    qed
    ultimately show ?thesis using tail sublist_order.order_trans by blast
  qed
qed

lemma sublist_append_disjoint:
  assumes "k \<noteq> []" "set k \<inter> set b = {}" "sublist k (a @ b)"
  shows "sublist k a"
proof -
  have "sublist k a \<or> sublist k b \<or> (\<exists>k1 k2. k = k1 @ k2 \<and> suffix k1 a \<and> prefix k2 b)"
    using assms(3) by (simp add: sublist_append)
  then show ?thesis
  proof (elim disjE exE conjE)
    assume "sublist k b"
    then have "set k \<subseteq> set b" by (rule set_mono_sublist)
    then show ?thesis using assms(1,2) by (metis Int_absorb2 set_empty)
  next
    fix k1 k2
    assume k: "k = k1 @ k2" "suffix k1 a" "prefix k2 b"
    then have "set k2 \<subseteq> set k \<inter> set b" by (auto dest: set_mono_prefix)
    then have "k2 = []" using assms(2) by simp
    then show ?thesis using k by simp
  qed
qed

lemma sublist_join:
  assumes "k \<noteq> []" "CHR '' '' \<notin> set k" "sublist k (join '' '' ws)"
  shows "\<exists>w\<in>set ws. sublist k w"
  using assms(3)
proof (induction "'' ''" ws rule: join.induct)
  case (3 x y xs)
  let ?rest = "join '' '' (y # xs)"
  have "sublist k (x @ '' '' @ ?rest)" using 3(2) by simp
  then have "sublist k x \<or> sublist k ('' '' @ ?rest) \<or> (\<exists>k1 k2. k = k1 @ k2 \<and> suffix k1 x \<and> prefix k2 ('' '' @ ?rest))"
    by (simp only: sublist_append)
  then show ?case
  proof (elim disjE exE conjE)
    assume "sublist k ('' '' @ ?rest)"
    then have "sublist k ?rest"
      using assms(1,2) by (cases k) (auto simp: sublist_Cons_right)
    then show ?thesis using 3(1) by auto
  next
    fix k1 k2
    assume k: "k = k1 @ k2" "suffix k1 x" "prefix k2 ('' '' @ ?rest)"
    then have "k2 = []" using assms(2) by (cases k2) auto
    then show ?thesis using k by auto
  qed auto
qed (use assms(1) in auto)

text \<open>A key with no \<open>*\<close>, no dot and no white space: what the rewriting inserts.\<close>

definition plain_key :: "string \<Rightarrow> bool" where
  "plain_key k \<longleftrightarrow> k \<noteq> [] \<and> CHR ''*'' \<notin> set k \<and> CHR ''.'' \<notin> set k \<and> (\<forall>c\<in>set k. \<not> is_space c)"

lemma excerpt_sublist:
  assumes "plain_key k" "sublist k (excerpt t n)"
  shows "sublist k t"
proof -
  have ne: "k \<noteq> []" and sp: "CHR '' '' \<notin> set k" and dot: "set k \<inter> set ''...'' = {}"
    using assms(1) by (auto simp: plain_key_def is_space_def)
  let ?flat = "join '' '' (split_words t)"
  have "sublist k ?flat"
  proof (cases "length ?flat \<le> n")
    case True
    then show ?thesis using assms(2) by (simp add: excerpt_def)
  next
    case False
    then have "sublist k (take n ?flat @ ''...'')" using assms(2) by (simp add: excerpt_def Let_def)
    then have "sublist k (take n ?flat)" by (rule sublist_append_disjoint[OF ne dot])
    then show ?thesis using sublist_take sublist_order.order_trans by blast
  qed
  then obtain w where "w \<in> set (split_words t)" "sublist k w" using sublist_join[OF ne sp] by blast
  then show ?thesis using split_words_sublist sublist_order.order_trans by blast
qed

lemma excerpt_redacted: "plain_key k \<Longrightarrow> \<not> sublist k (excerpt (redact t (Some k)) n)"
  using excerpt_sublist redacted unfolding plain_key_def by blast

lemma round6_zero [simp]: "round6 0 = 0"
  by (simp add: round6_def round_half_even_def)

lemma price_cost_nonneg:
  assumes "mk_model_price p = Inr p'" "price_cost p i ou = Inr c" "0 \<le> i" "0 \<le> ou"
  shows "0 \<le> c"
  using assms
  by (auto simp: price_cost_def mk_model_price_def float_of_int_def intro!: round6_nonneg add_nonneg_nonneg
      mult_nonneg_nonneg divide_nonneg_nonneg split: if_splits)

end
