(* ===== verification/Advisor.thy ===== *)
theory Advisor
  imports Http
begin

text \<open>
  The advisor adapters (\<open>infrastructure/claude.py\<close>, \<open>grok.py\<close>, \<open>openai.py\<close>). The three modules are
  one text up to the provider's facts, which a \<open>profile\<close> holds: names, URL, environment variables,
  prompt, request shape, where the answer and the token counts stand in the response. What an adapter
  is given from outside (transport, sleep, clock, cost sink, telemetry hook, environment, JSON text
  and SHA-1) is a record of functions over an outside state.

  A failure is a value with the provider text its message quotes; the fixed phrase around it is not
  repeated. \<open>Escaped_Error\<close> is a Python exception of no adapter class.
\<close>

section \<open>Failures and computations\<close>

datatype advisor_error =
    Advisor_Error
  | Missing_Api_Key
  | Advisor_Transport string
  | Advisor_Timeout
  | Advisor_Rate_Limit int string
  | Advisor_Http int string
  | Advisor_Invalid_Response string
  | Advisor_Abstain string
  | Escaped_Error exn

record 'e adapter_state =
  outside :: 'e
  last_telemetry_error :: "exn option"

type_synonym ('e, 'a) ad = "'e adapter_state \<Rightarrow> (advisor_error + 'a) \<times> 'e adapter_state"

definition returnA :: "'a \<Rightarrow> ('e, 'a) ad" where
  "returnA a = (\<lambda>s. (Inr a, s))"

definition liftA :: "advisor_error + 'a \<Rightarrow> ('e, 'a) ad" where
  "liftA r = (\<lambda>s. (r, s))"

definition bindA :: "('e, 'a) ad \<Rightarrow> ('a \<Rightarrow> ('e, 'b) ad) \<Rightarrow> ('e, 'b) ad" where
  "bindA m f = (\<lambda>s. case m s of (r, s') \<Rightarrow> (case r of Inl e \<Rightarrow> (Inl e, s') | Inr a \<Rightarrow> f a s'))"

fun bindF :: "advisor_error + 'a \<Rightarrow> ('a \<Rightarrow> advisor_error + 'b) \<Rightarrow> advisor_error + 'b" where
  "bindF (Inl e) f = Inl e"
| "bindF (Inr a) f = f a"

definition escape :: "exn + 'a \<Rightarrow> advisor_error + 'a" where
  "escape r = (case r of Inl e \<Rightarrow> Inl (Escaped_Error e) | Inr a \<Rightarrow> Inr a)"

lemma bindA_run: "bindA m f s = (case m s of (r, s') \<Rightarrow> (case r of Inl e \<Rightarrow> (Inl e, s') | Inr a \<Rightarrow> f a s'))"
  by (simp add: bindA_def)

lemma liftA_run: "liftA r s = (r, s)"
  by (simp add: liftA_def)

lemma returnA_run: "returnA a s = (Inr a, s)"
  by (simp add: returnA_def)

lemmas ad_run = bindA_run liftA_run returnA_run

lemma bindF_Inr_iff [simp]: "bindF m f = Inr b \<longleftrightarrow> (\<exists>a. m = Inr a \<and> f a = Inr b)"
  by (cases m) auto

record 'e seams =
  sm_transport :: "http_request \<Rightarrow> 'e \<Rightarrow> (transport_error + http_response) \<times> 'e"
  sm_sleep :: "rat \<Rightarrow> 'e \<Rightarrow> 'e"
  sm_clock :: "'e \<Rightarrow> datetime \<times> 'e"
  sm_cost_sink :: "(cost_record \<Rightarrow> 'e \<Rightarrow> (exn + unit) \<times> 'e) option"
  sm_telemetry_hook :: "(exn \<Rightarrow> 'e \<Rightarrow> 'e) option"
  sm_environ :: "string \<Rightarrow> string option"
  sm_sha1_hex :: "string \<Rightarrow> string"
  sm_loads :: "string \<Rightarrow> json option"
  sm_canonical :: "json \<Rightarrow> string"
  sm_dumps :: "json \<Rightarrow> string"
  sm_str :: "json \<Rightarrow> string"

section \<open>Profiles and construction\<close>

record profile =
  pf_provider :: string
  pf_default_model :: string
  pf_model_env :: "string option"
  pf_role :: string
  pf_url :: string
  pf_key_env :: string
  pf_api_version :: string
  pf_max_output :: int
  pf_auth :: "string \<Rightarrow> string \<Rightarrow> (string \<times> string) list"
  pf_system_prompt :: "string \<Rightarrow> string"
  pf_question :: string
  pf_body :: "string \<Rightarrow> string \<Rightarrow> string \<Rightarrow> int \<Rightarrow> json"
  pf_content :: "(json \<Rightarrow> string) \<Rightarrow> string \<Rightarrow> mapping \<Rightarrow> advisor_error + string"
  pf_usage_keys :: "string \<times> string"

record advisor_args =
  aa_api_key :: "string option"
  aa_url :: string
  aa_model :: "string option"
  aa_role :: string
  aa_api_version :: string
  aa_timeout :: rat
  aa_max_retries :: int
  aa_backoff :: "rat list"
  aa_max_output :: int
  aa_pricing :: "(string \<times> model_price) list"
  aa_project :: "string option"

definition default_args :: "profile \<Rightarrow> advisor_args" where
  "default_args pf =
     \<lparr>aa_api_key = None, aa_url = pf_url pf, aa_model = None, aa_role = pf_role pf,
      aa_api_version = pf_api_version pf, aa_timeout = DEFAULT_TIMEOUT_SECONDS,
      aa_max_retries = DEFAULT_MAX_RETRIES, aa_backoff = DEFAULT_BACKOFF_SCHEDULE,
      aa_max_output = pf_max_output pf, aa_pricing = [], aa_project = None\<rparr>"

record advisor =
  ad_profile :: profile
  ad_api_key :: "string option"
  ad_url :: string
  ad_model :: string
  ad_role :: string
  ad_api_version :: string
  ad_timeout :: rat
  ad_max_retries :: int
  ad_backoff :: "rat list"
  ad_max_output :: int
  ad_pricing :: "(string \<times> model_price) list"
  ad_project :: "string option"

text \<open>Explicit model, else environment, else the documented default; the OpenAI adapter has no
environment variable and takes an explicit model as it is.\<close>

definition resolve_model :: "profile \<Rightarrow> (string \<Rightarrow> string option) \<Rightarrow> string option \<Rightarrow> string" where
  "resolve_model pf environ model =
     (case pf_model_env pf of
        None \<Rightarrow> (case model of None \<Rightarrow> pf_default_model pf | Some m \<Rightarrow> m)
      | Some var \<Rightarrow>
          (let from_env = (case environ var of None \<Rightarrow> [] | Some v \<Rightarrow> v);
               fallback = (if is_blank from_env then pf_default_model pf else strip from_env) in
           case model of None \<Rightarrow> fallback | Some m \<Rightarrow> if is_blank m then fallback else strip m))"

definition mk_advisor :: "profile \<Rightarrow> (string \<Rightarrow> string option) \<Rightarrow> advisor_args \<Rightarrow> exn + advisor" where
  "mk_advisor pf environ a =
     (let model = resolve_model pf environ (aa_model a) in
      bindE (cap_text (aa_url a)) (\<lambda>_.
      bindE (cap_text model) (\<lambda>_.
      bindE (cap_text (aa_role a)) (\<lambda>_.
      bindE (requireE (pf_api_version pf = [] \<or> \<not> is_blank (aa_api_version a)) ValueError) (\<lambda>_.
      bindE (require_number (aa_timeout a) (1 / 1000000)) (\<lambda>_.
      bindE (require_min_int (aa_max_retries a) 0) (\<lambda>_.
      bindE (mapE (\<lambda>d. require_number d 0) (aa_backoff a)) (\<lambda>_.
      bindE (requireE (aa_backoff a \<noteq> []) ValueError) (\<lambda>_.
      bindE (require_min_int (aa_max_output a) 1) (\<lambda>_.
      bindE (cap_optional_text (aa_project a)) (\<lambda>_.
      Inr \<lparr>ad_profile = pf,
        ad_api_key = (case aa_api_key a of None \<Rightarrow> None | Some k \<Rightarrow> if is_blank k then None else Some k),
        ad_url = aa_url a, ad_model = model, ad_role = aa_role a, ad_api_version = aa_api_version a,
        ad_timeout = aa_timeout a, ad_max_retries = aa_max_retries a, ad_backoff = aa_backoff a,
        ad_max_output = aa_max_output a, ad_pricing = aa_pricing a, ad_project = aa_project a\<rparr>)))))))))))"

definition environ_text :: "'e seams \<Rightarrow> string \<Rightarrow> string" where
  "environ_text sm var = (case sm_environ sm var of None \<Rightarrow> [] | Some v \<Rightarrow> v)"

definition is_configured :: "'e seams \<Rightarrow> advisor \<Rightarrow> bool" where
  "is_configured sm ad \<longleftrightarrow> ad_api_key ad \<noteq> None \<or> \<not> is_blank (environ_text sm (pf_key_env (ad_profile ad)))"

definition resolve_api_key :: "'e seams \<Rightarrow> advisor \<Rightarrow> advisor_error + string" where
  "resolve_api_key sm ad =
     (case ad_api_key ad of
        Some k \<Rightarrow> Inr k
      | None \<Rightarrow> (let v = environ_text sm (pf_key_env (ad_profile ad)) in
                if is_blank v then Inl Missing_Api_Key else Inr v))"

section \<open>The request\<close>

definition newline :: string where
  "newline = [CHR 0x0A]"

definition user_prompt :: "'e seams \<Rightarrow> advisor \<Rightarrow> advisor_query \<Rightarrow> string" where
  "user_prompt sm ad q =
     pf_question (ad_profile ad) @ newline @ query_question q @ newline
     @ ''Step: '' @ (case query_step_no q of None \<Rightarrow> ''unknown'' | Some n \<Rightarrow> show_int n) @ newline
     @ ''Context (json):'' @ newline @ sm_canonical sm (JObj (query_context q))"

definition build_payload :: "'e seams \<Rightarrow> advisor \<Rightarrow> advisor_query \<Rightarrow> string" where
  "build_payload sm ad q =
     sm_canonical sm (pf_body (ad_profile ad) (ad_model ad) (pf_system_prompt (ad_profile ad) (ad_role ad))
       (user_prompt sm ad q) (ad_max_output ad))"

definition advisor_request :: "advisor \<Rightarrow> string \<Rightarrow> string \<Rightarrow> http_request" where
  "advisor_request ad payload key =
     \<lparr>rq_url = ad_url ad, rq_body = payload,
      rq_headers = pf_auth (ad_profile ad) key (ad_api_version ad)
        @ [(''Content-Type'', ''application/json''), (''Accept'', ''application/json'')],
      rq_method = ''POST'', rq_timeout = ad_timeout ad\<rparr>"

section \<open>Transport and retry\<close>

definition delay_for :: "rat list \<Rightarrow> nat \<Rightarrow> rat" where
  "delay_for schedule attempt = schedule ! min attempt (length schedule - 1)"

definition status_detail :: "http_response \<Rightarrow> string \<Rightarrow> string" where
  "status_detail r key = excerpt (redact (rs_text r) (Some key)) BODY_EXCERPT_LIMIT"

text \<open>What one attempt comes to: an answer, a failure raised at once, or one that is retried.\<close>

datatype attempt = Answer http_response | Permanent advisor_error | Retry advisor_error

definition judge_attempt :: "string \<Rightarrow> transport_error + http_response \<Rightarrow> attempt" where
  "judge_attempt key res =
     (case res of
        Inl e \<Rightarrow>
          if \<not> te_retryable e then Permanent (Advisor_Transport (redact (te_message e) (Some key)))
          else if te_timed_out e then Retry Advisor_Timeout
          else Retry (Advisor_Transport (redact (te_message e) (Some key)))
      | Inr r \<Rightarrow>
          let s = rs_status r in
          if 200 \<le> s \<and> s < 300 then Answer r
          else if \<not> is_retryable_status s then Permanent (Advisor_Http s (status_detail r key))
          else if s = HTTP_TOO_MANY_REQUESTS then Retry (Advisor_Rate_Limit s (status_detail r key))
          else Retry (Advisor_Http s (status_detail r key)))"

primrec post_from ::
    "'e seams \<Rightarrow> rat list \<Rightarrow> string \<Rightarrow> http_request \<Rightarrow> nat \<Rightarrow> nat \<Rightarrow> advisor_error option \<Rightarrow> ('e, http_response) ad" where
  "post_from sm schedule key rq 0 i failure =
     liftA (Inl (case failure of None \<Rightarrow> Advisor_Error | Some f \<Rightarrow> f))"
| "post_from sm schedule key rq (Suc left) i failure = (\<lambda>s.
     case sm_transport sm rq (outside s) of (res, e) \<Rightarrow>
       (case judge_attempt key res of
          Answer r \<Rightarrow> (Inr r, s\<lparr>outside := e\<rparr>)
        | Permanent f \<Rightarrow> (Inl f, s\<lparr>outside := e\<rparr>)
        | Retry f \<Rightarrow>
            post_from sm schedule key rq left (Suc i) (Some f)
              (s\<lparr>outside := if left = 0 then e else sm_sleep sm (delay_for schedule i) e\<rparr>)))"

definition post :: "'e seams \<Rightarrow> advisor \<Rightarrow> string \<Rightarrow> string \<Rightarrow> ('e, http_response) ad" where
  "post sm ad payload key =
     bindA (liftA (escape (mk_http_request (advisor_request ad payload key)))) (\<lambda>rq.
     post_from sm (ad_backoff ad) key rq (nat (ad_max_retries ad + 1)) 0 None)"

section \<open>Reading the answer\<close>

definition parse_envelope :: "'e seams \<Rightarrow> string \<Rightarrow> http_response \<Rightarrow> advisor_error + mapping" where
  "parse_envelope sm key r =
     (case sm_loads sm (rs_text r) of
        None \<Rightarrow> Inl (Advisor_Invalid_Response (excerpt (redact (rs_text r) (Some key)) BODY_EXCERPT_LIMIT))
      | Some (JObj m) \<Rightarrow> Inr m
      | Some _ \<Rightarrow> Inl (Advisor_Invalid_Response []))"

definition parse_contract :: "'e seams \<Rightarrow> string \<Rightarrow> string \<Rightarrow> advisor_error + mapping" where
  "parse_contract sm key content =
     (let t = strip content in
      case sm_loads sm t of
        None \<Rightarrow> Inl (Advisor_Invalid_Response (excerpt (redact t (Some key)) BODY_EXCERPT_LIMIT))
      | Some (JObj m) \<Rightarrow> Inr m
      | Some _ \<Rightarrow> Inl (Advisor_Invalid_Response []))"

text \<open>\<open>str.upper\<close> on code points below 256 (the two letters whose capital lies above stay).\<close>

definition upper_char :: "char \<Rightarrow> string" where
  "upper_char c = (let n = of_char c :: nat in
     if n = 223 then ''SS''
     else if (97 \<le> n \<and> n \<le> 122) \<or> (224 \<le> n \<and> n \<le> 254 \<and> n \<noteq> 247) then [char_of (n - 32)] else [c])"

definition upper :: "string \<Rightarrow> string" where
  "upper s = concat (map upper_char s)"

definition json_field :: "string \<Rightarrow> mapping \<Rightarrow> json" where
  "json_field k m = (case map_of m k of None \<Rightarrow> JNull | Some v \<Rightarrow> v)"

definition ABSTAIN_REASON_FALLBACK :: string where
  "ABSTAIN_REASON_FALLBACK = ''the model abstained without stating a reason''"

definition status_of :: "'e seams \<Rightarrow> mapping \<Rightarrow> advisor_error + string" where
  "status_of sm m =
     (let raw = json_field ''status'' m;
          token = (case raw of JStr s \<Rightarrow> upper (strip s) | _ \<Rightarrow> [])
      in if token = ''OK'' \<or> token = ''ABSTAIN'' then Inr token
         else Inl (Advisor_Invalid_Response
                (excerpt (case raw of JStr s \<Rightarrow> s | _ \<Rightarrow> sm_str sm raw) 40)))"

definition abstain_reason :: "mapping \<Rightarrow> string" where
  "abstain_reason m =
     (case json_field ''reason'' m of
        JStr s \<Rightarrow> if is_blank s then ABSTAIN_REASON_FALLBACK else strip s
      | _ \<Rightarrow> ABSTAIN_REASON_FALLBACK)"

definition claim_of :: "mapping \<Rightarrow> advisor_error + string" where
  "claim_of m =
     (case json_field ''claim'' m of
        JStr s \<Rightarrow> if is_blank s then Inl (Advisor_Invalid_Response []) else Inr (strip s)
      | _ \<Rightarrow> Inl (Advisor_Invalid_Response []))"

primrec evidence_entries :: "json list \<Rightarrow> advisor_error + string list" where
  "evidence_entries [] = Inr []"
| "evidence_entries (x # xs) =
     (case x of
        JStr s \<Rightarrow> if is_blank s then Inl (Advisor_Invalid_Response [])
                  else bindF (evidence_entries xs) (\<lambda>ys. Inr (strip s # ys))
      | _ \<Rightarrow> Inl (Advisor_Invalid_Response []))"

definition evidence_of :: "mapping \<Rightarrow> advisor_error + string list" where
  "evidence_of m =
     (case json_field ''evidence'' m of
        JList xs \<Rightarrow> bindF (evidence_entries xs) (\<lambda>ys. if ys = [] then Inl (Advisor_Invalid_Response []) else Inr ys)
      | _ \<Rightarrow> Inl (Advisor_Invalid_Response []))"

definition confidence_of :: "mapping \<Rightarrow> advisor_error + rat" where
  "confidence_of m =
     bindF (case json_field ''confidence'' m of
              JInt i \<Rightarrow> escape (float_of_int i)
            | JReal x \<Rightarrow> Inr x
            | _ \<Rightarrow> Inl (Advisor_Invalid_Response [])) (\<lambda>x.
     if 0 \<le> x \<and> x \<le> 1 then Inr x else Inl (Advisor_Invalid_Response []))"

definition severity_of :: "'e seams \<Rightarrow> mapping \<Rightarrow> advisor_error + severity" where
  "severity_of sm m =
     (let raw = json_field ''severity'' m;
          quoted = Inl (Advisor_Invalid_Response (excerpt (case raw of JStr s \<Rightarrow> s | _ \<Rightarrow> sm_str sm raw) 40)) in
      case raw of
        JStr s \<Rightarrow> (case coerce_enum severity_members severity_value (upper (strip s)) of
                    Inl e \<Rightarrow> quoted | Inr v \<Rightarrow> Inr v)
      | _ \<Rightarrow> quoted)"

definition clockA :: "'e seams \<Rightarrow> ('e, datetime) ad" where
  "clockA sm = (\<lambda>s. case sm_clock sm (outside s) of (t, e) \<Rightarrow> (Inr t, s\<lparr>outside := e\<rparr>))"

definition build_finding :: "'e seams \<Rightarrow> advisor \<Rightarrow> mapping \<Rightarrow> advisor_query \<Rightarrow> ('e, finding) ad" where
  "build_finding sm ad m q =
     bindA (liftA (status_of sm m)) (\<lambda>status.
     if status = ''ABSTAIN'' then liftA (Inl (Advisor_Abstain (abstain_reason m)))
     else
       bindA (liftA (claim_of m)) (\<lambda>claim.
       bindA (liftA (evidence_of m)) (\<lambda>evidence.
       bindA (liftA (confidence_of m)) (\<lambda>confidence.
       bindA (liftA (severity_of sm m)) (\<lambda>sev.
       bindA (clockA sm) (\<lambda>now.
       liftA (escape (mk_finding
         \<lparr>finding_id = provider_finding_id (sm_sha1_hex sm) (pf_provider (ad_profile ad)) (ad_model ad)
            (query_step_no q) claim evidence,
          finding_source = pf_provider (ad_profile ad), finding_claim = claim, finding_evidence = evidence,
          finding_confidence = confidence, finding_severity = sev, finding_step_no = query_step_no q,
          finding_created_at = now\<rparr>))))))))"

section \<open>Cost telemetry\<close>

definition token_count :: "json \<Rightarrow> int option" where
  "token_count v = (case v of JInt i \<Rightarrow> if i < 0 then None else Some i | _ \<Rightarrow> None)"

definition usage_of :: "profile \<Rightarrow> mapping \<Rightarrow> (int \<times> int) option" where
  "usage_of pf envelope =
     (case json_field ''usage'' envelope of
        JObj u \<Rightarrow>
          (case token_count (json_field (fst (pf_usage_keys pf)) u) of
             None \<Rightarrow> None
           | Some i \<Rightarrow> map_option (Pair i) (token_count (json_field (snd (pf_usage_keys pf)) u)))
      | _ \<Rightarrow> None)"

definition price_for :: "(string \<times> model_price) list \<Rightarrow> string \<Rightarrow> model_price" where
  "price_for pricing model = (case map_of pricing model of None \<Rightarrow> UNKNOWN_PRICE | Some p \<Rightarrow> p)"

definition notify_telemetry_error :: "'e seams \<Rightarrow> exn \<Rightarrow> ('e, unit) ad" where
  "notify_telemetry_error sm e = (\<lambda>s.
     (Inr (), case sm_telemetry_hook sm of None \<Rightarrow> s | Some hook \<Rightarrow> s\<lparr>outside := hook e (outside s)\<rparr>))"

text \<open>The body of the \<open>try\<close>: the record is built (identity, price, clock, validation) and handed over.\<close>

definition try_record ::
    "'e seams \<Rightarrow> string \<Rightarrow> string \<Rightarrow> (string \<times> model_price) list \<Rightarrow> string option \<Rightarrow> int option
     \<Rightarrow> (cost_record \<Rightarrow> 'e \<Rightarrow> (exn + unit) \<times> 'e) \<Rightarrow> mapping \<Rightarrow> int \<times> int \<Rightarrow> 'e \<Rightarrow> (exn + unit) \<times> 'e" where
  "try_record sm provider model pricing project no sink envelope tokens e =
     (case bindE (cost_event_id provider envelope) (\<lambda>event.
           bindE (price_cost (price_for pricing model) (fst tokens) (snd tokens)) (\<lambda>usd. Inr (event, usd))) of
        Inl x \<Rightarrow> (Inl x, e)
      | Inr (event, usd) \<Rightarrow>
          (case sm_clock sm e of (now, e') \<Rightarrow>
             (case mk_cost_record
                     \<lparr>cost_provider = provider, cost_event_id = event, cost_model = model,
                      cost_input_tokens = fst tokens, cost_output_tokens = snd tokens, cost_usd = usd,
                      cost_pricing_known = (map_of pricing model \<noteq> None), cost_project = project,
                      cost_step_no = no, cost_created_at = now\<rparr> of
                Inl x \<Rightarrow> (Inl x, e')
              | Inr c \<Rightarrow> sink c e')))"

definition record_usage ::
    "'e seams \<Rightarrow> profile \<Rightarrow> string \<Rightarrow> (string \<times> model_price) list \<Rightarrow> string option \<Rightarrow> int option
     \<Rightarrow> mapping \<Rightarrow> ('e, unit) ad" where
  "record_usage sm pf model pricing project no envelope =
     (case (usage_of pf envelope, sm_cost_sink sm) of
        (Some tokens, Some sink) \<Rightarrow> (\<lambda>s.
          case try_record sm (pf_provider pf) model pricing project no sink envelope tokens (outside s) of
            (Inr u, e) \<Rightarrow> (Inr (), s\<lparr>outside := e\<rparr>)
          | (Inl x, e) \<Rightarrow>
              notify_telemetry_error sm x (s\<lparr>outside := e, last_telemetry_error := Some x\<rparr>))
      | _ \<Rightarrow> returnA ())"

definition record_advice_cost :: "'e seams \<Rightarrow> advisor \<Rightarrow> mapping \<Rightarrow> advisor_query \<Rightarrow> ('e, unit) ad" where
  "record_advice_cost sm ad envelope q =
     record_usage sm (ad_profile ad) (ad_model ad) (ad_pricing ad) (ad_project ad) (query_step_no q) envelope"

section \<open>Advice\<close>

definition advise :: "'e seams \<Rightarrow> advisor \<Rightarrow> advisor_query \<Rightarrow> ('e, finding) ad" where
  "advise sm ad q =
     bindA (\<lambda>s. (Inr (), s\<lparr>last_telemetry_error := None\<rparr>)) (\<lambda>_.
     bindA (liftA (resolve_api_key sm ad)) (\<lambda>key.
     bindA (post sm ad (build_payload sm ad q) key) (\<lambda>response.
     bindA (liftA (parse_envelope sm key response)) (\<lambda>envelope.
     bindA (liftA (pf_content (ad_profile ad) (sm_dumps sm) key envelope)) (\<lambda>content.
     bindA (record_advice_cost sm ad envelope q) (\<lambda>_.
     bindA (liftA (parse_contract sm key content)) (\<lambda>contract.
     build_finding sm ad contract q)))))))"

end
