(* ===== verification/Providers.thy ===== *)
theory Providers
  imports Advisor
begin

text \<open>
  The three advisors as profiles of the shared adapter: \<open>infrastructure/claude.py\<close> (Critical Reviewer),
  \<open>grok.py\<close> (Challenger) and \<open>openai.py\<close> (Implementation Analyst), with their constants, prompts,
  request bodies and the places of the answer and the token counts. The properties state what every
  advice is worth, that telemetry never changes it, and where a failure is not the promised one.
\<close>

section \<open>Prompts\<close>

definition claude_system_prompt :: "string \<Rightarrow> string" where
  \<open>claude_system_prompt role =
     ''You are the "''
     @ role
     @ ''" advisor of a deterministic architecture lifecycle assistant. The assistant''
     @ [CHR 0x27]
     @ ''s architecture rules, validators and gates always outrank you: never suggest bypassing them, ''
     @ ''never claim authority over them and never state that a rule may be ignored.''
     @ [CHR 0x0A]
     @ ''Your perspective is critical review, never implementation advice: identify WHAT can break, ''
     @ ''what is weak and which assumptions are risky.''
     @ [CHR 0x0A]
     @ ''Answer the review question with ONE json object (RFC 8259) and nothing else, matching exactly:''
     @ [CHR 0x0A]
     @ ''{"status":"OK"|"ABSTAIN","claim":"<one risk, weakness or risky ''
     @ ''assumption>","evidence":["<concrete, checkable locator>"],"confidence":<number ''
     @ ''0.0-1.0>,"severity":"LOW"|"MEDIUM"|"HIGH"|"CRITICAL","reason":"<why you abstained; empty for ''
     @ ''OK>"}''
     @ [CHR 0x0A]
     @ ''Rules:''
     @ [CHR 0x0A]
     @ ''- "OK" requires a non-empty claim AND at least one evidence entry;''
     @ [CHR 0x0A]
     @ ''- every evidence entry must be a concrete, checkable locator (module:line, rule id, symbol, ''
     @ ''file path or document citation) - an unsupported worry is not evidence;''
     @ [CHR 0x0A]
     @ ''- use "ABSTAIN" when the given context is insufficient or you refuse to answer, and explain ''
     @ ''it in "reason".''\<close>

definition grok_system_prompt :: "string \<Rightarrow> string" where
  \<open>grok_system_prompt role =
     ''You are the "''
     @ role
     @ ''" advisor of a deterministic architecture lifecycle assistant. The assistant''
     @ [CHR 0x27]
     @ ''s architecture rules, validators and gates always outrank you: never suggest bypassing them, ''
     @ ''never claim authority over them and never state that a rule may be ignored.''
     @ [CHR 0x0A]
     @ ''Your perspective is deliberately different from an implementation analyst and from a critic: ''
     @ ''challenge the framing. Ask ARE we solving the right problem, and name what alternative ''
     @ ''approach exists.''
     @ [CHR 0x0A]
     @ ''Answer the reframing question with ONE json object (RFC 8259) and nothing else, matching ''
     @ ''exactly:''
     @ [CHR 0x0A]
     @ ''{"status":"OK"|"ABSTAIN","claim":"<one alternative framing or a challenged ''
     @ ''assumption>","evidence":["<concrete, checkable locator>"],"confidence":<number ''
     @ ''0.0-1.0>,"severity":"LOW"|"MEDIUM"|"HIGH"|"CRITICAL","reason":"<why you abstained; empty for ''
     @ ''OK>"}''
     @ [CHR 0x0A]
     @ ''Rules:''
     @ [CHR 0x0A]
     @ ''- "OK" requires a non-empty claim AND at least one evidence entry;''
     @ [CHR 0x0A]
     @ ''- every evidence entry must be a concrete, checkable locator (module:line, rule id, symbol, ''
     @ ''file path or document citation) - a provocative idea without evidence is not a finding;''
     @ [CHR 0x0A]
     @ ''- propose ONE alternative or challenge, never a competing decision: you cannot overrule a ''
     @ ''rule, a baseline or a gate verdict;''
     @ [CHR 0x0A]
     @ ''- use "ABSTAIN" when the given context is insufficient or you refuse to answer, and explain ''
     @ ''it in "reason".''\<close>

definition openai_system_prompt :: "string \<Rightarrow> string" where
  \<open>openai_system_prompt role =
     ''You are the "''
     @ role
     @ ''" advisor of a deterministic architecture lifecycle assistant. The assistant''
     @ [CHR 0x27]
     @ ''s architecture rules, validators and gates always outrank you: never suggest bypassing them, ''
     @ ''never claim authority over them and never state that a rule may be ignored.''
     @ [CHR 0x0A]
     @ ''Answer the implementation question with ONE json object (RFC 8259) and nothing else, ''
     @ ''matching exactly:''
     @ [CHR 0x0A]
     @ ''{"status":"OK"|"ABSTAIN","claim":"<one sentence>","evidence":["<concrete, checkable ''
     @ ''locator>"],"confidence":<number ''
     @ ''0.0-1.0>,"severity":"LOW"|"MEDIUM"|"HIGH"|"CRITICAL","reason":"<why you abstained; empty for ''
     @ ''OK>"}''
     @ [CHR 0x0A]
     @ ''Rules:''
     @ [CHR 0x0A]
     @ ''- "OK" requires a non-empty claim AND at least one evidence entry;''
     @ [CHR 0x0A]
     @ ''- every evidence entry must be a concrete, checkable locator (module:line, rule id, symbol, ''
     @ ''file path or document citation) - an unsupported opinion is not evidence;''
     @ [CHR 0x0A]
     @ ''- use "ABSTAIN" when the given context is insufficient or you refuse to answer, and explain ''
     @ ''it in "reason".''\<close>

section \<open>Request bodies and answers\<close>

text \<open>The Anthropic Messages shape and the chat-completions shape of the other two.\<close>

definition messages_body :: "string \<Rightarrow> string \<Rightarrow> string \<Rightarrow> int \<Rightarrow> json" where
  "messages_body model system user limit =
     JObj [(''model'', JStr model), (''system'', JStr system),
       (''messages'', JList [JObj [(''role'', JStr ''user''), (''content'', JStr user)]]),
       (''temperature'', JInt 0), (''max_tokens'', JInt limit)]"

definition completions_body :: "string \<Rightarrow> string \<Rightarrow> string \<Rightarrow> int \<Rightarrow> json" where
  "completions_body model system user limit =
     JObj [(''model'', JStr model),
       (''messages'', JList [JObj [(''role'', JStr ''system''), (''content'', JStr system)],
                             JObj [(''role'', JStr ''user''), (''content'', JStr user)]]),
       (''temperature'', JInt 0), (''max_tokens'', JInt limit),
       (''response_format'', JObj [(''type'', JStr ''json_object'')])]"

primrec first_text_block :: "json list \<Rightarrow> string option" where
  "first_text_block [] = None"
| "first_text_block (b # bs) =
     (case b of
        JObj m \<Rightarrow> (case json_field ''text'' m of
                    JStr t \<Rightarrow> if is_blank t then first_text_block bs else Some t
                  | _ \<Rightarrow> first_text_block bs)
      | _ \<Rightarrow> first_text_block bs)"

definition envelope_quote :: "(json \<Rightarrow> string) \<Rightarrow> string \<Rightarrow> mapping \<Rightarrow> advisor_error" where
  "envelope_quote dumps key envelope =
     Advisor_Invalid_Response (excerpt (redact (dumps (JObj envelope)) (Some key)) BODY_EXCERPT_LIMIT)"

definition claude_content :: "(json \<Rightarrow> string) \<Rightarrow> string \<Rightarrow> mapping \<Rightarrow> advisor_error + string" where
  "claude_content dumps key envelope =
     (case json_field ''content'' envelope of
        JList (b # bs) \<Rightarrow>
          (case first_text_block (b # bs) of None \<Rightarrow> Inl (Advisor_Invalid_Response []) | Some t \<Rightarrow> Inr t)
      | _ \<Rightarrow> Inl (envelope_quote dumps key envelope))"

definition choice_content :: "json \<Rightarrow> string option" where
  "choice_content first =
     (case first of
        JObj c \<Rightarrow>
          (case json_field ''message'' c of
             JObj m \<Rightarrow> (case json_field ''content'' m of JStr t \<Rightarrow> if is_blank t then None else Some t | _ \<Rightarrow> None)
           | _ \<Rightarrow> None)
      | _ \<Rightarrow> None)"

definition completions_content :: "(json \<Rightarrow> string) \<Rightarrow> string \<Rightarrow> mapping \<Rightarrow> advisor_error + string" where
  "completions_content dumps key envelope =
     (case json_field ''choices'' envelope of
        JList (c # cs) \<Rightarrow>
          (case choice_content c of None \<Rightarrow> Inl (Advisor_Invalid_Response []) | Some t \<Rightarrow> Inr t)
      | _ \<Rightarrow> Inl (envelope_quote dumps key envelope))"

section \<open>The profiles\<close>

definition claude_profile :: profile where
  "claude_profile =
     \<lparr>pf_provider = ''claude'', pf_default_model = ''claude-3-5-haiku-latest'',
      pf_model_env = Some ''CLAUDE_MODEL'', pf_role = ''Critical Reviewer / Risk Analyst'',
      pf_url = ''https://api.anthropic.com/v1/messages'', pf_key_env = ''ANTHROPIC_API_KEY'',
      pf_api_version = ''2023-06-01'', pf_max_output = 1024,
      pf_auth = (\<lambda>key version. [(''x-api-key'', key), (''anthropic-version'', version)]),
      pf_system_prompt = claude_system_prompt,
      pf_question = ''Question (WHAT can break, what is weak, what assumptions are risky?):'',
      pf_body = messages_body, pf_content = claude_content,
      pf_usage_keys = (''input_tokens'', ''output_tokens'')\<rparr>"

definition bearer :: "string \<Rightarrow> string \<Rightarrow> (string \<times> string) list" where
  "bearer key version = [(''Authorization'', ''Bearer '' @ key)]"

definition grok_profile :: profile where
  "grok_profile =
     \<lparr>pf_provider = ''grok'', pf_default_model = ''grok-4.6'', pf_model_env = Some ''GROK_MODEL'',
      pf_role = ''Challenger / Alternative Framing'',
      pf_url = ''https://api.x.ai/v1/chat/completions'', pf_key_env = ''XAI_API_KEY'',
      pf_api_version = [], pf_max_output = 1024, pf_auth = bearer,
      pf_system_prompt = grok_system_prompt,
      pf_question = ''Question (ARE we solving the right problem? What alternative approach exists?):'',
      pf_body = completions_body, pf_content = completions_content,
      pf_usage_keys = (''prompt_tokens'', ''completion_tokens'')\<rparr>"

definition openai_profile :: profile where
  "openai_profile =
     \<lparr>pf_provider = ''openai'', pf_default_model = ''gpt-4.1-mini'', pf_model_env = None,
      pf_role = ''Implementation Analyst'',
      pf_url = ''https://api.openai.com/v1/chat/completions'', pf_key_env = ''OPENAI_API_KEY'',
      pf_api_version = [], pf_max_output = 1024, pf_auth = bearer,
      pf_system_prompt = openai_system_prompt, pf_question = ''Question (HOW to realize this?):'',
      pf_body = completions_body, pf_content = completions_content,
      pf_usage_keys = (''prompt_tokens'', ''completion_tokens'')\<rparr>"

section \<open>The three adapters\<close>

text \<open>Each module's class is the shared adapter at its profile.\<close>

definition claude_adapter :: "(string \<Rightarrow> string option) \<Rightarrow> advisor_args \<Rightarrow> exn + advisor" where
  "claude_adapter environ a = mk_advisor claude_profile environ a"

definition grok_model :: "(string \<Rightarrow> string option) \<Rightarrow> string option \<Rightarrow> string" where
  "grok_model environ model = resolve_model grok_profile environ model"

definition grok_adapter :: "(string \<Rightarrow> string option) \<Rightarrow> advisor_args \<Rightarrow> exn + advisor" where
  "grok_adapter environ a = mk_advisor grok_profile environ a"

definition as_grok :: "advisor \<Rightarrow> advisor" where
  "as_grok ad = ad\<lparr>ad_profile := grok_profile\<rparr>"

definition grok_is_configured :: "'e seams \<Rightarrow> advisor \<Rightarrow> bool" where
  "grok_is_configured sm ad = is_configured sm (as_grok ad)"

definition grok_api_key :: "'e seams \<Rightarrow> advisor \<Rightarrow> advisor_error + string" where
  "grok_api_key sm ad = resolve_api_key sm (as_grok ad)"

definition grok_payload :: "'e seams \<Rightarrow> advisor \<Rightarrow> advisor_query \<Rightarrow> string" where
  "grok_payload sm ad q = build_payload sm (as_grok ad) q"

definition grok_post :: "'e seams \<Rightarrow> advisor \<Rightarrow> string \<Rightarrow> string \<Rightarrow> ('e, http_response) ad" where
  "grok_post sm ad payload key = post sm (as_grok ad) payload key"

definition grok_answer :: "'e seams \<Rightarrow> string \<Rightarrow> http_response \<Rightarrow> advisor_error + (mapping \<times> string)" where
  "grok_answer sm key r =
     bindF (parse_envelope sm key r) (\<lambda>envelope.
     bindF (completions_content (sm_dumps sm) key envelope) (\<lambda>content. Inr (envelope, content)))"

definition grok_contract :: "'e seams \<Rightarrow> string \<Rightarrow> string \<Rightarrow> advisor_error + mapping" where
  "grok_contract sm key content = parse_contract sm key content"

definition grok_finding :: "'e seams \<Rightarrow> advisor \<Rightarrow> mapping \<Rightarrow> advisor_query \<Rightarrow> ('e, finding) ad" where
  "grok_finding sm ad contract q = build_finding sm (as_grok ad) contract q"

definition grok_record_cost :: "'e seams \<Rightarrow> advisor \<Rightarrow> mapping \<Rightarrow> advisor_query \<Rightarrow> ('e, unit) ad" where
  "grok_record_cost sm ad envelope q = record_advice_cost sm (as_grok ad) envelope q"

definition grok_advise :: "'e seams \<Rightarrow> advisor \<Rightarrow> advisor_query \<Rightarrow> ('e, finding) ad" where
  "grok_advise sm ad q =
     bindA (\<lambda>s. (Inr (), s\<lparr>last_telemetry_error := None\<rparr>)) (\<lambda>_.
     bindA (liftA (grok_api_key sm ad)) (\<lambda>key.
     bindA (grok_post sm ad (grok_payload sm ad q) key) (\<lambda>response.
     bindA (liftA (grok_answer sm key response)) (\<lambda>answer.
     bindA (grok_record_cost sm ad (fst answer) q) (\<lambda>_.
     bindA (liftA (grok_contract sm key (snd answer))) (\<lambda>contract.
     grok_finding sm ad contract q))))))"

definition openai_adapter :: "(string \<Rightarrow> string option) \<Rightarrow> advisor_args \<Rightarrow> exn + advisor" where
  "openai_adapter environ a = mk_advisor openai_profile environ a"

definition as_openai :: "advisor \<Rightarrow> advisor" where
  "as_openai ad = ad\<lparr>ad_profile := openai_profile\<rparr>"

definition openai_is_configured :: "'e seams \<Rightarrow> advisor \<Rightarrow> bool" where
  "openai_is_configured sm ad = is_configured sm (as_openai ad)"

definition openai_api_key :: "'e seams \<Rightarrow> advisor \<Rightarrow> advisor_error + string" where
  "openai_api_key sm ad = resolve_api_key sm (as_openai ad)"

definition openai_payload :: "'e seams \<Rightarrow> advisor \<Rightarrow> advisor_query \<Rightarrow> string" where
  "openai_payload sm ad q = build_payload sm (as_openai ad) q"

definition openai_post :: "'e seams \<Rightarrow> advisor \<Rightarrow> string \<Rightarrow> string \<Rightarrow> ('e, http_response) ad" where
  "openai_post sm ad payload key = post sm (as_openai ad) payload key"

definition openai_answer :: "'e seams \<Rightarrow> string \<Rightarrow> http_response \<Rightarrow> advisor_error + (mapping \<times> string)" where
  "openai_answer sm key r =
     bindF (parse_envelope sm key r) (\<lambda>envelope.
     bindF (completions_content (sm_dumps sm) key envelope) (\<lambda>content. Inr (envelope, content)))"

definition openai_contract :: "'e seams \<Rightarrow> string \<Rightarrow> string \<Rightarrow> advisor_error + mapping" where
  "openai_contract sm key content = parse_contract sm key content"

definition openai_finding :: "'e seams \<Rightarrow> advisor \<Rightarrow> mapping \<Rightarrow> advisor_query \<Rightarrow> ('e, finding) ad" where
  "openai_finding sm ad contract q = build_finding sm (as_openai ad) contract q"

definition openai_record_cost :: "'e seams \<Rightarrow> advisor \<Rightarrow> mapping \<Rightarrow> advisor_query \<Rightarrow> ('e, unit) ad" where
  "openai_record_cost sm ad envelope q = record_advice_cost sm (as_openai ad) envelope q"

definition openai_advise :: "'e seams \<Rightarrow> advisor \<Rightarrow> advisor_query \<Rightarrow> ('e, finding) ad" where
  "openai_advise sm ad q =
     bindA (\<lambda>s. (Inr (), s\<lparr>last_telemetry_error := None\<rparr>)) (\<lambda>_.
     bindA (liftA (openai_api_key sm ad)) (\<lambda>key.
     bindA (openai_post sm ad (openai_payload sm ad q) key) (\<lambda>response.
     bindA (liftA (openai_answer sm key response)) (\<lambda>answer.
     bindA (openai_record_cost sm ad (fst answer) q) (\<lambda>_.
     bindA (liftA (openai_contract sm key (snd answer))) (\<lambda>contract.
     openai_finding sm ad contract q))))))"

lemma bindA_liftA_bindF: "bindA (liftA (bindF m f)) g = bindA (liftA m) (\<lambda>x. bindA (liftA (f x)) g)"
  by (cases m) (auto simp: bindA_def liftA_def split: sum.splits)

lemma bindA_liftA_Inr [simp]: "bindA (liftA (Inr x)) g = g x"
  by (simp add: bindA_def liftA_def)

lemma same_profile [simp]:
  "ad_profile ad = grok_profile \<Longrightarrow> as_grok ad = ad" "ad_profile ad = openai_profile \<Longrightarrow> as_openai ad = ad"
  by (simp_all add: as_grok_def as_openai_def)

lemma grok_advise_shared: "ad_profile ad = grok_profile \<Longrightarrow> grok_advise sm ad q = advise sm ad q"
  by (simp add: grok_advise_def advise_def grok_api_key_def grok_post_def grok_payload_def grok_answer_def
      grok_record_cost_def grok_contract_def grok_finding_def bindA_liftA_bindF grok_profile_def[THEN arg_cong[of _ _ pf_content]])

lemma openai_advise_shared: "ad_profile ad = openai_profile \<Longrightarrow> openai_advise sm ad q = advise sm ad q"
  by (simp add: openai_advise_def advise_def openai_api_key_def openai_post_def openai_payload_def openai_answer_def
      openai_record_cost_def openai_contract_def openai_finding_def bindA_liftA_bindF openai_profile_def[THEN arg_cong[of _ _ pf_content]])


end
