(* ===== verification/Advice.thy ===== *)
theory Advice
  imports Providers Evidence
begin

text \<open>
  What an advice is worth: the retry policy of \<open>_post\<close>, what the redaction of the API key covers and what
  it does not, the validity of every finding an adapter returns, the harmlessness of cost telemetry, and
  the identity of findings when they reach the evidence merger. A network that plays a script of
  outcomes stands for the transport; a seam record over a small JSON table makes the runs concrete.
\<close>

section \<open>The retry policy\<close>

definition retried :: "string \<Rightarrow> transport_error + http_response \<Rightarrow> bool" where
  "retried key res = (case judge_attempt key res of Retry f \<Rightarrow> True | _ \<Rightarrow> False)"

definition concluded :: "string \<Rightarrow> transport_error + http_response \<Rightarrow> bool" where
  "concluded key res = (case judge_attempt key res of Retry f \<Rightarrow> False | _ \<Rightarrow> True)"

lemma concluded_iff [simp]: "concluded key res \<longleftrightarrow> \<not> retried key res"
  by (simp add: concluded_def retried_def split: attempt.split)

definition attempt_result :: "string \<Rightarrow> transport_error + http_response \<Rightarrow> advisor_error + http_response" where
  "attempt_result key res =
     (case judge_attempt key res of Answer r \<Rightarrow> Inr r | Permanent f \<Rightarrow> Inl f | Retry f \<Rightarrow> Inl f)"

text \<open>A network that plays a script of outcomes and notes what is sent and how long is slept.\<close>

record network =
  script :: "(transport_error + http_response) list"
  sent :: "http_request list"
  slept :: "rat list"

definition scripted :: "network seams \<Rightarrow> network seams" where
  "scripted sm = sm\<lparr>
     sm_transport := (\<lambda>rq n. (case script n of
         [] \<Rightarrow> (Inl \<lparr>te_message = [], te_retryable = False, te_timed_out = False\<rparr>, n)
       | r # rs \<Rightarrow> (r, n\<lparr>script := rs, sent := sent n @ [rq]\<rparr>))),
     sm_sleep := (\<lambda>d n. n\<lparr>slept := slept n @ [d]\<rparr>)\<rparr>"

lemma scripted_simps [simp]:
  "sm_sleep (scripted sm) d n = n\<lparr>slept := slept n @ [d]\<rparr>"
  "script n = r # rs \<Longrightarrow> sm_transport (scripted sm) rq n = (r, n\<lparr>script := rs, sent := sent n @ [rq]\<rparr>)"
  by (simp_all add: scripted_def)

lemma post_from_policy:
  assumes "0 < left" "left \<le> length (script (outside s))"
  shows "\<exists>k. 1 \<le> k \<and> k \<le> left \<and> (\<forall>j<k - 1. retried key (script (outside s) ! j))
     \<and> (k < left \<longrightarrow> \<not> retried key (script (outside s) ! (k - 1)))
     \<and> post_from (scripted sm) schedule key rq left i failure s
       = (attempt_result key (script (outside s) ! (k - 1)),
          s\<lparr>outside := (outside s)\<lparr>script := drop k (script (outside s)),
              sent := sent (outside s) @ replicate k rq,
              slept := slept (outside s) @ map (delay_for schedule) [i..<i + k - 1]\<rparr>\<rparr>)"
  using assms
proof (induction left arbitrary: i s failure)
  case (Suc left)
  obtain r rs where rs: "script (outside s) = r # rs"
    using Suc.prems(2) by (cases "script (outside s)") auto
  let ?e = "(outside s)\<lparr>script := rs, sent := sent (outside s) @ [rq]\<rparr>"
  show ?case
  proof (cases "retried key r \<and> left \<noteq> 0")
    case False
    have "post_from (scripted sm) schedule key rq (Suc left) i failure s = (attempt_result key r, s\<lparr>outside := ?e\<rparr>)"
      using False rs by (auto simp: attempt_result_def retried_def liftA_run split: attempt.split)
    then show ?thesis
      using False rs by (intro exI[of _ 1]) auto
  next
    case True
    then obtain f where f: "judge_attempt key r = Retry f"
      by (auto simp: retried_def split: attempt.splits)
    let ?s = "s\<lparr>outside := ?e\<lparr>slept := slept (outside s) @ [delay_for schedule i]\<rparr>\<rparr>"
    have run: "post_from (scripted sm) schedule key rq (Suc left) i failure s
        = post_from (scripted sm) schedule key rq left (Suc i) (Some f) ?s"
      using True rs f by simp
    have "0 < left" "left \<le> length (script (outside ?s))" using True Suc.prems(2) rs by auto
    from Suc.IH[OF this, of "Suc i" "Some f"]
    obtain k where k: "1 \<le> k" "k \<le> left" "\<forall>j<k - 1. retried key (rs ! j)"
        "k < left \<longrightarrow> \<not> retried key (rs ! (k - 1))"
      and res: "post_from (scripted sm) schedule key rq left (Suc i) (Some f) ?s
        = (attempt_result key (rs ! (k - 1)),
          ?s\<lparr>outside := (outside ?s)\<lparr>script := drop k rs, sent := sent (outside ?s) @ replicate k rq,
              slept := slept (outside ?s) @ map (delay_for schedule) [Suc i..<Suc i + k - 1]\<rparr>\<rparr>)"
      by auto
    have "[i..<i + Suc k - 1] = i # [Suc i..<Suc i + k - 1]"
      using k(1) by (simp add: upt_conv_Cons)
    moreover have "\<forall>j<Suc k - 1. retried key (script (outside s) ! j)"
      using k(3) True rs by (auto simp: nth_Cons split: nat.split)
    ultimately show ?thesis
      using k rs res run by (intro exI[of _ "Suc k"]) (auto simp: nth_Cons' replicate_append_same)
  qed
qed simp

lemma mk_advisor_facts:
  assumes "mk_advisor pf environ a = Inr ad"
  shows "ad_profile ad = pf" "\<not> is_blank (ad_url ad)" "\<not> is_blank (ad_model ad)" "0 < ad_timeout ad"
    "0 \<le> ad_max_retries ad" "ad_backoff ad \<noteq> []" "ad_api_key ad = Some k \<Longrightarrow> \<not> is_blank k"
  using assms by (auto simp: mk_advisor_def Let_def require_number_def require_min_int_def split: option.splits if_splits)

lemma advisor_request_ok:
  "mk_advisor pf environ a = Inr ad \<Longrightarrow>
     mk_http_request (advisor_request ad payload key) = Inr (advisor_request ad payload key)"
  using mk_advisor_facts[of pf environ a ad]
  by (simp add: mk_http_request_def advisor_request_def is_space_def)

text \<open>C22: the retry policy: over any sequence of transport outcomes at least as long as the attempts
allowed, an adapter sends between one and \<open>max_retries + 1\<close> requests, all of them the same one,
retries exactly after the retryable outcomes (time-outs and retryable transport failures, 429, 5xx),
sleeps the scheduled delay between two attempts and never after the last, and ends with what the
last outcome means: the 2xx answer as soon as it comes, or the failure.\<close>

theorem post_retry_policy:
  assumes "mk_advisor pf environ a = Inr ad"
    and "nat (ad_max_retries ad + 1) \<le> length (script (outside s))"
  shows "\<exists>k. 1 \<le> k \<and> k \<le> nat (ad_max_retries ad + 1)
     \<and> list_all (retried key) (take (k - 1) (script (outside s)))
     \<and> (k = nat (ad_max_retries ad + 1) \<or> concluded key (script (outside s) ! (k - 1)))
     \<and> post (scripted sm) ad payload key s
       = (attempt_result key (script (outside s) ! (k - 1)),
          s\<lparr>outside := (outside s)\<lparr>script := drop k (script (outside s)),
              sent := sent (outside s) @ replicate k (advisor_request ad payload key),
              slept := slept (outside s) @ map (delay_for (ad_backoff ad)) [0..<k - 1]\<rparr>\<rparr>)"
proof -
  have "0 < nat (ad_max_retries ad + 1)" using mk_advisor_facts(5)[OF assms(1)] by simp
  from post_from_policy[OF this assms(2), of key sm "ad_backoff ad" "advisor_request ad payload key" 0 None]
  obtain k where k: "1 \<le> k" "k \<le> nat (ad_max_retries ad + 1)" "\<forall>j<k - 1. retried key (script (outside s) ! j)"
      "k < nat (ad_max_retries ad + 1) \<longrightarrow> \<not> retried key (script (outside s) ! (k - 1))"
    and run: "post_from (scripted sm) (ad_backoff ad) key (advisor_request ad payload key) (nat (ad_max_retries ad + 1)) 0 None s
       = (attempt_result key (script (outside s) ! (k - 1)),
          s\<lparr>outside := (outside s)\<lparr>script := drop k (script (outside s)),
              sent := sent (outside s) @ replicate k (advisor_request ad payload key),
              slept := slept (outside s) @ map (delay_for (ad_backoff ad)) [0..<0 + k - 1]\<rparr>\<rparr>)"
    by blast
  have "list_all (retried key) (take (k - 1) (script (outside s)))"
    using k(2,3) assms(2) by (simp add: list_all_length)
  moreover have "k = nat (ad_max_retries ad + 1) \<or> concluded key (script (outside s) ! (k - 1))"
    using k(2,4) by auto
  moreover have "post (scripted sm) ad payload key s
      = post_from (scripted sm) (ad_backoff ad) key (advisor_request ad payload key) (nat (ad_max_retries ad + 1)) 0 None s"
    by (simp add: post_def bindA_run liftA_run escape_def advisor_request_ok[OF assms(1)])
  ultimately show ?thesis using k(1,2) run by auto
qed

section \<open>Redaction\<close>

primrec quoted_text :: "advisor_error \<Rightarrow> string" where
  "quoted_text Advisor_Error = []"
| "quoted_text Missing_Api_Key = []"
| "quoted_text (Advisor_Transport t) = t"
| "quoted_text Advisor_Timeout = []"
| "quoted_text (Advisor_Rate_Limit s t) = t"
| "quoted_text (Advisor_Http s t) = t"
| "quoted_text (Advisor_Invalid_Response t) = t"
| "quoted_text (Advisor_Abstain t) = t"
| "quoted_text (Escaped_Error x) = []"

lemma plain_key_redacted:
  "plain_key k \<Longrightarrow> \<not> sublist k (redact t (Some k))" "plain_key k \<Longrightarrow> k \<noteq> []"
  using redacted unfolding plain_key_def by auto

lemma judge_attempt_quoted:
  "plain_key key \<Longrightarrow> judge_attempt key res = Permanent f \<or> judge_attempt key res = Retry f \<Longrightarrow> \<not> sublist key (quoted_text f)"
  by (auto simp: judge_attempt_def status_detail_def Let_def plain_key_redacted excerpt_redacted
      split: sum.splits if_splits)

lemma post_from_quoted:
  assumes "plain_key key" "post_from sm schedule key rq left i failure s = (Inl e, s')"
    and "\<And>f. failure = Some f \<Longrightarrow> \<not> sublist key (quoted_text f)"
  shows "\<not> sublist key (quoted_text e)"
  using assms(2,3)
proof (induction left arbitrary: i failure s)
  case 0
  then show ?case by (auto simp: liftA_run plain_key_redacted[OF assms(1)] split: option.splits)
next
  case (Suc left)
  obtain res e' where t: "sm_transport sm rq (outside s) = (res, e')" by fastforce
  show ?case
  proof (cases "judge_attempt key res")
    case (Retry f)
    then show ?thesis
      using Suc.IH[of "Suc i" "Some f"] Suc.prems(1) t judge_attempt_quoted[OF assms(1)] by auto
  qed (use Suc.prems(1) t judge_attempt_quoted[OF assms(1)] in auto)
qed

text \<open>C24: no failure of the delivery or of the JSON decoding quotes the API key: for a key without
asterisk, dot and white space, the provider text in the error of a failed request, of a body or an
answer that is not JSON never contains it, whatever the provider or the transport echoes.\<close>

theorem delivery_errors_redacted:
  assumes "plain_key key"
    and "fst (post sm ad payload key s) = Inl e \<or> parse_envelope sm key r = Inl e
       \<or> parse_contract sm key content = Inl e"
  shows "\<not> sublist key (quoted_text e)"
  using assms(2)
proof (elim disjE)
  assume "fst (post sm ad payload key s) = Inl e"
  then obtain s' where "post sm ad payload key s = (Inl e, s')" by (metis prod.collapse)
  then consider x where "e = Escaped_Error x"
    | rq where "post_from sm (ad_backoff ad) key rq (nat (ad_max_retries ad + 1)) 0 None s = (Inl e, s')"
    by (auto simp: post_def bindA_run liftA_run escape_def split: sum.splits)
  then show ?thesis
  proof cases
    case 1
    then show ?thesis using plain_key_redacted(2)[OF assms(1)] by simp
  next
    case 2
    then show ?thesis using post_from_quoted[OF assms(1)] by fastforce
  qed
qed (auto simp: parse_envelope_def parse_contract_def Let_def excerpt_redacted[OF assms(1)]
    plain_key_redacted[OF assms(1)] split: option.splits json.splits)

section \<open>A concrete adapter\<close>

text \<open>A transport and a clock over \<open>network\<close>, and a JSON reader that knows two texts: the envelope
\<open>E\<close>, whose content is the text \<open>A\<close>, and the contract \<open>A\<close>.\<close>

definition demo_envelope :: mapping where
  "demo_envelope =
     [(''id'', JStr ''msg-1''), (''content'', JList [JObj [(''text'', JStr ''A'')]]),
      (''usage'', JObj [(''input_tokens'', JInt 10), (''output_tokens'', JInt 5)])]"

definition demo_contract :: "json \<Rightarrow> mapping" where
  "demo_contract confidence =
     [(''status'', JStr ''ok''), (''claim'', JStr ''a risk''), (''evidence'', JList [JStr ''core.py:1'']),
      (''confidence'', confidence), (''severity'', JStr ''high''), (''reason'', JStr [])]"

definition demo_seams :: "mapping \<Rightarrow> network seams" where
  "demo_seams contract = scripted
     \<lparr>sm_transport = (\<lambda>rq n. (Inl \<lparr>te_message = [], te_retryable = False, te_timed_out = False\<rparr>, n)),
      sm_sleep = (\<lambda>d n. n), sm_clock = (\<lambda>n. (1000, n)), sm_cost_sink = None, sm_telemetry_hook = None,
      sm_environ = (\<lambda>v. None), sm_sha1_hex = (\<lambda>t. ''0123456789abcdef''),
      sm_loads = (\<lambda>t. if t = ''E'' then Some (JObj demo_envelope) else if t = ''A'' then Some (JObj contract) else None),
      sm_canonical = (\<lambda>j. ''{}''), sm_dumps = (\<lambda>j. ''{}''), sm_str = (\<lambda>j. ''?'')\<rparr>"

definition demo_args :: advisor_args where
  "demo_args = (default_args claude_profile)\<lparr>aa_api_key := Some ''sk-1''\<rparr>"

definition demo_advisor :: advisor where
  "demo_advisor =
     \<lparr>ad_profile = claude_profile, ad_api_key = Some ''sk-1'', ad_url = pf_url claude_profile,
      ad_model = pf_default_model claude_profile, ad_role = pf_role claude_profile,
      ad_api_version = pf_api_version claude_profile, ad_timeout = 30, ad_max_retries = 2,
      ad_backoff = [0, 1, 2], ad_max_output = 1024, ad_pricing = [], ad_project = None\<rparr>"

definition demo_query :: advisor_query where
  "demo_query = \<lparr>query_question = ''why?'', query_context = [], query_step_no = Some 3\<rparr>"

definition demo_network :: "(int \<times> string) list \<Rightarrow> network adapter_state" where
  "demo_network answers =
     \<lparr>outside = \<lparr>script = map (\<lambda>(st, t). Inr \<lparr>rs_status = st, rs_text = t\<rparr>) answers, sent = [], slept = []\<rparr>,
      last_telemetry_error = None\<rparr>"

lemma demo_advisor_made: "mk_advisor claude_profile (\<lambda>v. None) demo_args = Inr demo_advisor"
  by (simp add: mk_advisor_def demo_args_def default_args_def demo_advisor_def claude_profile_def resolve_model_def
      cap_text_def cap_optional_text_def require_number_def require_min_int_def requireE_def is_space_def
      DEFAULT_TIMEOUT_SECONDS_def DEFAULT_MAX_RETRIES_def DEFAULT_BACKOFF_SCHEDULE_def strip_def Let_def)


theorem post_retry_policy_witness:
  "\<exists>k. 1 \<le> k \<and> k \<le> nat (ad_max_retries demo_advisor + 1)
     \<and> list_all (retried ''sk-1'') (take (k - 1) (script (outside (demo_network [(503, ''busy''), (429, ''slow''), (200, ''E'')]))))
     \<and> (k = nat (ad_max_retries demo_advisor + 1)
        \<or> concluded ''sk-1'' (script (outside (demo_network [(503, ''busy''), (429, ''slow''), (200, ''E'')])) ! (k - 1)))
     \<and> post (scripted (demo_seams [])) demo_advisor ''{}'' ''sk-1'' (demo_network [(503, ''busy''), (429, ''slow''), (200, ''E'')])
       = (attempt_result ''sk-1'' (script (outside (demo_network [(503, ''busy''), (429, ''slow''), (200, ''E'')])) ! (k - 1)),
          (demo_network [(503, ''busy''), (429, ''slow''), (200, ''E'')])\<lparr>outside :=
            (outside (demo_network [(503, ''busy''), (429, ''slow''), (200, ''E'')]))\<lparr>
              script := drop k (script (outside (demo_network [(503, ''busy''), (429, ''slow''), (200, ''E'')]))),
              sent := sent (outside (demo_network [(503, ''busy''), (429, ''slow''), (200, ''E'')]))
                @ replicate k (advisor_request demo_advisor ''{}'' ''sk-1''),
              slept := slept (outside (demo_network [(503, ''busy''), (429, ''slow''), (200, ''E'')]))
                @ map (delay_for (ad_backoff demo_advisor)) [0..<k - 1]\<rparr>\<rparr>)"
  by (rule post_retry_policy[OF demo_advisor_made]) (simp add: demo_network_def demo_advisor_def)

theorem delivery_errors_redacted_witness:
  "parse_envelope (demo_seams []) ''sk-1'' \<lparr>rs_status = 200, rs_text = ''sk-1 oops''\<rparr>
     = Inl (Advisor_Invalid_Response ''*** oops'')
   \<and> \<not> sublist ''sk-1'' (quoted_text (Advisor_Invalid_Response ''*** oops''))"
proof -
  have k: "plain_key ''sk-1''" by (simp add: plain_key_def is_space_def)
  have e: "parse_envelope (demo_seams []) ''sk-1'' \<lparr>rs_status = 200, rs_text = ''sk-1 oops''\<rparr>
      = Inl (Advisor_Invalid_Response ''*** oops'')"
    by code_simp
  show ?thesis
    using delivery_errors_redacted[OF k disjI2[OF disjI1[OF e]]] e by blast
qed

section \<open>Every advice is a valid finding or a promised failure\<close>

definition promised :: "advisor_error \<Rightarrow> bool" where
  "promised e = (case e of Escaped_Error x \<Rightarrow> False | _ \<Rightarrow> True)"

definition valid_advice :: "profile \<Rightarrow> advisor_query \<Rightarrow> finding \<Rightarrow> bool" where
  "valid_advice pf q f \<longleftrightarrow> mk_finding f = Inr f \<and> finding_source f = pf_provider pf
     \<and> finding_step_no f = query_step_no q \<and> finding_evidence f \<noteq> []
     \<and> list_all (\<lambda>e. \<not> is_blank e) (finding_evidence f)"

lemma is_blank_strip [simp]: "is_blank (strip s) = is_blank s"
proof -
  have drop: "(\<forall>c\<in>set (dropWhile is_space xs). is_space c) \<longleftrightarrow> (\<forall>c\<in>set xs. is_space c)" for xs
    by (induction xs) auto
  show ?thesis using drop[of s] drop[of "rev (dropWhile is_space s)"] by (simp add: is_blank_iff strip_def)
qed

lemma status_promised: "status_of sm m = Inl e \<Longrightarrow> promised e"
  by (auto simp: status_of_def promised_def Let_def split: if_splits)

lemma claim_valid: "claim_of m = Inr c \<Longrightarrow> \<not> is_blank c" "claim_of m = Inl e \<Longrightarrow> promised e"
  by (auto simp: claim_of_def promised_def split: json.splits if_splits)

lemma evidence_entries_valid:
  "evidence_entries xs = Inr ys \<Longrightarrow> list_all (\<lambda>e. \<not> is_blank e) ys" "evidence_entries xs = Inl e \<Longrightarrow> promised e"
proof (induction xs arbitrary: ys)
  case (Cons x xs)
  { case 1 then show ?case using Cons by (auto split: json.splits if_splits) }
  { case 2 then show ?case using Cons
      by (cases "evidence_entries xs") (auto simp: promised_def split: json.splits if_splits) }
qed auto

lemma evidence_valid:
  "evidence_of m = Inr ys \<Longrightarrow> ys \<noteq> [] \<and> list_all (\<lambda>e. \<not> is_blank e) ys" "evidence_of m = Inl e \<Longrightarrow> promised e"
proof -
  show "evidence_of m = Inr ys \<Longrightarrow> ys \<noteq> [] \<and> list_all (\<lambda>e. \<not> is_blank e) ys"
    using evidence_entries_valid(1) by (auto simp: evidence_of_def split: json.splits if_splits)
  show "promised e" if h: "evidence_of m = Inl e"
  proof (cases "json_field ''evidence'' m")
    case (JList xs)
    then show ?thesis using h evidence_entries_valid(2)[of xs e]
      by (cases "evidence_entries xs") (auto simp: evidence_of_def promised_def split: if_splits)
  qed (use h in \<open>auto simp: evidence_of_def promised_def\<close>)
qed

lemma confidence_valid:
  "confidence_of m = Inr x \<Longrightarrow> 0 \<le> x \<and> x \<le> 1"
  "confidence_of m = Inl e \<Longrightarrow> promised e \<or> e = Escaped_Error OverflowError"
  by (auto simp: confidence_of_def promised_def escape_def float_of_int_def split: json.splits if_splits)

lemma severity_promised: "severity_of sm m = Inl e \<Longrightarrow> promised e"
  by (auto simp: severity_of_def promised_def Let_def split: json.splits sum.splits)

lemma provider_finding_id_not_blank [simp]: "\<not> is_blank (provider_finding_id h p m no c ev)"
  by (simp add: provider_finding_id_def Let_def is_space_def)

lemma built_finding:
  assumes "mk_advisor_query q = Inr q" "\<not> is_blank (pf_provider (ad_profile ad))"
  shows "case fst (build_finding sm ad m q s) of
      Inl e \<Rightarrow> promised e \<or> e = Escaped_Error OverflowError | Inr f \<Rightarrow> valid_advice (ad_profile ad) q f"
proof (cases "status_of sm m")
  case (Inl e)
  then show ?thesis using status_promised by (auto simp: build_finding_def ad_run)
next
  case (Inr st)
  note status = Inr
  show ?thesis
  proof (cases "st = ''ABSTAIN''")
    case True
    then show ?thesis using status by (simp add: build_finding_def ad_run promised_def)
  next
    case False
    note go = False
    obtain t e where clock: "sm_clock sm (outside s) = (t, e)" by fastforce
    show ?thesis
    proof (cases "\<exists>c ev x sev. claim_of m = Inr c \<and> evidence_of m = Inr ev \<and> confidence_of m = Inr x \<and> severity_of sm m = Inr sev")
      case True
      then obtain c ev x sev where parts: "claim_of m = Inr c" "evidence_of m = Inr ev" "confidence_of m = Inr x" "severity_of sm m = Inr sev"
        by blast
      let ?f = "\<lparr>finding_id = provider_finding_id (sm_sha1_hex sm) (pf_provider (ad_profile ad)) (ad_model ad) (query_step_no q) c ev,
          finding_source = pf_provider (ad_profile ad), finding_claim = c, finding_evidence = ev,
          finding_confidence = x, finding_severity = sev, finding_step_no = query_step_no q, finding_created_at = t\<rparr>"
      have "mk_finding ?f = Inr ?f"
        using assms claim_valid(1)[OF parts(1)] confidence_valid(1)[OF parts(3)]
        by (auto simp: mk_finding_def mk_advisor_query_def split: option.split)
      then show ?thesis
        using status go clock parts evidence_valid(1)[OF parts(2)]
        by (simp add: build_finding_def ad_run clockA_def escape_def valid_advice_def)
    next
      case False
      then show ?thesis
        using False status go clock claim_valid(2) evidence_valid(2) confidence_valid(2) severity_promised
        by (cases "claim_of m"; cases "evidence_of m"; cases "confidence_of m"; cases "severity_of sm m")
          (auto simp: build_finding_def ad_run)
    qed
  qed
qed

lemma judged_promised: "judge_attempt key res = Permanent f \<or> judge_attempt key res = Retry f \<Longrightarrow> promised f"
  by (auto simp: judge_attempt_def promised_def Let_def split: sum.splits if_splits)

lemma post_from_promised:
  "post_from sm schedule key rq left i failure s = (Inl e, s') \<Longrightarrow> (\<And>f. failure = Some f \<Longrightarrow> promised f) \<Longrightarrow> promised e"
proof (induction left arbitrary: i failure s)
  case 0
  then show ?case by (auto simp: liftA_run promised_def split: option.splits)
next
  case (Suc left)
  obtain res e' where t: "sm_transport sm rq (outside s) = (res, e')" by fastforce
  show ?case
  proof (cases "judge_attempt key res")
    case (Retry f)
    then show ?thesis using Suc.IH[of "Suc i" "Some f"] Suc.prems(1) t judged_promised by auto
  qed (use Suc.prems(1) t judged_promised in auto)
qed

lemma post_promised:
  assumes "mk_advisor pf environ a = Inr ad" "post sm ad payload key s = (Inl e, s')"
  shows "promised e"
  using assms(2) post_from_promised[of sm "ad_backoff ad" key _ _ 0 None s e s']
  by (simp add: post_def bindA_run liftA_run escape_def advisor_request_ok[OF assms(1)])

lemma content_promised:
  "pf \<in> {claude_profile, grok_profile, openai_profile} \<Longrightarrow> pf_content pf dumps key envelope = Inl e \<Longrightarrow> promised e"
  by (auto simp: claude_profile_def grok_profile_def openai_profile_def claude_content_def completions_content_def
      envelope_quote_def promised_def split: json.splits list.splits option.splits)

lemma cost_never_fails: "fst (record_usage sm pf model pricing project no envelope s) = Inr ()"
  by (auto simp: record_usage_def returnA_def notify_telemetry_error_def split: option.split sum.split prod.split)



lemma demo_advice:
  "map_sum id finding_claim (fst (advise (demo_seams (demo_contract (JReal (1 / 2)))) demo_advisor demo_query
     (demo_network [(503, ''busy''), (200, ''E'')]))) = Inr ''a risk''"
  by code_simp


section \<open>Delivery\<close>

lemma post_from_delivers:
  assumes "n < left" "n < length (script (outside s))" "list_all (retried key) (take n (script (outside s)))"
    and "script (outside s) ! n = Inr r" "200 \<le> rs_status r" "rs_status r < 300"
  shows "fst (post_from (scripted sm) schedule key rq left i failure s) = Inr r"
  using assms
proof (induction n arbitrary: left i failure s)
  case 0
  then obtain rs left' where "script (outside s) = Inr r # rs" "left = Suc left'"
    by (cases "script (outside s)"; cases left) auto
  then show ?case using 0 by (simp add: judge_attempt_def)
next
  case (Suc n)
  then obtain x rs left' where rs: "script (outside s) = x # rs" "left = Suc left'"
    by (cases "script (outside s)"; cases left) auto
  then obtain f where f: "judge_attempt key x = Retry f"
    using Suc.prems(3) by (auto simp: retried_def split: attempt.splits)
  show ?case using Suc.prems rs f by (auto intro!: Suc.IH)
qed

text \<open>C23: delivery: when the provider answers with a 2xx within the attempts allowed, all the outcomes
before it being retryable, the call ends with that answer.\<close>

theorem answer_delivered:
  assumes "mk_advisor pf environ a = Inr ad"
    and "int n \<le> ad_max_retries ad" "n < length (script (outside s))"
    and "list_all (retried key) (take n (script (outside s)))"
    and "script (outside s) ! n = Inr r" "200 \<le> rs_status r" "rs_status r < 300"
  shows "fst (post (scripted sm) ad payload key s) = Inr r"
proof -
  have "n < nat (ad_max_retries ad + 1)" using assms(2) by simp
  then show ?thesis
    using assms(3-) by (simp add: post_def ad_run escape_def advisor_request_ok[OF assms(1)] post_from_delivers)
qed

theorem answer_delivered_witness:
  "fst (post (scripted (demo_seams [])) demo_advisor ''{}'' ''sk-1'' (demo_network [(503, ''busy''), (429, ''slow''), (200, ''E'')]))
     = Inr \<lparr>rs_status = 200, rs_text = ''E''\<rparr>"
  by (rule answer_delivered[OF demo_advisor_made, of 2])
    (simp_all add: demo_advisor_def demo_network_def retried_def judge_attempt_def is_retryable_status_def
      HTTP_TOO_MANY_REQUESTS_def HTTP_SERVER_ERROR_def numeral_2_eq_2)

section \<open>Telemetry never changes an advice\<close>

definition undated :: "finding \<Rightarrow> finding" where
  "undated f = f\<lparr>finding_created_at := 0\<rparr>"

definition without_telemetry :: "'e seams \<Rightarrow> 'e seams" where
  "without_telemetry sm = sm\<lparr>sm_cost_sink := None, sm_telemetry_hook := None\<rparr>"

lemma without_telemetry_simps [simp]:
  "sm_transport (without_telemetry sm) = sm_transport sm" "sm_sleep (without_telemetry sm) = sm_sleep sm"
  "sm_clock (without_telemetry sm) = sm_clock sm" "sm_environ (without_telemetry sm) = sm_environ sm"
  "sm_sha1_hex (without_telemetry sm) = sm_sha1_hex sm" "sm_loads (without_telemetry sm) = sm_loads sm"
  "sm_canonical (without_telemetry sm) = sm_canonical sm" "sm_dumps (without_telemetry sm) = sm_dumps sm"
  "sm_str (without_telemetry sm) = sm_str sm" "sm_cost_sink (without_telemetry sm) = None"
  by (simp_all add: without_telemetry_def)

lemma post_from_untouched:
  "post_from (without_telemetry sm) schedule key rq left i failure s = post_from sm schedule key rq left i failure s"
  by (induction left arbitrary: i failure s) (simp_all split: prod.split attempt.split)

lemma reading_untouched [simp]:
  "resolve_api_key (without_telemetry sm) = resolve_api_key sm" "build_payload (without_telemetry sm) = build_payload sm"
  "post (without_telemetry sm) = post sm" "parse_envelope (without_telemetry sm) = parse_envelope sm"
  "parse_contract (without_telemetry sm) = parse_contract sm" "status_of (without_telemetry sm) = status_of sm"
  "severity_of (without_telemetry sm) = severity_of sm"
  by (intro ext, simp add: resolve_api_key_def environ_text_def build_payload_def user_prompt_def post_def bindA_def liftA_def
      post_from_untouched parse_envelope_def parse_contract_def status_of_def severity_of_def Let_def
      split: option.split sum.split cong: json.case_cong)+

lemma no_sink_no_record: "record_advice_cost (without_telemetry sm) ad envelope q s = (Inr (), s)"
  by (simp add: record_advice_cost_def record_usage_def returnA_run split: option.split)

lemma dated_alike:
  "map_sum id undated (escape (mk_finding \<lparr>finding_id = i, finding_source = so, finding_claim = c, finding_evidence = ev,
       finding_confidence = x, finding_severity = sev, finding_step_no = no, finding_created_at = t\<rparr>))
   = map_sum id undated (escape (mk_finding \<lparr>finding_id = i, finding_source = so, finding_claim = c, finding_evidence = ev,
       finding_confidence = x, finding_severity = sev, finding_step_no = no, finding_created_at = t'\<rparr>))"
  by (cases "require_text i"; cases "require_text so"; cases "require_text c"; cases "require_score x";
      cases "require_optional (require_int (Some 1) None) no") (simp_all add: mk_finding_def escape_def undated_def
        del: require_text_iff require_score_iff require_optional_iff)

lemma built_undated:
  "map_sum id undated (fst (build_finding (without_telemetry sm) ad m q s)) = map_sum id undated (fst (build_finding sm ad m q s'))"
  by (auto simp: build_finding_def ad_run clockA_def split: sum.split prod.split intro!: dated_alike)

text \<open>C21: cost telemetry is secondary: whatever the cost sink and the telemetry hook do, failures
included, the outcome of an advice is the one without them; only the time stamp can differ, as the
clock is read once more.\<close>

theorem telemetry_harmless:
  "map_sum id undated (fst (advise sm ad q s)) = map_sum id undated (fst (advise (without_telemetry sm) ad q s))"
proof -
  have cost: "\<exists>s2. record_advice_cost sm ad env q s1 = (Inr (), s2)" for env s1
    using cost_never_fails[of sm] unfolding record_advice_cost_def by (metis prod.collapse)
  obtain s2 where s2: "\<And>env s1. record_advice_cost sm ad env q s1 = (Inr (), s2 env s1)"
    using cost by metis
  show ?thesis
    by (auto simp: advise_def ad_run s2 no_sink_no_record built_undated[symmetric, of sm ad _ q _ ]
        intro!: built_undated[symmetric] split: sum.split prod.split)
qed

section \<open>The identity of findings\<close>

definition unrelated :: "finding \<Rightarrow> observation" where
  "unrelated f = \<lparr>obs_source = finding_source f, obs_status = Obs_FINDING, obs_finding = Some f, obs_reason = None,
     obs_relation = Rel_UNRESOLVED, obs_relation_target = None\<rparr>"

definition claimed :: "(string \<Rightarrow> string) \<Rightarrow> string \<Rightarrow> string list \<Rightarrow> finding" where
  "claimed sha1_hex claim evidence =
     \<lparr>finding_id = provider_finding_id sha1_hex ''claude'' ''m'' (Some 3) claim evidence,
      finding_source = ''claude'', finding_claim = claim, finding_evidence = evidence,
      finding_confidence = 1, finding_severity = Sev_HIGH, finding_step_no = Some 3, finding_created_at = 0\<rparr>"

text \<open>C26: the parts of a finding's identity are joined with a bar that may occur in them: two valid
findings of one advisor that differ in claim and evidence can carry the same id, and the merger refuses
the pair as an identity collision.\<close>

theorem joined_identity_collides:
  "mk_finding (claimed h ''a|b'' [''c'']) = Inr (claimed h ''a|b'' [''c''])
   \<and> mk_finding (claimed h ''a'' [''b'', ''c'']) = Inr (claimed h ''a'' [''b'', ''c''])
   \<and> merge_evidence [unrelated (claimed h ''a|b'' [''c'']), unrelated (claimed h ''a'' [''b'', ''c''])] None
     = Inl EvidenceIdentityCollisionError"
proof -
  have same: "finding_id (claimed h ''a|b'' [''c'']) = finding_id (claimed h ''a'' [''b'', ''c''])"
    by (simp add: claimed_def provider_finding_id_def)
  have other: "identity_of (claimed h ''a|b'' [''c'']) \<noteq> identity_of (claimed h ''a'' [''b'', ''c''])"
    by (simp add: identity_of_def claimed_def)
  have valid: "mk_finding (claimed h c ev) = Inr (claimed h c ev)" if "\<not> is_blank c" for c ev
    using that by (simp add: mk_finding_def claimed_def is_space_def)
  have "merge_evidence [unrelated (claimed h ''a|b'' [''c'']), unrelated (claimed h ''a'' [''b'', ''c''])] None
     = Inl EvidenceIdentityCollisionError"
    using same other
    by (simp add: merge_evidence_def merger_gate_def merge_observation_def unrelated_def merge_finding_def mg_start_def
        honoured_def anchors_of_def)
  then show ?thesis using valid by (simp add: is_space_def)
qed

end
