(* ===== verification/Judge_Adapter.thy ===== *)
theory Judge_Adapter
  imports Advice Judge
begin

text \<open>
  The judge of evidence conflicts (\<open>infrastructure/openai_judge.py\<close>): its profile and prompts, the
  request, the reading of the answer into a verdict or one of the two internal failures, the decision
  built from it, and \<open>judge\<close> itself. Transport, retry and cost record are those of the advisors. The
  texts of the failures are kept, as they end up in the rationale of the decision; Python's
  \<open>repr\<close> of a text is a parameter. The properties: a judgment always ends with a valid decision that
  speaks about nothing but its conflict, and cites only what it was given.
\<close>

section \<open>Profile and prompts\<close>

definition OPENAI_JUDGE_FALLBACK_TARGET :: string where
  "OPENAI_JUDGE_FALLBACK_TARGET = ''the disputed claim''"

definition JUDGE_ABSTAIN_FALLBACK :: string where
  "JUDGE_ABSTAIN_FALLBACK = ''the judge abstained without stating a reason''"

definition judge_system_prompt :: "string \<Rightarrow> string" where
  \<open>judge_system_prompt role =
     ''You are the "''
     @ role
     @ ''" of a deterministic architecture lifecycle assistant. You resolve exactly ONE explicit ''
     @ ''evidence conflict and nothing else. The assistant''
     @ [CHR 0x27]
     @ ''s architecture rules, validators and gates always outrank you: you never decide architecture ''
     @ ''compliance, never override a deterministic verdict and never claim authority over a rule.''
     @ [CHR 0x0A]
     @ ''Use ONLY the findings and the context you are given. Do not bring in external facts, do not ''
     @ ''browse, do not use any other knowledge and do not infer evidence that was not supplied. If ''
     @ ''the supplied evidence is insufficient to prefer one side, you must abstain.''
     @ [CHR 0x0A]
     @ ''Answer with ONE json object (RFC 8259) and nothing else, matching exactly:''
     @ [CHR 0x0A]
     @ ''{"status":"ACCEPTED"|"REJECTED"|"ABSTAIN","rationale":"<why, citing only supplied ''
     @ ''findings>","evidence_refs":["<id of a supplied finding you relied on>"],"reason":"<only for ''
     @ ''ABSTAIN; empty otherwise>"}''
     @ [CHR 0x0A]
     @ ''Rules:''
     @ [CHR 0x0A]
     @ ''- "ACCEPTED" means you favor the supporting relation for THIS conflict;''
     @ [CHR 0x0A]
     @ ''- "REJECTED" means you favor the contradicting relation for THIS conflict;''
     @ [CHR 0x0A]
     @ ''- "ABSTAIN" means you cannot resolve this conflict;''
     @ [CHR 0x0A]
     @ ''- every evidence_refs entry must be the id of a finding that was supplied to you in this ''
     @ ''request;''
     @ [CHR 0x0A]
     @ ''- never invent a finding id, never cite anything outside the supplied set, and never ''
     @ ''reference the architecture baseline.''\<close>

definition judge_profile :: profile where
  "judge_profile =
     \<lparr>pf_provider = ''openai'', pf_default_model = ''gpt-5.6'', pf_model_env = Some ''OPENAI_JUDGE_MODEL'',
      pf_role = ''Evidence Judge'',
      pf_url = ''https://api.openai.com/v1/chat/completions'', pf_key_env = ''OPENAI_API_KEY'',
      pf_api_version = [], pf_max_output = 1024, pf_auth = bearer,
      pf_system_prompt = judge_system_prompt, pf_question = [],
      pf_body = completions_body, pf_content = completions_content,
      pf_usage_keys = (''prompt_tokens'', ''completion_tokens'')\<rparr>"

definition judge_model :: "(string \<Rightarrow> string option) \<Rightarrow> string option \<Rightarrow> string" where
  "judge_model environ model = resolve_model judge_profile environ model"

definition judge_adapter :: "(string \<Rightarrow> string option) \<Rightarrow> advisor_args \<Rightarrow> exn + advisor" where
  "judge_adapter environ a = mk_advisor judge_profile environ a"

definition judge_is_configured :: "'e seams \<Rightarrow> advisor \<Rightarrow> bool" where
  "judge_is_configured sm ad = is_configured sm ad"

text \<open>\<open>str(value)\<close>, and the truth value of what \<open>json.loads\<close> returns.\<close>

definition py_str :: "'e seams \<Rightarrow> json \<Rightarrow> string" where
  "py_str sm j = (case j of JStr s \<Rightarrow> s | _ \<Rightarrow> sm_str sm j)"

definition truthy :: "json \<Rightarrow> bool" where
  "truthy j = (case j of JNull \<Rightarrow> False | JBool b \<Rightarrow> b | JInt i \<Rightarrow> i \<noteq> 0 | JReal x \<Rightarrow> x \<noteq> 0 | JTime t \<Rightarrow> True
     | JStr s \<Rightarrow> s \<noteq> [] | JList xs \<Rightarrow> xs \<noteq> [] | JObj m \<Rightarrow> m \<noteq> [])"

definition target_of :: "'e seams \<Rightarrow> judge_conflict \<Rightarrow> string" where
  "target_of sm c =
     (let t = json_field ''target'' (jc_context c) in
      if truthy t then py_str sm t else OPENAI_JUDGE_FALLBACK_TARGET)"

definition shared_step_no :: "judge_conflict \<Rightarrow> int option" where
  "shared_step_no c = (case remdups (map finding_step_no (jc_findings c)) of [n] \<Rightarrow> n | _ \<Rightarrow> None)"

definition id_list :: "'e seams \<Rightarrow> json \<Rightarrow> string" where
  "id_list sm v = (case v of JList (x # xs) \<Rightarrow> join '', '' (map (py_str sm) (x # xs)) | _ \<Rightarrow> ''none'')"

definition finding_payload :: "finding \<Rightarrow> json" where
  "finding_payload f =
     JObj [(''id'', JStr (finding_id f)), (''source'', JStr (finding_source f)),
       (''claim'', JStr (finding_claim f)), (''evidence'', json_texts (finding_evidence f)),
       (''confidence'', JReal (finding_confidence f)), (''severity'', JStr (severity_value (finding_severity f))),
       (''step_no'', json_opt JInt (finding_step_no f))]"

definition judge_user_prompt :: "'e seams \<Rightarrow> judge_conflict \<Rightarrow> string" where
  "judge_user_prompt sm c =
     ''Conflict: '' @ jc_question c @ newline
     @ ''Target: '' @ target_of sm c @ newline
     @ ''Supporting finding ids: '' @ id_list sm (json_field ''supporting_ids'' (jc_context c)) @ newline
     @ ''Contradicting finding ids: '' @ id_list sm (json_field ''contradicting_ids'' (jc_context c)) @ newline
     @ ''Supplied findings (json):'' @ newline
     @ sm_canonical sm (JList (map finding_payload (jc_findings c))) @ newline
     @ ''Supplied context (json):'' @ newline
     @ sm_canonical sm (JObj (jc_context c))"

definition judge_payload :: "'e seams \<Rightarrow> advisor \<Rightarrow> judge_conflict \<Rightarrow> string" where
  "judge_payload sm ad c =
     sm_canonical sm (completions_body (ad_model ad) (judge_system_prompt (ad_role ad)) (judge_user_prompt sm c)
       (ad_max_output ad))"

section \<open>Failures\<close>

datatype judge_stop = Judge_Abstain string | Judge_Failure string

text \<open>The reason of an abstention: the text given, or the documented fallback for a blank one.\<close>

definition judge_abstain :: "string \<Rightarrow> judge_stop" where
  "judge_abstain reason = Judge_Abstain (if is_blank reason then JUDGE_ABSTAIN_FALLBACK else strip reason)"

definition judge_api_key :: "'e seams \<Rightarrow> advisor \<Rightarrow> judge_stop + string" where
  "judge_api_key sm ad =
     (case ad_api_key ad of
        Some k \<Rightarrow> Inr k
      | None \<Rightarrow>
          (let v = environ_text sm ''OPENAI_API_KEY'' in
           if is_blank v
           then Inl (Judge_Failure (''no OpenAI API key available: pass api_key=... or set the ''
                  @ ''OPENAI_API_KEY environment variable''))
           else Inr v))"

definition judge_status_message :: "int \<Rightarrow> string \<Rightarrow> string" where
  "judge_status_message s detail =
     ''the judge request failed with HTTP '' @ show_int s @ (if detail = [] then [] else '': '' @ detail)"

text \<open>What the judge says of a failure of the shared delivery.\<close>

definition judge_failure_text :: "'e seams \<Rightarrow> advisor \<Rightarrow> advisor_error \<Rightarrow> string" where
  "judge_failure_text sm ad e =
     (case e of
        Advisor_Transport t \<Rightarrow> t
      | Advisor_Timeout \<Rightarrow> ''the request timed out after '' @ sm_str sm (JReal (ad_timeout ad)) @ ''s''
      | Advisor_Rate_Limit s d \<Rightarrow> judge_status_message s d
      | Advisor_Http s d \<Rightarrow> judge_status_message s d
      | _ \<Rightarrow> ''the judge request failed without a cause'')"

definition judge_post :: "'e seams \<Rightarrow> advisor \<Rightarrow> string \<Rightarrow> string \<Rightarrow> 'e adapter_state \<Rightarrow> (judge_stop + http_response) \<times> 'e adapter_state" where
  "judge_post sm ad payload key s =
     (case post sm ad payload key s of (r, s') \<Rightarrow>
       (case r of Inl e \<Rightarrow> (Inl (Judge_Failure (judge_failure_text sm ad e)), s') | Inr x \<Rightarrow> (Inr x, s')))"

section \<open>Reading the answer\<close>

primrec type_name :: "json \<Rightarrow> string" where
  "type_name JNull = ''NoneType''"
| "type_name (JBool b) = ''bool''"
| "type_name (JInt i) = ''int''"
| "type_name (JReal x) = ''float''"
| "type_name (JTime t) = ''str''"
| "type_name (JStr s) = ''str''"
| "type_name (JList xs) = ''list''"
| "type_name (JObj m) = ''dict''"

definition judge_envelope :: "'e seams \<Rightarrow> string \<Rightarrow> http_response \<Rightarrow> judge_stop + mapping" where
  "judge_envelope sm key r =
     (case sm_loads sm (rs_text r) of
        None \<Rightarrow> Inl (Judge_Failure (''the judge returned a body that is not JSON: ''
                  @ excerpt (redact (rs_text r) (Some key)) BODY_EXCERPT_LIMIT))
      | Some (JObj m) \<Rightarrow> Inr m
      | Some j \<Rightarrow> Inl (Judge_Failure (''the judge response must be a JSON object; got '' @ type_name j)))"

definition judge_content :: "'e seams \<Rightarrow> string \<Rightarrow> mapping \<Rightarrow> judge_stop + string" where
  "judge_content sm key envelope =
     (case json_field ''choices'' envelope of
        JList (c # cs) \<Rightarrow>
          (case choice_content c of
             None \<Rightarrow> Inl (Judge_Failure ''the judge response carries no assistant content'') | Some t \<Rightarrow> Inr t)
      | _ \<Rightarrow> Inl (Judge_Failure (''the judge response carries no choices: ''
               @ excerpt (redact (sm_dumps sm (JObj envelope)) (Some key)) BODY_EXCERPT_LIMIT)))"

record judge_verdict =
  verdict_status :: decision_status
  verdict_rationale :: string
  verdict_refs :: "string list"

definition VERDICT_STATUSES :: "(string \<times> decision_status) list" where
  "VERDICT_STATUSES = [(''ACCEPTED'', Decision_ACCEPTED), (''REJECTED'', Decision_REJECTED), (''ABSTAIN'', Decision_ABSTAIN)]"

primrec cited_refs :: "(string \<Rightarrow> string) \<Rightarrow> string list \<Rightarrow> json list \<Rightarrow> string list \<Rightarrow> judge_stop + string list" where
  "cited_refs repr known [] refs = Inr refs"
| \<open>cited_refs repr known (x # xs) refs =
     (case x of
        JStr s \<Rightarrow>
          if is_blank s then Inl (Judge_Failure ''every "evidence_refs" entry must be a non-empty string'')
          else if strip s \<notin> set known
          then Inl (Judge_Failure (''the judge cited '' @ repr (excerpt (strip s) 60)
                 @ '', which is not one of the supplied findings''))
          else if strip s \<in> set refs
          then Inl (Judge_Failure (''the judge cited '' @ repr (excerpt (strip s) 60) @ '' more than once''))
          else cited_refs repr known xs (refs @ [strip s])
      | _ \<Rightarrow> Inl (Judge_Failure ''every "evidence_refs" entry must be a non-empty string''))\<close>

definition judge_refs_of :: "(string \<Rightarrow> string) \<Rightarrow> mapping \<Rightarrow> judge_conflict \<Rightarrow> judge_stop + string list" where
  \<open>judge_refs_of repr m c =
     (case json_field ''evidence_refs'' m of
        JList xs \<Rightarrow>
          (case cited_refs repr (map finding_id (jc_findings c)) xs [] of
             Inl e \<Rightarrow> Inl e
           | Inr refs \<Rightarrow>
               if refs = []
               then Inl (Judge_Failure ''the judge answer field "evidence_refs" must cite at least one supplied finding'')
               else Inr refs)
      | _ \<Rightarrow> Inl (Judge_Failure ''the judge answer field "evidence_refs" must be a list of finding ids''))\<close>

definition verdict_text :: "'e seams \<Rightarrow> judge_conflict \<Rightarrow> decision_status \<Rightarrow> string \<Rightarrow> string" where
  "verdict_text sm c status detail =
     ''About the explicit evidence conflict on '' @ target_of sm c @ '' only, the judge favors the ''
     @ (if status = Decision_ACCEPTED then ''supporting'' else ''contradicting'')
     @ '' relation. This is not a statement about architecture compliance and the deterministic gate ''
     @ ''verdict is unchanged. Judge rationale: '' @ detail"

definition parse_verdict :: "'e seams \<Rightarrow> (string \<Rightarrow> string) \<Rightarrow> string \<Rightarrow> judge_conflict \<Rightarrow> string \<Rightarrow> judge_stop + judge_verdict" where
  \<open>parse_verdict sm repr content c key =
     (let t = strip content in
      case sm_loads sm t of
        None \<Rightarrow> Inl (Judge_Failure (''the judge answer is not JSON: '' @ excerpt (redact t (Some key)) BODY_EXCERPT_LIMIT))
      | Some (JObj m) \<Rightarrow>
          (let raw = json_field ''status'' m in
           case map_of VERDICT_STATUSES (case raw of JStr s \<Rightarrow> upper (strip s) | _ \<Rightarrow> []) of
             None \<Rightarrow> Inl (Judge_Failure (''the judge answer field "status" must be "ACCEPTED", "REJECTED" ''
                       @ ''or "ABSTAIN"; got '' @ repr (excerpt (py_str sm raw) 40)))
           | Some status \<Rightarrow>
               if status = Decision_ABSTAIN
               then Inl (judge_abstain (case json_field ''reason'' m of JStr s \<Rightarrow> s | _ \<Rightarrow> []))
               else
                 (case json_field ''rationale'' m of
                    JStr s \<Rightarrow>
                      if is_blank s
                      then Inl (Judge_Failure ''the judge answer field "rationale" must be a non-empty string'')
                      else
                        (case judge_refs_of repr m c of
                           Inl e \<Rightarrow> Inl e
                         | Inr refs \<Rightarrow>
                             Inr \<lparr>verdict_status = status,
                               verdict_rationale = verdict_text sm c status
                                 (excerpt (redact (strip s) (Some key)) BODY_EXCERPT_LIMIT),
                               verdict_refs = refs\<rparr>)
                  | _ \<Rightarrow> Inl (Judge_Failure ''the judge answer field "rationale" must be a non-empty string'')))
      | Some j \<Rightarrow> Inl (Judge_Failure (''the judge answer must be a JSON object; got '' @ type_name j)))\<close>

section \<open>The decision\<close>

definition outcome_text :: "decision_status \<Rightarrow> string" where
  "outcome_text status =
     (case status of
        Decision_ACCEPTED \<Rightarrow> ''evidence conflict resolution: the judge favors the supporting relation''
      | Decision_REJECTED \<Rightarrow> ''evidence conflict resolution: the judge favors the contradicting relation''
      | Decision_ABSTAIN \<Rightarrow> ''evidence conflict resolution: the judge cannot resolve this conflict''
      | _ \<Rightarrow> ''evidence conflict resolution: the judge execution failed'')"

definition judge_decision_id :: "'e seams \<Rightarrow> judge_conflict \<Rightarrow> decision_status \<Rightarrow> int option \<Rightarrow> string" where
  "judge_decision_id sm c status no =
     (let parts = target_of sm c # sort (map finding_id (jc_findings c)) @ [decision_status_value status];
          digest = take 12 (sm_sha1_hex sm (join ''|'' parts))
      in ''judge-'' @ show_int (case no of None \<Rightarrow> 0 | Some n \<Rightarrow> n) @ ''-'' @ digest)"

definition build_decision ::
    "'e seams \<Rightarrow> judge_conflict \<Rightarrow> decision_status \<Rightarrow> string \<Rightarrow> string list
     \<Rightarrow> 'e adapter_state \<Rightarrow> (exn + decision) \<times> 'e adapter_state" where
  "build_decision sm c status rationale refs s =
     (case sm_clock sm (outside s) of (now, e) \<Rightarrow>
       (mk_decision
          \<lparr>decision_id = judge_decision_id sm c status (shared_step_no c), decision_status = status,
           decision_decision = outcome_text status @ '' (conflict on '' @ target_of sm c @ '')'',
           decision_rationale = rationale, decision_rules_applied = [], decision_evidence_refs = refs,
           decision_perspectives =
             sort (remdups (map finding_source (filter (\<lambda>f. finding_id f \<in> set refs) (jc_findings c)))),
           decision_step_no = shared_step_no c, decision_created_at = now\<rparr>,
        s\<lparr>outside := e\<rparr>))"

definition record_judge_cost :: "'e seams \<Rightarrow> advisor \<Rightarrow> mapping \<Rightarrow> judge_conflict \<Rightarrow> ('e, unit) ad" where
  "record_judge_cost sm ad envelope c =
     record_usage sm judge_profile (ad_model ad) (ad_pricing ad) (ad_project ad) (shared_step_no c) envelope"

text \<open>The body of the \<open>try\<close>.\<close>

definition ask_judge ::
    "'e seams \<Rightarrow> (string \<Rightarrow> string) \<Rightarrow> advisor \<Rightarrow> judge_conflict \<Rightarrow> 'e adapter_state
     \<Rightarrow> (judge_stop + judge_verdict) \<times> 'e adapter_state" where
  "ask_judge sm repr ad c s =
     (case judge_api_key sm ad of
        Inl f \<Rightarrow> (Inl f, s)
      | Inr key \<Rightarrow>
          (case judge_post sm ad (judge_payload sm ad c) key s of
             (Inl f, s1) \<Rightarrow> (Inl f, s1)
           | (Inr response, s1) \<Rightarrow>
               (case judge_envelope sm key response of
                  Inl f \<Rightarrow> (Inl f, s1)
                | Inr envelope \<Rightarrow>
                    (case judge_content sm key envelope of
                       Inl f \<Rightarrow> (Inl f, s1)
                     | Inr content \<Rightarrow>
                         (parse_verdict sm repr content c key, snd (record_judge_cost sm ad envelope c s1))))))"

definition judge :: "'e seams \<Rightarrow> (string \<Rightarrow> string) \<Rightarrow> advisor \<Rightarrow> 'e adapter_state judge_port" where
  "judge sm repr ad c s =
     (case ask_judge sm repr ad c (s\<lparr>last_telemetry_error := None\<rparr>) of
        (Inl (Judge_Abstain reason), s') \<Rightarrow>
          build_decision sm c Decision_ABSTAIN
            (''The judge could not resolve this evidence conflict: '' @ reason) [] s'
      | (Inl (Judge_Failure message), s') \<Rightarrow>
          build_decision sm c Decision_ERROR
            (''The judge execution failed, so this evidence conflict stays unresolved: '' @ message) [] s'
      | (Inr v, s') \<Rightarrow> build_decision sm c (verdict_status v) (verdict_rationale v) (verdict_refs v) s')"

section \<open>Every judgment is a decision about its conflict\<close>

definition decision_of ::
    "'e seams \<Rightarrow> judge_conflict \<Rightarrow> decision_status \<Rightarrow> string \<Rightarrow> string list \<Rightarrow> datetime \<Rightarrow> decision" where
  "decision_of sm c status rationale refs now =
     \<lparr>decision_id = judge_decision_id sm c status (shared_step_no c), decision_status = status,
      decision_decision = outcome_text status @ '' (conflict on '' @ target_of sm c @ '')'',
      decision_rationale = rationale, decision_rules_applied = [], decision_evidence_refs = refs,
      decision_perspectives =
        sort (remdups (map finding_source (filter (\<lambda>f. finding_id f \<in> set refs) (jc_findings c)))),
      decision_step_no = shared_step_no c, decision_created_at = now\<rparr>"

lemma decision_of_simps [simp]:
  "decision_status (decision_of sm c status rationale refs now) = status"
  "decision_rules_applied (decision_of sm c status rationale refs now) = []"
  "decision_evidence_refs (decision_of sm c status rationale refs now) = refs"
  "decision_perspectives (decision_of sm c status rationale refs now)
     = sort (remdups (map finding_source (filter (\<lambda>f. finding_id f \<in> set refs) (jc_findings c))))"
  by (simp_all add: decision_of_def)

definition valid_conflict :: "judge_conflict \<Rightarrow> bool" where
  "valid_conflict c \<longleftrightarrow> mk_judge_conflict c = Inr c \<and> list_all (\<lambda>f. mk_finding f = Inr f) (jc_findings c)"

lemma shared_step_positive:
  assumes "valid_conflict c" "shared_step_no c = Some n"
  shows "1 \<le> n"
proof -
  have "Some n \<in> set (map finding_step_no (jc_findings c))"
    using assms(2) unfolding shared_step_no_def
    by (metis (no_types, lifting) list.case_eq_if list.set_intros(1) list.collapse option.distinct(1) set_remdups)
  then obtain f where "f \<in> set (jc_findings c)" "finding_step_no f = Some n" by auto
  then show ?thesis using assms(1) by (auto simp: valid_conflict_def list_all_iff mk_finding_def)
qed

lemma decision_of_valid:
  assumes "valid_conflict c"
  shows "mk_decision (decision_of sm c status rationale refs now) = Inr (decision_of sm c status rationale refs now)"
  using shared_step_positive[OF assms]
  by (auto simp: mk_decision_def decision_of_def judge_decision_id_def Let_def is_space_def)

lemma build_decision_run:
  "valid_conflict c \<Longrightarrow> sm_clock sm (outside s) = (now, e) \<Longrightarrow>
     build_decision sm c status rationale refs s = (Inr (decision_of sm c status rationale refs now), s\<lparr>outside := e\<rparr>)"
  using decision_of_valid[of c sm status rationale refs now] by (simp add: build_decision_def decision_of_def)

lemma cited_refs_supplied:
  "cited_refs repr known xs refs = Inr refs' \<Longrightarrow> distinct refs \<Longrightarrow> set refs \<subseteq> set known \<Longrightarrow>
     distinct refs' \<and> set refs' \<subseteq> set known"
  by (induction xs arbitrary: refs) (auto split: json.splits if_splits)

lemma judge_refs_supplied:
  "judge_refs_of repr m c = Inr refs \<Longrightarrow>
     refs \<noteq> [] \<and> distinct refs \<and> set refs \<subseteq> finding_id ` set (jc_findings c)"
  using cited_refs_supplied[of repr "map finding_id (jc_findings c)" _ "[]"]
  by (auto simp: judge_refs_of_def split: json.splits sum.splits if_splits)

lemma verdict_status_declared:
  "map_of VERDICT_STATUSES t = Some st \<Longrightarrow> st = Decision_ACCEPTED \<or> st = Decision_REJECTED \<or> st = Decision_ABSTAIN"
  by (auto simp: VERDICT_STATUSES_def split: if_splits)

lemma verdict_refs_supplied:
  assumes v: "parse_verdict sm repr content c key = Inr v"
  shows "verdict_refs v \<noteq> [] \<and> distinct (verdict_refs v) \<and> set (verdict_refs v) \<subseteq> finding_id ` set (jc_findings c)
     \<and> (verdict_status v = Decision_ACCEPTED \<or> verdict_status v = Decision_REJECTED)"
proof -
  obtain m where m: "sm_loads sm (strip content) = Some (JObj m)"
    using v by (cases "sm_loads sm (strip content)"; cases "the (sm_loads sm (strip content))")
      (simp_all add: parse_verdict_def Let_def)
  obtain status where status:
    "map_of VERDICT_STATUSES (case json_field ''status'' m of JStr s \<Rightarrow> upper (strip s) | _ \<Rightarrow> []) = Some status"
    using v m by (cases "map_of VERDICT_STATUSES (case json_field ''status'' m of JStr s \<Rightarrow> upper (strip s) | _ \<Rightarrow> [])")
      (simp_all add: parse_verdict_def Let_def)
  have settled: "status \<noteq> Decision_ABSTAIN"
    using v m status by (cases "status = Decision_ABSTAIN") (simp_all add: parse_verdict_def Let_def)
  obtain s where s: "json_field ''rationale'' m = JStr s"
    using v m status settled by (cases "json_field ''rationale'' m") (simp_all add: parse_verdict_def Let_def)
  have "\<not> is_blank s"
    using v m status settled s by (cases "is_blank s") (simp_all add: parse_verdict_def Let_def)
  then obtain refs where refs: "judge_refs_of repr m c = Inr refs"
    using v m status settled s by (cases "judge_refs_of repr m c") (simp_all add: parse_verdict_def Let_def)
  have "verdict_refs v = refs" "verdict_status v = status"
    using v m status settled s refs \<open>\<not> is_blank s\<close> by (auto simp: parse_verdict_def Let_def)
  then show ?thesis using judge_refs_supplied[OF refs] verdict_status_declared[OF status] settled by simp
qed

lemma asked_verdict:
  "ask_judge sm repr ad c s = (Inr v, s') \<Longrightarrow> \<exists>content key. parse_verdict sm repr content c key = Inr v"
  by (auto simp: ask_judge_def split: sum.splits prod.splits)

lemma judge_run:
  assumes "valid_conflict c"
  shows "\<exists>status rationale refs now s'. judge sm repr ad c s = (Inr (decision_of sm c status rationale refs now), s')
     \<and> (refs = [] \<and> (status = Decision_ABSTAIN \<or> status = Decision_ERROR)
        \<or> refs \<noteq> [] \<and> distinct refs \<and> set refs \<subseteq> finding_id ` set (jc_findings c)
          \<and> (status = Decision_ACCEPTED \<or> status = Decision_REJECTED))"
proof -
  obtain r s1 where ask: "ask_judge sm repr ad c (s\<lparr>last_telemetry_error := None\<rparr>) = (r, s1)" by fastforce
  obtain now e where clock: "sm_clock sm (outside s1) = (now, e)" by fastforce
  note run = build_decision_run[OF assms clock]
  show ?thesis
  proof (cases r)
    case (Inl stop)
    then show ?thesis using ask run by (cases stop) (auto simp: judge_def)
  next
    case (Inr v)
    then obtain content key where "parse_verdict sm repr content c key = Inr v" using ask asked_verdict by blast
    then show ?thesis using verdict_refs_supplied Inr ask run by (fastforce simp: judge_def)
  qed
qed

lemma judge_always_run:
  assumes "valid_conflict c"
  shows "\<exists>d s'. judge sm repr ad c s = (Inr d, s') \<and> mk_decision d = Inr d"
  using judge_run[OF assms, of sm repr ad s] decision_of_valid[OF assms] by blast

lemma judged_refs:
  "valid_conflict c \<Longrightarrow> judge sm repr ad c s = (Inr d, s') \<Longrightarrow>
     set (decision_evidence_refs d) \<subseteq> finding_id ` set (jc_findings c)"
  using judge_run[of c sm repr ad s] by auto


text \<open>A judgment cites only what it was given: the references of the decision are ids of findings of
its conflict, none twice, and its perspectives are the sources of the cited findings.\<close>

theorem judge_cites_supplied:
  assumes "valid_conflict c" "judge sm repr ad c s = (Inr d, s')"
  shows "distinct (decision_evidence_refs d)
     \<and> set (decision_evidence_refs d) \<subseteq> finding_id ` set (jc_findings c)
     \<and> set (decision_perspectives d)
       = finding_source ` {f \<in> set (jc_findings c). finding_id f \<in> set (decision_evidence_refs d)}"
  using judge_run[OF assms(1), of sm repr ad s] assms(2) by auto

section \<open>A concrete judge\<close>

definition demo_conflict :: judge_conflict where
  "demo_conflict =
     \<lparr>jc_question = ''which one?'', jc_findings = [claimed (\<lambda>t. ''0123456789abcdef'') ''a'' [''b'']],
      jc_context = [(''target'', JStr ''RULE-1'')]\<rparr>"

definition demo_verdict_text :: json where
  "demo_verdict_text =
     JObj [(''status'', JStr ''accepted''), (''rationale'', JStr ''it holds''),
       (''evidence_refs'', JList [JStr ''finding-claude-3-0123456789ab'']), (''reason'', JStr [])]"

definition demo_judge_seams :: "network seams" where
  "demo_judge_seams = (demo_seams [])\<lparr>sm_loads := (\<lambda>t.
     if t = ''E'' then Some (JObj [(''choices'', JList [JObj [(''message'', JObj [(''content'', JStr ''V'')])]])])
     else if t = ''V'' then Some demo_verdict_text else None)\<rparr>"

lemma demo_conflict_valid: "valid_conflict demo_conflict"
  by code_simp

lemma demo_judgment:
  "map_sum id (\<lambda>d. (decision_status d, decision_evidence_refs d, decision_perspectives d))
     (fst (judge demo_judge_seams id (demo_advisor\<lparr>ad_profile := judge_profile\<rparr>) demo_conflict (demo_network [(200, ''E'')])))
   = Inr (Decision_ACCEPTED, [''finding-claude-3-0123456789ab''], [''claude''])"
  by code_simp


theorem judge_cites_supplied_witness:
  "map_sum id (\<lambda>d. distinct (decision_evidence_refs d)
       \<and> set (decision_evidence_refs d) \<subseteq> finding_id ` set (jc_findings demo_conflict)
       \<and> set (decision_perspectives d)
         = finding_source ` {f \<in> set (jc_findings demo_conflict). finding_id f \<in> set (decision_evidence_refs d)})
     (fst (judge demo_judge_seams id (demo_advisor\<lparr>ad_profile := judge_profile\<rparr>) demo_conflict (demo_network [(200, ''E'')])))
   = Inr True"
proof (cases "judge demo_judge_seams id (demo_advisor\<lparr>ad_profile := judge_profile\<rparr>) demo_conflict (demo_network [(200, ''E'')])")
  case (Pair r s')
  then obtain d where "r = Inr d" using demo_judgment by (cases r) auto
  then show ?thesis using judge_cites_supplied[OF demo_conflict_valid] Pair by simp
qed

section \<open>The judge in its use-case\<close>

lemma found_in_view:
  assumes "finding_in_view v i = Inr f"
  shows "f \<in> set (view_findings v)"
proof -
  have "filter (\<lambda>f. finding_id f = i) (view_findings v) = [f]"
    using assms by (auto simp: finding_in_view_def split: list.splits)
  then have "f \<in> set (filter (\<lambda>f. finding_id f = i) (view_findings v))" by simp
  then show ?thesis by simp
qed

lemma mapE_found: "mapE (finding_in_view v) is = Inr fs \<Longrightarrow> set fs \<subseteq> set (view_findings v)"
  by (induction "is" arbitrary: fs) (auto dest: found_in_view)

lemma built_conflict_valid:
  assumes "list_all (\<lambda>f. mk_finding f = Inr f) (view_findings v)" "build_judge_conflict c v = Inr j"
  shows "valid_conflict j"
proof -
  have "set (jc_findings j) \<subseteq> set (view_findings v)" "mk_judge_conflict j = Inr j"
    using assms(2) mapE_found by (fastforce simp: build_judge_conflict_def mk_judge_conflict_def Let_def)+
  then show ?thesis using assms(1) by (auto simp: valid_conflict_def list_all_iff)
qed

definition answers :: "judge_conflict \<Rightarrow> judge_judgment \<Rightarrow> bool" where
  "answers j k \<longleftrightarrow> mk_decision (judgment_decision k) = Inr (judgment_decision k)
     \<and> set (decision_evidence_refs (judgment_decision k)) \<subseteq> finding_id ` set (jc_findings j)"

lemma judge_all_answers:
  assumes "list_all (\<lambda>f. mk_finding f = Inr f) (view_findings v)" "mapE (\<lambda>c. build_judge_conflict c v) cs = Inr js"
  shows "\<exists>ks s'. judge_all (judge sm repr ad) v cs s = (Inr ks, s') \<and> map judgment_conflict ks = cs \<and> list_all2 answers js ks"
  using assms(2)
proof (induction cs arbitrary: js s)
  case (Cons c cs)
  then obtain j js' where j: "build_judge_conflict c v = Inr j" "mapE (\<lambda>c. build_judge_conflict c v) cs = Inr js'" "js = j # js'"
    by auto
  note valid = built_conflict_valid[OF assms(1) j(1)]
  obtain d s1 where d: "judge sm repr ad j s = (Inr d, s1)" "mk_decision d = Inr d"
    using judge_always_run[OF valid] by blast
  obtain ks s2 where ks: "judge_all (judge sm repr ad) v cs s1 = (Inr ks, s2)" "map judgment_conflict ks = cs" "list_all2 answers js' ks"
    using Cons.IH[OF j(2)] by blast
  have "answers j \<lparr>judgment_conflict = c, judgment_decision = d\<rparr>"
    using d judged_refs[OF valid d(1)] by (simp add: answers_def)
  then show ?case using j d ks by (auto simp: bindM_def liftE_def returnM_def)
qed (simp add: returnM_def)


definition contested_view :: view where
  "contested_view = demo_view\<lparr>view_conflicts := take 1 (view_conflicts demo_view)\<rparr>"


end
