(* ===== verification/Catalogue.thy ===== *)
theory Catalogue
  imports Evolution Architecture
begin

text \<open>
  The canonical specifications the bootstrap and the composition root declare: the retrospective ADRs and the
  risks of \<open>application/architecture_bootstrap.py\<close>, the composition-root ADR of
  \<open>application/architecture_versioning.py\<close> and the declared change of \<open>composition/evolution.py\<close>.
  The text of \<open>RETROSPECTIVE_NOTE\<close> holds an en dash, a character above \<open>U+00FF\<close>; it is an argument.
\<close>

section \<open>Bootstrap\<close>

definition BOOTSTRAP_ADRS :: "string \<Rightarrow> adr_spec list" where
  "BOOTSTRAP_ADRS note =
    [\<lparr>spec_id = ''ADR-001'',
      spec_title = ''Dependency-free domain layer'',
      spec_rationale =
        ''The domain must stay pure state: frozen standard-library dataclasses, enums and a '' @
        ''deterministic FSM, with no persistence, network or UI concerns.'',
      spec_decision =
        ''Keep the domain dependency-free; every side effect lives behind ports implemented by '' @
        ''outer layers.'',
      spec_consequences =
        [''Domain behaviour is deterministic and trivially testable'',
         ''No third-party runtime dependency in the domain''],
      spec_related = [''ADR-004''],
      spec_provenance = note\<rparr>,
     \<lparr>spec_id = ''ADR-002'',
      spec_title = ''SQLite as the source of truth'',
      spec_rationale =
        ''State must survive restarts while staying inspectable and queryable, and exports '' @
        ''must never become authoritative.'',
      spec_decision =
        ''SQLite is the single source of truth, stored column-per-field, evolved through '' @
        ''versioned, atomic migrations.'',
      spec_consequences =
        [''Crash-safe, restart-recoverable state'',
         ''Exports and reports are derived views only''],
      spec_related = [''ADR-005''],
      spec_provenance = note\<rparr>,
     \<lparr>spec_id = ''ADR-003'',
      spec_title = ''Deterministic finite state machine'',
      spec_rationale =
        ''The Assistant <-> worker loop must be driven by explicit states and events rather '' @
        ''than ad-hoc flags.'',
      spec_decision =
        ''Model the step lifecycle as a transition table with VERIFIED and ABORTED as the only '' @
        ''terminal states.'',
      spec_consequences =
        [''Every illegal transition raises instead of silently corrupting state'',
         ''Retries and human overrides plug into one state vocabulary''],
      spec_related = [''ADR-004''],
      spec_provenance = note\<rparr>,
     \<lparr>spec_id = ''ADR-004'',
      spec_title = ''Ports and adapters with inward dependency direction'',
      spec_rationale =
        ''Storage, workers, advisors and plugins must be replaceable without touching the '' @
        ''core.'',
      spec_decision =
        ''Depend on structural Protocol ports; keep implementations in the infrastructure '' @
        ''layer so dependencies always point inward.'',
      spec_consequences =
        [''The architecture validator can enforce the dependency direction'',
         ''Adapters are swappable and independently testable''],
      spec_related = [''ADR-005'',
         ''ADR-006''],
      spec_provenance = note\<rparr>,
     \<lparr>spec_id = ''ADR-005'',
      spec_title = ''A single transaction boundary'',
      spec_rationale =
        ''Domain writes and their audit entries must commit or roll back together, without '' @
        ''competing transaction abstractions.'',
      spec_decision =
        ''One TransactionPort owns commit/rollback; StoragePort reuses it and repository '' @
        ''adapters never commit while a boundary is active.'',
      spec_consequences =
        [''Audit history can never drift from the state it describes'',
         ''Callers group several repository writes into one atomic unit''],
      spec_related = [''ADR-002''],
      spec_provenance = note\<rparr>,
     \<lparr>spec_id = ''ADR-006'',
      spec_title = ''Hybrid plugin core with explicit defaults'',
      spec_rationale =
        ''Several interchangeable adapters per capability must coexist without the registry '' @
        ''encoding runtime policy.'',
      spec_decision =
        ''The registry stores any number of named adapters per capability and keeps an '' @
        ''explicit, deterministic default that configuration can change without '' @
        ''re-registration.'',
      spec_consequences =
        [''Worker, judge, notifier and reporting adapters stay pluggable'',
         ''Deterministic, testable plugin loading with no dynamic imports''],
      spec_related = [''ADR-007''],
      spec_provenance = note\<rparr>,
     \<lparr>spec_id = ''ADR-007'',
      spec_title = ''Cline file-channel worker adapter'',
      spec_rationale =
        ''An external worker communicates through files, so dispatch and report collection '' @
        ''need an atomic, restart-safe channel.'',
      spec_decision =
        ''Dispatch writes the context first and the attempt-scoped task file last as a commit '' @
        ''marker; reports are read without mutation and only acknowledged after the caller '' @
        ''durably accepted the result.'',
      spec_consequences =
        [''At-least-once report delivery with explicit acknowledgement'',
         ''Corrupt or mismatching reports stay on disk for inspection''],
      spec_related = [''ADR-006''],
      spec_provenance = note\<rparr>,
     \<lparr>spec_id = ''ADR-009'',
      spec_title = ''Human approval gate as its own controlled write path'',
      spec_rationale =
        ''The loop stops on WAITING_APPROVAL and the authoritative FSM defines APPROVE and '' @
        ''REJECT for that state, but the approval policy requests approval for a large part of '' @
        ''the operating matrix (MANUAL always, SUPERVISED above LOW, AUTO above MEDIUM, and '' @
        ''any step flagged requires_human). Without an explicit approval path that whole part '' @
        ''of the workflow could only be aborted.'',
      spec_decision =
        ''ApprovalGate is the approval human path: it applies exactly the APPROVE '' @
        ''(WAITING_APPROVAL -> DISPATCHED) and REJECT (WAITING_APPROVAL -> READY) transitions '' @
        ''of the authoritative FSM, publishes the same deterministic task artifacts the loop '' @
        ''publishes for an approved dispatch, and writes one Task row plus exactly one audit '' @
        ''entry inside one transaction. HumanOverride remains the state-control human path, '' @
        ''and the two are wired apart.'',
      spec_consequences =
        [''An approval-gated step can complete in V1 instead of only aborting'',
         ''Filesystem publication and the DB commit are crash-safe, replay-safe and fail-closed '' @
         ''- explicitly not one atomic transaction'',
         ''Two scoped human write paths instead of one; neither may reach VERIFIED and neither '' @
         ''may bypass the FSM''],
      spec_related = [''ADR-004'',
         ''ADR-005''],
      spec_provenance = note\<rparr>,
     \<lparr>spec_id = ''ADR-010'',
      spec_title = ''V1 freeze: documented limitations and operator procedures'',
      spec_rationale =
        ''The V1 final review must freeze an explicit boundary: which limitations are accepted '' @
        ''for V1, which are operational procedures, and which are deferred - so nothing is '' @
        ''silently promised and no future step has to re-derive the decision.'',
      spec_decision =
        ''V1 freezes with documented limitations: a latent REVISE dead end that the loop path '' @
        ''cannot reach (the policy blocks at the budget); an unacknowledged report left on the '' @
        ''channel when a crash lands between the durable outcome and the acknowledgement '' @
        ''(manual archive procedure); attempt counting retries rather than every physical '' @
        ''re-dispatch after a human unblock; the evidence-conflict capability (merger/decision '' @
        ''engine/judge) staying a library capability that is not wired into the automatic '' @
        ''loop; and no CLI, daemon, plan ingestion or supervisor, so the controlled pilot is '' @
        ''operator-driven.'',
      spec_consequences =
        [''The controlled pilot runs operator-supervised, file-backed, single-project, Python '' @
         ''first, with no unattended daemon'',
         ''Operators pause the project to stop the loop, abort only the four abortable states, '' @
         ''and never modify the database by hand'',
         ''Automatic stale-report reconciliation, dispatch counting, loop integration of the AI '' @
         ''conflict layer and supervisory tooling are deferred to a later version''],
      spec_related = [''ADR-002'',
         ''ADR-007'',
         ''ADR-009''],
      spec_provenance = note\<rparr>]"

definition BOOTSTRAP_RISKS :: "risk_spec list" where
  "BOOTSTRAP_RISKS =
    [\<lparr>rspec_id = ''RISK-001'',
      rspec_description =
        ''Architecture drift during long automated build loops'',
      rspec_severity = Sev_HIGH, rspec_probability = 3 / 10, rspec_impact = Sev_HIGH, rspec_owner = ''architect'',
      rspec_mitigation =
        ''Deterministic architecture validator plus realization control.''\<rparr>,
     \<lparr>rspec_id = ''RISK-002'',
      rspec_description =
        ''SQLite access leaking outside the infrastructure layer'',
      rspec_severity = Sev_CRITICAL, rspec_probability = 1 / 5, rspec_impact = Sev_HIGH, rspec_owner = ''architect'',
      rspec_mitigation =
        ''The architecture rule that confines database imports to the infrastructure layer, '' @
        ''enforced on every validation run.''\<rparr>,
     \<lparr>rspec_id = ''RISK-003'',
      rspec_description =
        ''Plugin core or storage facade growing into a god object'',
      rspec_severity = Sev_MEDIUM, rspec_probability = 2 / 5, rspec_impact = Sev_MEDIUM, rspec_owner = ''architect'',
      rspec_mitigation =
        ''StoragePort stays a pure facade and the registry stays free of runtime policy.''\<rparr>,
     \<lparr>rspec_id = ''RISK-004'',
      rspec_description =
        ''Partially written JSON in the Cline file channel'',
      rspec_severity = Sev_MEDIUM, rspec_probability = 3 / 10, rspec_impact = Sev_MEDIUM, rspec_owner = ''architect'',
      rspec_mitigation =
        ''Atomic temp-file plus os.replace writes; readers target only the final file name and '' @
        ''ignore .tmp siblings.''\<rparr>,
     \<lparr>rspec_id = ''RISK-005'',
      rspec_description =
        ''At-least-once report delivery without de-duplication'',
      rspec_severity = Sev_MEDIUM, rspec_probability = 1 / 2, rspec_impact = Sev_MEDIUM, rspec_owner = ''architect'',
      rspec_mitigation =
        ''The orchestrator provides idempotent processing and explicit acknowledgement.''\<rparr>,
     \<lparr>rspec_id = ''RISK-007'',
      rspec_description =
        ''Latent dead end: a step persisted in REVISE with exhausted attempts has no FSM exit, '' @
        ''so neither the loop, the monitor nor a human command can resolve it'',
      rspec_severity = Sev_LOW, rspec_probability = 1 / 20, rspec_impact = Sev_MEDIUM, rspec_owner = ''architect'',
      rspec_mitigation =
        ''Not reachable through the loop: the review policy blocks at the attempt budget '' @
        ''instead of requesting a revision, so only external state manipulation can produce '' @
        ''it. The operator pauses the project and treats the row as a manual repair.''\<rparr>,
     \<lparr>rspec_id = ''RISK-008'',
      rspec_description =
        ''Orphan report: a crash between the durable outcome and the acknowledgement leaves an '' @
        ''unacknowledged report on from_cline'',
      rspec_severity = Sev_MEDIUM, rspec_probability = 1 / 10, rspec_impact = Sev_LOW, rspec_owner = ''architect'',
      rspec_mitigation =
        ''The authoritative outcome is already durable and cannot be replayed into another '' @
        ''outcome, and the operator procedure is to inspect from_cline after a restart and '' @
        ''archive such a file manually. Automatic reconciliation is deferred.''\<rparr>,
     \<lparr>rspec_id = ''RISK-009'',
      rspec_description =
        ''The attempt counter counts retries, not every physical re-dispatch: after a human '' @
        ''unblock at an exhausted budget the same attempt is dispatched again'',
      rspec_severity = Sev_MEDIUM, rspec_probability = 3 / 10, rspec_impact = Sev_MEDIUM, rspec_owner = ''architect'',
      rspec_mitigation =
        ''Re-dispatch requires an explicit, audited human command; it is never automatic. '' @
        ''Operators abort or pause instead of repeating UNBLOCK once the budget is spent. A '' @
        ''dispatch counter is deferred.''\<rparr>,
     \<lparr>rspec_id = ''RISK-010'',
      rspec_description =
        ''The evidence-conflict capability (evidence merger, decision engine, judge) is not '' @
        ''wired into the automatic loop, so nothing raises the CONFLICT state and no AI '' @
        ''verdict can influence a step'',
      rspec_severity = Sev_MEDIUM, rspec_probability = 1 / 2, rspec_impact = Sev_MEDIUM, rspec_owner = ''architect'',
      rspec_mitigation =
        ''Deliberate V1 boundary: the deterministic rules are the only verdict and the AI '' @
        ''layer stays consultative. The capability is tested and available to a caller; loop '' @
        ''integration is deferred.''\<rparr>,
     \<lparr>rspec_id = ''RISK-011'',
      rspec_description =
        ''No CLI, daemon or plan ingestion: driving the loop and seeding the step plan depend '' @
        ''on an operator procedure'',
      rspec_severity = Sev_MEDIUM, rspec_probability = 1 / 2, rspec_impact = Sev_MEDIUM, rspec_owner = ''architect'',
      rspec_mitigation =
        ''The controlled pilot is explicitly operator-supervised: the operator seeds the plan '' @
        ''through the repository port, calls the scheduler after each worker report and never '' @
        ''edits the database. Tooling is deferred.''\<rparr>]"

definition PROJECT_NAME :: string where
  "PROJECT_NAME = ''Architecture Lifecycle Assistant''"

definition PROJECT_PLAN_VERSION :: string where
  "PROJECT_PLAN_VERSION = ''0.3''"

section \<open>The composition root\<close>

definition STEP_9_PROVENANCE :: string where
  "STEP_9_PROVENANCE =
    ''Decision established during Step 9 (Orchestrator + Scheduler) as the approved '' @
    ''architecture change Architecture v1.0 -> v1.1.''"

definition COMPOSITION_ROOT_ADR :: adr_spec where
  "COMPOSITION_ROOT_ADR =
     \<lparr>spec_id = ''ADR-008'',
      spec_title = ''An explicit composition root layer'',
      spec_rationale =
        ''Until now no layer was allowed to import both the 'architecture' and the 'infrastructure' '' @
        ''layer, so the object graph could only ever be wired by the test suite. As a result '' @
        ''the canonical baseline could not be assembled in production code and the assistant '' @
        ''could not actually run.'',
      spec_decision =
        ''Architecture v1.1 adds exactly one outer layer, 'composition', which may import '' @
        ''domain, ports, application, architecture and infrastructure. No existing layer gains '' @
        ''any permission: application still must not import architecture or infrastructure, '' @
        ''and no layer may import composition. The composition layer holds wiring and '' @
        ''configuration only - never business, policy or loop decisions.'',
      spec_consequences =
        [''The baseline becomes versioned: v1.0 is kept unchanged as history and marked '' @
         ''superseded by v1.1, which becomes the current baseline.'',
         ''The architecture validator enforces v1.1 by default, so the composition package is '' @
         ''legal while every earlier rule still applies.'',
         ''Exactly one auditable place now owns the wiring of the adapters, the context builder '' @
         ''and the canonical ArchitectureVersion factory.''],
      spec_related = [''ADR-004'',
         ''ADR-005''],
      spec_provenance = STEP_9_PROVENANCE\<rparr>"

definition COMPOSITION_LAYER_DRIFT_RISK :: risk_spec where
  "COMPOSITION_LAYER_DRIFT_RISK =
     \<lparr>rspec_id = ''RISK-006'',
      rspec_description =
        ''The outer composition layer growing into a home for business logic, policy or loop '' @
        ''decisions'',
      rspec_severity = Sev_MEDIUM, rspec_probability = 3 / 10, rspec_impact = Sev_MEDIUM, rspec_owner = ''architect'',
      rspec_mitigation =
        ''The composition layer stays wiring and configuration only, and every earlier '' @
        ''architecture rule keeps applying to it.''\<rparr>"

end
