(* ===== verification/Startup.thy ===== *)
theory Startup
  imports Catalogue Realization "HOL-Library.AList"
begin

text \<open>
  The start of the assistant: the declared architecture changes of \<open>composition/evolution.py\<close> and their
  replay through the change-request lifecycle, and the part of \<open>compose\<close> (\<open>composition/root.py\<close>) that
  acts on the database: reconcile the bootstrap, then the declared changes. Values the code reads off
  the wall clock (the time the module was loaded, the stamps of a new project) are arguments.
\<close>

section \<open>The declared changes\<close>

definition DEFAULT_APPROVER :: string where
  "DEFAULT_APPROVER = ''user''"

definition V1_1_ACR_ID :: string where
  "V1_1_ACR_ID = ''ACR-001''"

definition COMPOSITION_ROOT_ROADMAP_IMPACT :: "string list" where
  "COMPOSITION_ROOT_ROADMAP_IMPACT = [''step-009'', ''step-010'', ''step-011'']"

record declared_change =
  dc_request :: change_request
  dc_adr :: adr_spec

definition declared_request_id :: "declared_change \<Rightarrow> string" where
  "declared_request_id c = acr_request_id (dc_request c)"

definition acr_to_dict :: "change_request \<Rightarrow> json" where
  "acr_to_dict r = JObj
     [(''request_id'', JStr (acr_request_id r)), (''title'', JStr (acr_title r)),
      (''rationale'', JStr (acr_rationale r)), (''source_version'', JStr (acr_source_version r)),
      (''target_version'', JStr (acr_target_version r)), (''rule_ids'', json_texts (acr_rule_ids r)),
      (''adr_id'', JStr (acr_adr_id r)), (''roadmap_impact'', json_texts (acr_roadmap_impact r)),
      (''status'', JStr (acr_status_value (acr_status r))), (''created_at'', JTime (acr_created_at r)),
      (''approved_by'', json_opt JStr (acr_approved_by r)), (''approved_at'', json_opt JTime (acr_approved_at r)),
      (''applied_at'', json_opt JTime (acr_applied_at r))]"

definition declared_to_dict :: "declared_change \<Rightarrow> json" where
  "declared_to_dict c =
     JObj [(''request'', acr_to_dict (dc_request c)), (''adr_id'', JStr (spec_id (dc_adr c)))]"

record reconciliation_summary =
  rs_changes :: "evolution_summary list"

definition reconciled_ids :: "reconciliation_summary \<Rightarrow> string list" where
  "reconciled_ids s = map (\<lambda>e. acr_request_id (esum_request e)) (rs_changes s)"

definition version_summary :: "reconciliation_summary \<Rightarrow> exn + versioning_summary" where
  "version_summary s =
     (case List.find (\<lambda>e. esum_version_summary e \<noteq> None) (rev (rs_changes s)) of
        None \<Rightarrow> Inl ArchitectureEvolutionError
      | Some e \<Rightarrow> Inr (the (esum_version_summary e)))"

definition reconciliation_to_dict :: "reconciliation_summary \<Rightarrow> json" where
  "reconciliation_to_dict s = JObj [(''changes'', JList (map evolution_summary_to_dict (rs_changes s)))]"

definition change_v1_0_to_v1_1 :: "datetime \<Rightarrow> exn + declared_change" where
  "change_v1_0_to_v1_1 loaded_at =
     bindE (mk_change_request
       \<lparr>acr_request_id = V1_1_ACR_ID, acr_title = ''Admit the composition root as architecture v1.1'',
        acr_rationale = spec_rationale COMPOSITION_ROOT_ADR,
        acr_source_version = baseline_version ARCHITECTURE_V1, acr_target_version = baseline_version ARCHITECTURE_V1_1,
        acr_rule_ids = baseline_rule_ids ARCHITECTURE_V1_1, acr_adr_id = spec_id COMPOSITION_ROOT_ADR,
        acr_roadmap_impact = COMPOSITION_ROOT_ROADMAP_IMPACT, acr_status = Acr_PROPOSED,
        acr_created_at = loaded_at, acr_approved_by = None, acr_approved_at = None, acr_applied_at = None\<rparr>) (\<lambda>r.
     Inr \<lparr>dc_request = r, dc_adr = COMPOSITION_ROOT_ADR\<rparr>)"

definition DECLARED_CHANGES :: "datetime \<Rightarrow> exn + declared_change list" where
  "DECLARED_CHANGES loaded_at = mapE id [change_v1_0_to_v1_1 loaded_at]"

definition baseline_record :: "architecture_baseline \<Rightarrow> datetime \<Rightarrow> exn + architecture_version" where
  "baseline_record b now =
     mk_architecture_version
       \<lparr>av_version = baseline_version b, av_baseline = baseline_description b, av_rules = baseline_rule_ids b,
        av_superseded_by = None, av_is_current = True, av_created_at = now\<rparr>"

definition canonical_versions :: "datetime \<Rightarrow> exn + (string \<times> architecture_version) list" where
  "canonical_versions now =
     bindE (baseline_record ARCHITECTURE_V1 now) (\<lambda>v.
     bindE (baseline_record ARCHITECTURE_V1_1 now) (\<lambda>w.
     Inr [(baseline_version ARCHITECTURE_V1, v), (baseline_version ARCHITECTURE_V1_1, w)]))"

definition declared_risks :: "declared_change list \<Rightarrow> (string \<times> risk_spec list) list" where
  "declared_risks changes =
     (let catalogue = map (\<lambda>c. (declared_request_id c, [])) changes in
      if V1_1_ACR_ID \<in> set (map fst catalogue)
      then AList.update V1_1_ACR_ID [COMPOSITION_LAYER_DRIFT_RISK] catalogue else catalogue)"

definition build_evolution :: "(nat \<Rightarrow> datetime) \<Rightarrow> datetime \<Rightarrow> declared_change list \<Rightarrow> versioning \<Rightarrow> exn + evolution" where
  "build_evolution clk now changes versioning =
     bindE (canonical_versions now) (\<lambda>canonical.
     Inr \<lparr>ev_canonical = map_of canonical,
          ev_risks = (\<lambda>k. case map_of (declared_risks changes) k of None \<Rightarrow> [] | Some rs \<Rightarrow> rs),
          ev_clock = clk, ev_versioning = versioning\<rparr>)"

primrec reconcile_changes :: "evolution \<Rightarrow> string \<Rightarrow> declared_change list \<Rightarrow> evolution_summary list io" where
  "reconcile_changes E approver [] = returnM []"
| "reconcile_changes E approver (c # cs) =
     thenM (evolution_propose E (dc_request c) (dc_adr c))
     (thenM (evolution_approve E (declared_request_id c) approver)
     (bindM (evolution_apply E (declared_request_id c)) (\<lambda>s.
      bindM (reconcile_changes E approver cs) (\<lambda>ss. returnM (s # ss)))))"

definition reconcile_declared_changes :: "evolution \<Rightarrow> declared_change list \<Rightarrow> string \<Rightarrow> reconciliation_summary io" where
  "reconcile_declared_changes E changes approver =
     bindM (reconcile_changes E approver changes) (\<lambda>ss. returnM \<lparr>rs_changes = ss\<rparr>)"

section \<open>The composition\<close>

definition baseline_v1 :: "datetime \<Rightarrow> exn + architecture_version" where
  "baseline_v1 now =
     bindE (canonical_versions now) (\<lambda>vs. Inr (the (map_of vs (baseline_version ARCHITECTURE_V1))))"

definition baseline_v1_1 :: "datetime \<Rightarrow> exn + architecture_version" where
  "baseline_v1_1 now =
     bindE (canonical_versions now) (\<lambda>vs. Inr (the (map_of vs (baseline_version ARCHITECTURE_V1_1))))"

text \<open>The database path, the directories and the protocol are used outside the model of the database.\<close>

record composition_config =
  cc_project_name :: string
  cc_plan_version :: string
  cc_mode :: mode
  cc_max_iterations :: int
  cc_clock :: "nat \<Rightarrow> datetime"

definition mk_composition_config :: "composition_config \<Rightarrow> exn + composition_config" where
  "mk_composition_config c = bindE (requireE (1 \<le> cc_max_iterations c) ValueError) (\<lambda>_. Inr c)"

definition default_config :: "(nat \<Rightarrow> datetime) \<Rightarrow> composition_config" where
  "default_config clk =
     \<lparr>cc_project_name = PROJECT_NAME, cc_plan_version = PROJECT_PLAN_VERSION, cc_mode = Mode_MANUAL,
      cc_max_iterations = 64, cc_clock = clk\<rparr>"

record launch =
  ln_config :: composition_config
  ln_note :: string
  ln_loaded_at :: datetime
  ln_project_stamp :: datetime

definition config_project :: "launch \<Rightarrow> exn + project" where
  "config_project L =
     mk_project
       \<lparr>project_name = cc_project_name (ln_config L), project_plan_version = cc_plan_version (ln_config L),
        project_plan_hash = [], project_mode = cc_mode (ln_config L), project_paused = False,
        project_current_step_no_snapshot = None, project_created_at = ln_project_stamp L,
        project_updated_at = ln_project_stamp L\<rparr>"

definition config_bootstrap :: "launch \<Rightarrow> datetime \<Rightarrow> bootstrap" where
  "config_bootstrap L now =
     \<lparr>boot_version = baseline_v1 now, boot_project = config_project L, boot_adrs = BOOTSTRAP_ADRS (ln_note L),
      boot_risks = BOOTSTRAP_RISKS, boot_clock = cc_clock (ln_config L)\<rparr>"

record startup_summary =
  start_bootstrap :: bootstrap_summary
  start_versioning :: versioning_summary
  start_evolution :: reconciliation_summary

text \<open>The declared changes are made when the module is loaded, so an error in them comes before any write.\<close>

definition config_versioning :: "launch \<Rightarrow> versioning" where
  "config_versioning L = \<lparr>vs_clock = cc_clock (ln_config L), vs_adrs = [COMPOSITION_ROOT_ADR]\<rparr>"

definition startup :: "launch \<Rightarrow> startup_summary io" where
  "startup L =
     bindM (liftE (DECLARED_CHANGES (ln_loaded_at L))) (\<lambda>changes.
     bindM (clockM (cc_clock (ln_config L))) (\<lambda>now.
     bindM (seed (config_bootstrap L now)) (\<lambda>b.
     bindM (liftE (build_evolution (cc_clock (ln_config L)) now changes (config_versioning L))) (\<lambda>E.
     bindM (reconcile_declared_changes E changes DEFAULT_APPROVER) (\<lambda>r.
     bindM (liftE (version_summary r)) (\<lambda>v.
     returnM \<lparr>start_bootstrap = b, start_versioning = v, start_evolution = r\<rparr>))))))"

end
