(* ===== verification/Spec2Isabelle.thy ===== *)
theory Spec2Isabelle
  imports Workflow Invariants Architecture Adapters Change_History Judge Cost Plugin_Core Judge_Adapter Startup
begin

text \<open>
  A verification development for \<open>architecture_assistant\<close>, an assistant that drives an external coding
  worker through the Steps of a plan, keeps every fact in one SQLite database with an append-only audit
  trail, and lets no Step become VERIFIED unless the realized source tree satisfies the architecture rules.
  All paths below are under \<open>src/src/architecture_assistant/\<close>.

  \<^bold>\<open>The program and its theories, in import order.\<close>

  \<^item> \<open>Prelude\<close>: exception classes, the two monads (\<open>exn + 'a\<close>, and a state with exceptions in which the
    state survives the exception as in Python), Python's string functions. \<open>Json\<close>: JSON values and canonical
    rendering. \<open>Tables\<close>: tables keyed by a field (\<open>lookup\<close>, \<open>put\<close>) and the locale that relates them to rows.
  \<^item> \<open>Enums\<close>, \<open>Fsm\<close>, \<open>Models\<close>, \<open>Audit_Trail\<close> (\<open>domain/\<close>): every enumeration with its text values, the
    generic state machine with the Step and Task machines, the nine dataclasses with their validation, the
    audit entry.
  \<^item> \<open>Sql\<close>, \<open>Adapters\<close> (\<open>infrastructure/repositories.py\<close>): the SQL statements, parameters and row converters
    of the nine repositories, each proved to implement the table operations (locale \<open>repository\<close>,
    interpreted once per adapter). \<open>Storage\<close> (\<open>infrastructure/storage.py\<close>, \<open>sqlite.py\<close>): the database, the
    exchange directory of the worker, the connection with its transaction depth, and the monad \<open>'a io\<close> of
    everything above.
  \<^item> \<open>Architecture\<close>, \<open>Scanner\<close> (\<open>architecture/\<close>): rules, baselines and the validator; module names, import
    resolution and the scan of a tree of import nodes.
  \<^item> \<open>Loop_Policy\<close>, \<open>Context\<close>, \<open>Worker_Channel\<close>, \<open>Cline\<close>, \<open>Realization\<close>: approval policy and review decision,
    the task context, the interface of a worker channel (locale \<open>worker_channel\<close>), the Cline file channel
    that implements it, and the realization gate.
  \<^item> \<open>Effects\<close>, \<open>Orchestrator\<close>, \<open>Loop\<close>, \<open>Tick\<close>, \<open>Scheduler\<close>: one tick of the loop with all its handlers, the
    pure \<open>plan\<close> it implements, what it may do to the database, and the bounded chain of ticks.
  \<^item> \<open>Approval\<close>, \<open>Human_Override\<close>: the two human write paths.
  \<^item> \<open>Composition\<close>, \<open>System\<close>: the wiring on the Cline channel and the realization gate (interpretation of
    the loop's locale), and the whole system as an \<open>inductive\<close> reachability relation over ticks, human
    commands, restarts at any crash point and changes of the outside world.
  \<^item> \<open>Workflow\<close>, \<open>Invariants\<close>: the properties that span components.
  \<^item> \<open>ADR_Manager\<close>, \<open>Risk_Manager\<close> (\<open>application/\<close>): the lifecycles of ADRs and risks.

  \<^bold>\<open>How state corresponds to code.\<close> A \<open>world\<close> holds the database as the connection sees it (\<open>live\<close>), the
  committed one (\<open>durable\<close>), the transaction nesting depth, the exchange directory, the source tree and the
  number of times the injected clock was read; the clock is a function of that number. \<open>trail\<close> is ghost state:
  every committed database paired with the directory at that moment, which are the situations a crash can
  leave. A table is the list of its models in primary-key order of insertion; the SQL adapters are proved to
  implement it.

  \<^bold>\<open>Modelling decisions.\<close> A \<open>str\<close> is a list of code points below 256; exceptions carry their class, not their
  message; floats are exact rationals; datetimes are UTC microseconds and their ISO text is an injective
  rendering; dictionaries with JSON round trip are in canonical key order. There is a single connection, so
  BEGIN always succeeds; the overflow of SQLite's 64-bit integers is not modelled. A file is written whole or
  not at all (the code writes a temporary file and replaces). SHA-1 is a parameter. The scheduler's bound is
  a natural number (the code's default is 64); \<open>work\<close> bounds the ticks left from above, so a bound larger than it
  is never reached. The \<open>reach\<close> relation lets the environment change reports, archive, permissions and
  source tree arbitrarily, but not the database and not the published tasks and contexts.

  \<^bold>\<open>What the properties show.\<close> The tick refines the pure plan; a Step is verified only on a clean report and a
  compliant gate over the tree as it is now; a dispatched Step always has its task file, crashes included; the
  audit trail replays through the Step machine to the state of every Step; outcomes are permanent, the plan is
  worked in order, attempts are bounded, the scheduler stops; human commands are signed and cannot verify;
  the validator decides the declarative layering specification and accepted sources keep the core away from
  infrastructure; transactions are atomic; ADRs and risks live by their lifecycles and their audit entries.

  \<^bold>\<open>Not modelled.\<close> Package exports (\<open>__init__.py\<close>) carry no behaviour. The provider adapters' HTTP transport
  and the report renderers produce text and network traffic; the part of the components still marked
  not modelled in the manifest is planned in this order: bootstrap, versioning and evolution of the
  architecture, evidence merger, decision engine and judge, cost plugin, plugin registry, migrations,
  providers, reporting.
\<close>

end
